theory Spec2Isabelle
  imports Main "HOL-Library.Word" "HOL-Library.List_Lexorder" "HOL-Library.Char_ord" "HOL-Library.Sublist"
begin

unbundle bit_operations_syntax

section \<open>Errors\<close>

text \<open>
  The Go code reports failures as \<^verbatim>\<open>error\<close> values built from format strings.
  Each message of the source is one constructor here; \<open>Wrapped\<close> is
  \<^verbatim>\<open>fmt.Errorf("<prefix>: %w", err)\<close>.  \<open>KeyRequired\<close> and \<open>KeyTooLarge\<close> are the two
  errors the key/value library returns from \<^verbatim>\<open>Put\<close>, \<open>JSONUnsupported\<close> the error
  \<^verbatim>\<open>json.Marshal\<close> returns for a value it cannot encode.
\<close>

datatype error =
    IndexAlreadyExists string
  | IndexNotFound string
  | DocumentNotFound string
  | HashNotFound string
  | MetadataNotFound
  | KeyRequired
  | KeyTooLarge
  | JSONUnsupported
  | ChunkSizeTooSmall
  | OverlapTooLarge
  | EncoderUnavailable
  | EmptyURL
  | EmptyModel
  | BadURL
  | CreateRequestFailed
  | SendRequestFailed
  | StatusNotOK int string
  | DecodeResponseFailed
  | NoEmbeddingReturned
  | EmbeddingFailedForText nat error
  | DimensionNotPositive
  | UnsupportedDistance string
  | VectorDimension int int
  | BatchVectorDimension nat int int
  | LengthsDiffer
  | QueryDimension int int
  | NoSavePath
  | CreateFileFailed
  | ExportFailed
  | Wrapped string error

section \<open>Strings, digests and their encodings\<close>

text \<open>
  Go strings are byte sequences; \<^typ>\<open>string\<close> is a list of 8-bit characters, ordered
  bytewise and then by length, which is the key order of the key/value store.
\<close>

definition hex_digit :: "nat \<Rightarrow> char" where
  "hex_digit n = ''0123456789abcdef'' ! (n mod 16)"

text \<open>\<^verbatim>\<open>hex.EncodeToString\<close>: two lower-case digits per byte, high nibble first.\<close>

definition EncodeToString :: "8 word list \<Rightarrow> string" where
  "EncodeToString bs = concat (map (\<lambda>b. [hex_digit (unat b div 16), hex_digit (unat b mod 16)]) bs)"

text \<open>
  A SHA-256 digest is a 256-bit value; \<^verbatim>\<open>h.Sum(nil)\<close> lays it out as 32 bytes, most
  significant first.  The digest function itself is a parameter of the model (field
  \<open>sha256\<close> of the environment below).
\<close>

definition Sum_bytes :: "256 word \<Rightarrow> 8 word list" where
  "Sum_bytes w = map (\<lambda>i. ucast (drop_bit (8 * (31 - i)) w)) [0..<32]"

text \<open>\<^verbatim>\<open>%d\<close> of \<^verbatim>\<open>fmt.Sprintf\<close>: decimal digits, a minus sign for negative numbers.\<close>

function decimal_nat :: "nat \<Rightarrow> string" where
  "decimal_nat n =
     (if n < 10 then [char_of (48 + n)]
      else decimal_nat (n div 10) @ [char_of (48 + n mod 10)])"
  by pat_completeness auto

termination
  by (relation "measure (\<lambda>n. n)") auto

declare decimal_nat.simps [simp del]

definition decimal :: "int \<Rightarrow> string" where
  "decimal i = (if i < 0 then CHR ''-'' # decimal_nat (nat (- i)) else decimal_nat (nat i))"

section \<open>What lies outside the repository\<close>

text \<open>
  A metadata value is a Go value of any type (\<^verbatim>\<open>interface{}\<close>).  The code does two
  things with it: it prints it with \<^verbatim>\<open>%v\<close> (for the document hash) and it hands it to
  \<^verbatim>\<open>json.Marshal\<close> (when the document or a chunk is stored).  So a value is given by
  its \<^verbatim>\<open>%v\<close> text and by its JSON text, the latter \<open>None\<close> for a value that
  \<^verbatim>\<open>json.Marshal\<close> returns an error for (a NaN, an infinity, a channel, a function).
  A \<^verbatim>\<open>map[string]interface{}\<close> is modelled by its entries in key order; \<open>None\<close> is the
  nil map.  An embedding component is the bit pattern of a \<^verbatim>\<open>float32\<close>: the
  coordinator and the store never compute with it.
\<close>

datatype go_value = GoValue (printed: string) (encoded: "string option")

type_synonym metadata = "(string \<times> go_value) list"

type_synonym float32 = "32 word"

text \<open>
  An answer of the embedding service to one request: the request could not be built,
  the transport failed, the status was not 200 (with the body), the body of a 200
  answer could not be decoded, or a decoded list of embeddings.
\<close>

datatype http_reply =
    RequestNotCreated
  | TransportFailure
  | Status int string
  | Undecodable
  | Embeddings "float32 list list"

text \<open>
  The graph of the HNSW library is modelled from the specification's contract for the
  ANN index: a collection of vectors keyed by their 64-bit identifier.  What the
  library computes on the vectors (the neighbours of a query, a distance) is a
  parameter.
\<close>

type_synonym graph = "(64 word \<times> float32 list) list"

text \<open>
  The environment gathers every function the code takes from a library or from the
  outside world and the model does not define: the SHA-256 digest, the tokenizer, URL
  parsing, the embedding service (its answer to the \<open>n\<close>-th request, for a model and
  a text), the k-NN search and the distance of the graph library, the two
  \<^verbatim>\<open>float32\<close> expressions that turn a distance into a score, the outcome of writing
  the graph file, and the clock.

  The last three fields are \<^verbatim>\<open>encoding/json\<close>: what \<^verbatim>\<open>json.Unmarshal\<close> reads back from
  what \<^verbatim>\<open>json.Marshal\<close> wrote.  For a string that is \<open>json_string\<close> (the bytes that are not
  part of a valid UTF-8 sequence come back as U+FFFD).  For a vector it is
  \<open>json_floats\<close>, \<open>None\<close> when \<^verbatim>\<open>json.Marshal\<close> returns an error (a component that is a NaN
  or an infinity).  For a metadata map all of whose values can be encoded it is
  \<open>json_map\<close> (the values come back with the decoder's types; a field tagged
  \<^verbatim>\<open>omitempty\<close> that holds an empty map comes back as the nil map).
\<close>

record env =
  sha256 :: "string \<Rightarrow> 256 word"
  encoder_available :: bool
  Encode :: "string \<Rightarrow> int list"
  Decode :: "int list \<Rightarrow> string"
  url_Parse_ok :: "string \<Rightarrow> bool"
  service :: "nat \<Rightarrow> string \<Rightarrow> string \<Rightarrow> http_reply"
  graph_Search :: "graph \<Rightarrow> float32 list \<Rightarrow> int \<Rightarrow> (64 word \<times> float32 list) list"
  graph_Distance :: "string \<Rightarrow> float32 list \<Rightarrow> float32 list \<Rightarrow> float32"
  one_over_one_plus :: "float32 \<Rightarrow> float32"
  one_minus_half :: "float32 \<Rightarrow> float32"
  file_Create_ok :: bool
  graph_Export_ok :: bool
  Now :: string
  json_string :: "string \<Rightarrow> string"
  json_floats :: "float32 list \<Rightarrow> float32 list option"
  json_map :: "metadata option \<Rightarrow> metadata option"

section \<open>The key/value store (package storage)\<close>

subsection \<open>Stored values\<close>

text \<open>
  The database holds bytes: documents, chunks, lists of chunk identifiers and the
  metadata record are written as \<^verbatim>\<open>json.Marshal\<close> encodes them and read with
  \<^verbatim>\<open>json.Unmarshal\<close>.  The model keeps under a key the value that a reader decodes from
  the stored bytes, so a writer stores the value it was given after encoding and
  decoding: \<open>json_Document\<close>, \<open>json_Chunk\<close> and \<open>json_strings\<close> below, the first two
  \<open>None\<close> when \<^verbatim>\<open>json.Marshal\<close> returns an error.  Hashes are stored as they are.
\<close>

record storage_document =
  sdoc_URI :: string
  sdoc_Title :: string
  sdoc_Content :: string
  sdoc_Hash :: string
  sdoc_Metadata :: "metadata option"

record storage_chunk =
  schunk_ID :: string
  schunk_HNSWId :: "64 word"
  schunk_DocumentURI :: string
  schunk_Text :: string
  schunk_Embedding :: "float32 list"
  schunk_Position :: int
  schunk_Metadata :: "metadata option"

record index_metadata =
  NextHNSWId :: "64 word"
  DocumentCount :: int
  ChunkCount :: int
  LastUpdated :: string

text \<open>
  \<^verbatim>\<open>json.Marshal\<close> of a struct fails when it fails on a field.  Strings, integers and
  string lists are always encoded; a metadata map is encoded when each of its values
  is.  Integers (\<^verbatim>\<open>uint64\<close>, \<^verbatim>\<open>int\<close>) come back as they were written.
\<close>

definition metadata_encodable :: "metadata option \<Rightarrow> bool" where
  "metadata_encodable md =
     (case md of None \<Rightarrow> True | Some m \<Rightarrow> list_all (\<lambda>kv. encoded (snd kv) \<noteq> None) m)"

definition json_Document :: "env \<Rightarrow> storage_document \<Rightarrow> storage_document option" where
  "json_Document e doc =
     (if metadata_encodable (sdoc_Metadata doc)
      then Some \<lparr>sdoc_URI = json_string e (sdoc_URI doc), sdoc_Title = json_string e (sdoc_Title doc),
                 sdoc_Content = json_string e (sdoc_Content doc),
                 sdoc_Hash = json_string e (sdoc_Hash doc),
                 sdoc_Metadata = json_map e (sdoc_Metadata doc)\<rparr>
      else None)"

definition json_Chunk :: "env \<Rightarrow> storage_chunk \<Rightarrow> storage_chunk option" where
  "json_Chunk e c =
     (case json_floats e (schunk_Embedding c) of
        None \<Rightarrow> None
      | Some embedding \<Rightarrow>
          if metadata_encodable (schunk_Metadata c)
          then Some \<lparr>schunk_ID = json_string e (schunk_ID c), schunk_HNSWId = schunk_HNSWId c,
                     schunk_DocumentURI = json_string e (schunk_DocumentURI c),
                     schunk_Text = json_string e (schunk_Text c), schunk_Embedding = embedding,
                     schunk_Position = schunk_Position c,
                     schunk_Metadata = json_map e (schunk_Metadata c)\<rparr>
          else None)"

definition json_strings :: "env \<Rightarrow> string list \<Rightarrow> string list" where
  "json_strings e ids = map (json_string e) ids"

subsection \<open>Buckets\<close>

text \<open>
  A bucket holds its entries in ascending key order, the order in which \<^verbatim>\<open>ForEach\<close>
  visits them.  \<^verbatim>\<open>Put\<close> replaces the value of a key that is present and refuses the
  empty key and keys above 32768 bytes; \<^verbatim>\<open>Delete\<close> of an absent key does nothing.
  The database is taken to be open and writable and every value to be below the
  library's limit of \<open>2 ^ 31 - 2\<close> bytes, so \<^verbatim>\<open>Put\<close> returns no other error.
\<close>

type_synonym 'v bucket = "(string \<times> 'v) list"

definition bucket_Get :: "'v bucket \<Rightarrow> string \<Rightarrow> 'v option" where
  "bucket_Get b k = map_of b k"

fun bucket_insert :: "string \<Rightarrow> 'v \<Rightarrow> 'v bucket \<Rightarrow> 'v bucket" where
  "bucket_insert k v [] = [(k, v)]"
| "bucket_insert k v ((k', v') # b) =
     (if k = k' then (k, v) # b
      else if k < k' then (k, v) # (k', v') # b
      else (k', v') # bucket_insert k v b)"

definition bucket_Put :: "string \<Rightarrow> 'v \<Rightarrow> 'v bucket \<Rightarrow> error + 'v bucket" where
  "bucket_Put k v b =
     (if k = [] then Inl KeyRequired
      else if length k > 32768 then Inl KeyTooLarge
      else Inr (bucket_insert k v b))"

definition bucket_Delete :: "string \<Rightarrow> 'v bucket \<Rightarrow> 'v bucket" where
  "bucket_Delete k b = filter (\<lambda>kv. fst kv \<noteq> k) b"

definition bucket_keys :: "'v bucket \<Rightarrow> string list" where
  "bucket_keys b = map fst b"

subsection \<open>The database\<close>

text \<open>
  The five buckets of an index are created together by \<open>Storage_CreateIndex\<close>, so they are
  grouped: \<open>buckets s name\<close> is \<open>None\<close> where the Go code finds
  \<^verbatim>\<open>tx.Bucket(...) == nil\<close>.  Bucket names of different indexes are taken to be
  different.  \<open>registry\<close> is the bucket \<^verbatim>\<open>_indexes\<close>.  Every function below is one
  transaction: a result \<open>Inl e\<close> leaves the database as it was (the transaction is
  rolled back).  The metadata record of an index holds three numbers and a time stamp
  that the code writes as the empty string or in RFC 3339 form, ASCII texts that JSON
  gives back as they are: the functions that write it keep the record they are given.
\<close>

record index_buckets =
  documents_bucket :: "storage_document bucket"
  chunks_bucket :: "storage_chunk bucket"
  doc_chunks_bucket :: "string list bucket"
  hashes_bucket :: "string bucket"
  metadata_bucket :: "index_metadata bucket"

record storage =
  registry :: "string bucket"
  buckets :: "string \<Rightarrow> index_buckets option"

definition NewStorage :: storage where
  "NewStorage = \<lparr>registry = [], buckets = (\<lambda>n. None)\<rparr>"

definition put_buckets :: "storage \<Rightarrow> string \<Rightarrow> index_buckets \<Rightarrow> storage" where
  "put_buckets s indexName b = s\<lparr>buckets := (buckets s)(indexName := Some b)\<rparr>"

definition Storage_CreateIndex :: "storage \<Rightarrow> string \<Rightarrow> error + storage" where
  "Storage_CreateIndex s name =
     (if bucket_Get (registry s) name \<noteq> None then Inl (IndexAlreadyExists name)
      else case bucket_Put name ''active'' (registry s) of
        Inl e \<Rightarrow> Inl e
      | Inr reg \<Rightarrow>
          (let b = (case buckets s name of
                      Some b \<Rightarrow> b
                    | None \<Rightarrow> \<lparr>documents_bucket = [], chunks_bucket = [], doc_chunks_bucket = [],
                                hashes_bucket = [], metadata_bucket = []\<rparr>);
               metadata = \<lparr>NextHNSWId = 1, DocumentCount = 0, ChunkCount = 0, LastUpdated = []\<rparr>
           in case bucket_Put ''metadata'' metadata (metadata_bucket b) of
                Inl e \<Rightarrow> Inl e
              | Inr mb \<Rightarrow> Inr (put_buckets (s\<lparr>registry := reg\<rparr>) name (b\<lparr>metadata_bucket := mb\<rparr>))))"

text \<open>
  \<open>Storage_StoreDocument\<close> encodes the document before it writes anything; the key is
  the URI as given, and the hash is written under the same key in the same
  transaction.
\<close>

definition Storage_StoreDocument :: "env \<Rightarrow> storage \<Rightarrow> string \<Rightarrow> storage_document \<Rightarrow> error + storage" where
  "Storage_StoreDocument e s indexName doc =
     (case buckets s indexName of
        None \<Rightarrow> Inl (IndexNotFound indexName)
      | Some b \<Rightarrow>
          (case json_Document e doc of
             None \<Rightarrow> Inl JSONUnsupported
           | Some data \<Rightarrow>
               (case bucket_Put (sdoc_URI doc) data (documents_bucket b) of
                  Inl err \<Rightarrow> Inl err
                | Inr docs \<Rightarrow>
                    if sdoc_Hash doc \<noteq> [] then
                      (case bucket_Put (sdoc_URI doc) (sdoc_Hash doc) (hashes_bucket b) of
                         Inl err \<Rightarrow> Inl err
                       | Inr hs \<Rightarrow>
                           Inr (put_buckets s indexName
                                  (b\<lparr>documents_bucket := docs, hashes_bucket := hs\<rparr>)))
                    else Inr (put_buckets s indexName (b\<lparr>documents_bucket := docs\<rparr>)))))"

definition Storage_GetDocument :: "storage \<Rightarrow> string \<Rightarrow> string \<Rightarrow> error + storage_document" where
  "Storage_GetDocument s indexName uri =
     (case buckets s indexName of
        None \<Rightarrow> Inl (IndexNotFound indexName)
      | Some b \<Rightarrow>
          (case bucket_Get (documents_bucket b) uri of
             None \<Rightarrow> Inl (DocumentNotFound uri)
           | Some d \<Rightarrow> Inr d))"

text \<open>
  \<open>Storage_DeleteDocument\<close> of the store removes the document record, its hash and also the
  document's entry in the document-to-chunks mapping; the chunk records stay.
\<close>

definition Storage_DeleteDocument :: "storage \<Rightarrow> string \<Rightarrow> string \<Rightarrow> error + storage" where
  "Storage_DeleteDocument s indexName uri =
     (case buckets s indexName of
        None \<Rightarrow> Inl (IndexNotFound indexName)
      | Some b \<Rightarrow>
          Inr (put_buckets s indexName
                 (b\<lparr>documents_bucket := bucket_Delete uri (documents_bucket b),
                    hashes_bucket := bucket_Delete uri (hashes_bucket b),
                    doc_chunks_bucket := bucket_Delete uri (doc_chunks_bucket b)\<rparr>)))"

text \<open>
  \<open>Storage_StoreChunk\<close> encodes the chunk before it writes anything; the key is the
  identifier as given.  The identifier is then added to the decoded list of the
  document's chunk identifiers, unless it is found there, and the list is encoded and
  written.
\<close>

definition Storage_StoreChunk :: "env \<Rightarrow> storage \<Rightarrow> string \<Rightarrow> storage_chunk \<Rightarrow> error + storage" where
  "Storage_StoreChunk e s indexName chunk =
     (case buckets s indexName of
        None \<Rightarrow> Inl (IndexNotFound indexName)
      | Some b \<Rightarrow>
          (case json_Chunk e chunk of
             None \<Rightarrow> Inl JSONUnsupported
           | Some data \<Rightarrow>
               (case bucket_Put (schunk_ID chunk) data (chunks_bucket b) of
                  Inl err \<Rightarrow> Inl err
                | Inr cs \<Rightarrow>
                    if schunk_DocumentURI chunk \<noteq> [] then
                      (let existing = (case bucket_Get (doc_chunks_bucket b) (schunk_DocumentURI chunk) of
                                         None \<Rightarrow> []
                                       | Some ids \<Rightarrow> ids);
                           chunkIDs = (if schunk_ID chunk \<in> set existing then existing
                                       else existing @ [schunk_ID chunk])
                       in case bucket_Put (schunk_DocumentURI chunk) (json_strings e chunkIDs)
                                 (doc_chunks_bucket b) of
                            Inl err \<Rightarrow> Inl err
                          | Inr dc \<Rightarrow>
                              Inr (put_buckets s indexName
                                     (b\<lparr>chunks_bucket := cs, doc_chunks_bucket := dc\<rparr>)))
                    else Inr (put_buckets s indexName (b\<lparr>chunks_bucket := cs\<rparr>)))))"

text \<open>
  The sort at the end of \<open>Storage_GetChunksByDocument\<close>: for each place \<open>i\<close> but the
  last, every later element with a smaller position is swapped into place \<open>i\<close>.
  \<open>sweep x ys\<close> is the inner loop, \<open>x\<close> being the element currently at place \<open>i\<close>
  and \<open>ys\<close> the elements after it; \<open>sort_places n\<close> is \<open>n\<close> rounds of the outer loop.
\<close>

fun sweep :: "storage_chunk \<Rightarrow> storage_chunk list \<Rightarrow> storage_chunk \<times> storage_chunk list" where
  "sweep x [] = (x, [])"
| "sweep x (y # ys) =
     (if schunk_Position y < schunk_Position x
      then (case sweep y ys of (m, r) \<Rightarrow> (m, x # r))
      else (case sweep x ys of (m, r) \<Rightarrow> (m, y # r)))"

fun sort_places :: "nat \<Rightarrow> storage_chunk list \<Rightarrow> storage_chunk list" where
  "sort_places 0 xs = xs"
| "sort_places (Suc n) [] = []"
| "sort_places (Suc n) (x # xs) = (case sweep x xs of (m, r) \<Rightarrow> m # sort_places n r)"

definition sort_by_position :: "storage_chunk list \<Rightarrow> storage_chunk list" where
  "sort_by_position chunks = sort_places (length chunks - 1) chunks"

definition Storage_GetChunksByDocument :: "storage \<Rightarrow> string \<Rightarrow> string \<Rightarrow> storage_chunk list" where
  "Storage_GetChunksByDocument s indexName documentURI =
     (case buckets s indexName of
        None \<Rightarrow> []
      | Some b \<Rightarrow>
          (case bucket_Get (doc_chunks_bucket b) documentURI of
             None \<Rightarrow> []
           | Some chunkIDs \<Rightarrow>
               sort_by_position
                 (List.map_filter (\<lambda>id. bucket_Get (chunks_bucket b) id) chunkIDs)))"

definition Storage_DeleteChunksByDocument :: "storage \<Rightarrow> string \<Rightarrow> string \<Rightarrow> storage" where
  "Storage_DeleteChunksByDocument s indexName documentURI =
     (case buckets s indexName of
        None \<Rightarrow> s
      | Some b \<Rightarrow>
          (case bucket_Get (doc_chunks_bucket b) documentURI of
             None \<Rightarrow> s
           | Some chunkIDs \<Rightarrow>
               put_buckets s indexName
                 (b\<lparr>chunks_bucket := fold bucket_Delete chunkIDs (chunks_bucket b),
                    doc_chunks_bucket := bucket_Delete documentURI (doc_chunks_bucket b)\<rparr>)))"

definition Storage_GetDocumentHash :: "storage \<Rightarrow> string \<Rightarrow> string \<Rightarrow> error + string" where
  "Storage_GetDocumentHash s indexName uri =
     (case buckets s indexName of
        None \<Rightarrow> Inl (IndexNotFound indexName)
      | Some b \<Rightarrow>
          (case bucket_Get (hashes_bucket b) uri of
             None \<Rightarrow> Inl (HashNotFound uri)
           | Some h \<Rightarrow> Inr h))"

definition Storage_GetIndexMetadata :: "storage \<Rightarrow> string \<Rightarrow> error + index_metadata" where
  "Storage_GetIndexMetadata s indexName =
     (case buckets s indexName of
        None \<Rightarrow> Inl (IndexNotFound indexName)
      | Some b \<Rightarrow>
          (case bucket_Get (metadata_bucket b) ''metadata'' of
             None \<Rightarrow> Inl MetadataNotFound
           | Some m \<Rightarrow> Inr m))"

definition Storage_SetIndexMetadata :: "storage \<Rightarrow> string \<Rightarrow> index_metadata \<Rightarrow> error + storage" where
  "Storage_SetIndexMetadata s indexName metadata =
     (case buckets s indexName of
        None \<Rightarrow> Inl (IndexNotFound indexName)
      | Some b \<Rightarrow>
          (case bucket_Put ''metadata'' metadata (metadata_bucket b) of
             Inl e \<Rightarrow> Inl e
           | Inr mb \<Rightarrow> Inr (put_buckets s indexName (b\<lparr>metadata_bucket := mb\<rparr>))))"

text \<open>
  \<open>Storage_GetNextHNSWId\<close> returns the stored counter and stores its successor;
  \<^verbatim>\<open>metadata.NextHNSWId++\<close> is on \<^verbatim>\<open>uint64\<close> and wraps.
\<close>

definition Storage_GetNextHNSWId :: "storage \<Rightarrow> string \<Rightarrow> error + (64 word \<times> storage)" where
  "Storage_GetNextHNSWId s indexName =
     (case buckets s indexName of
        None \<Rightarrow> Inl (IndexNotFound indexName)
      | Some b \<Rightarrow>
          (case bucket_Get (metadata_bucket b) ''metadata'' of
             None \<Rightarrow> Inl MetadataNotFound
           | Some metadata \<Rightarrow>
               (let nextID = NextHNSWId metadata;
                    metadata' = metadata\<lparr>NextHNSWId := NextHNSWId metadata + 1\<rparr>
                in case bucket_Put ''metadata'' metadata' (metadata_bucket b) of
                     Inl e \<Rightarrow> Inl e
                   | Inr mb \<Rightarrow> Inr (nextID, put_buckets s indexName (b\<lparr>metadata_bucket := mb\<rparr>)))))"

definition Storage_ListDocuments :: "storage \<Rightarrow> string \<Rightarrow> string list" where
  "Storage_ListDocuments s indexName =
     (case buckets s indexName of
        None \<Rightarrow> []
      | Some b \<Rightarrow> bucket_keys (documents_bucket b))"

section \<open>The chunker (package chunker)\<close>

record chunk =
  chunk_ID :: string
  chunk_DocumentURI :: string
  chunk_Text :: string
  chunk_Position :: int
  chunk_Metadata :: "metadata option"

record chunker =
  chunkSize :: int
  overlapSize :: int

definition NewChunker :: "env \<Rightarrow> int \<Rightarrow> int \<Rightarrow> error + chunker" where
  "NewChunker e chunkSize' overlapSize' =
     (if chunkSize' < 50 then Inl ChunkSizeTooSmall
      else if overlapSize' \<ge> chunkSize' then Inl OverlapTooLarge
      else if \<not> encoder_available e then Inl (Wrapped ''failed to get tiktoken encoder'' EncoderUnavailable)
      else Inr \<lparr>chunkSize = chunkSize', overlapSize = (if overlapSize' < 0 then 0 else overlapSize')\<rparr>)"

definition generateChunkID :: "env \<Rightarrow> string \<Rightarrow> int \<Rightarrow> string" where
  "generateChunkID e text position =
     take 16 (EncodeToString (Sum_bytes (sha256 e (text @ ''_'' @ decimal position))))"

text \<open>
  The loop of \<open>Chunk\<close>, from offset \<open>i\<close> with \<open>position\<close> chunks emitted so far.
  \<open>None\<close> is a run that does not return: the slice expression
  \<^verbatim>\<open>tokens[i:end]\<close> panics when \<open>i\<close> is negative or above \<open>end\<close>.
\<close>

partial_function (option) chunk_loop ::
  "env \<Rightarrow> int \<Rightarrow> int \<Rightarrow> int list \<Rightarrow> int \<Rightarrow> int \<Rightarrow> chunk list \<Rightarrow> chunk list option" where
  "chunk_loop e csize stride tokens i position chunks =
     (if i < int (length tokens) then
        (let end' = (if i + csize > int (length tokens) then int (length tokens) else i + csize) in
         if i < 0 \<or> end' < i then None
         else
           (let chunkText = Decode e (take (nat (end' - i)) (drop (nat i) tokens));
                c = \<lparr>chunk_ID = generateChunkID e chunkText position, chunk_DocumentURI = [],
                     chunk_Text = chunkText, chunk_Position = position, chunk_Metadata = None\<rparr>
            in if end' = int (length tokens) then Some (chunks @ [c])
               else chunk_loop e csize stride tokens (i + stride) (position + 1) (chunks @ [c])))
      else Some chunks)"

declare chunk_loop.simps [code]

text \<open>
  \<open>Chunk\<close> never returns an error.  Before the loop it logs
  \<^verbatim>\<open>(tokenCount-c.overlapSize)/stride+1\<close>, an integer division that panics when the
  stride is zero.
\<close>

definition Chunker_Chunk :: "env \<Rightarrow> chunker \<Rightarrow> string \<Rightarrow> chunk list option" where
  "Chunker_Chunk e c text =
     (if text = [] then Some []
      else
        (let tokens = Encode e text; tokenCount = int (length tokens) in
         if tokenCount \<le> chunkSize c then
           Some [\<lparr>chunk_ID = generateChunkID e text 0, chunk_DocumentURI = [], chunk_Text = text,
                  chunk_Position = 0, chunk_Metadata = None\<rparr>]
         else
           (let stride = chunkSize c - overlapSize c in
            if stride = 0 then None
            else chunk_loop e (chunkSize c) stride tokens 0 0 [])))"

definition Chunker_ChunkDocument :: "env \<Rightarrow> chunker \<Rightarrow> string \<Rightarrow> string \<Rightarrow> chunk list option" where
  "Chunker_ChunkDocument e c documentURI text =
     (case Chunker_Chunk e c text of
        None \<Rightarrow> None
      | Some chunks \<Rightarrow>
          Some (map (\<lambda>ch. ch\<lparr>chunk_DocumentURI := documentURI,
                              chunk_ID := documentURI @ ''_'' @ chunk_ID ch\<rparr>) chunks))"

section \<open>The embedder client (package embedder)\<close>

text \<open>
  \<open>calls\<close> counts the requests made so far; it selects the service's answer and is not
  a field of the Go struct.
\<close>

record ollama_embedder =
  baseURL :: string
  embedder_model :: string
  embedder_dimension :: int
  calls :: nat

definition getDimensionForModel :: "string \<Rightarrow> int" where
  "getDimensionForModel m =
     (case map_of [(''nomic-embed-text'', 768), (''nomic-embed-text-v1'', 768),
                   (''nomic-embed-text-v1.5'', 768), (''mxbai-embed-large'', 1024),
                   (''all-minilm'', 384)] m of
        Some dim \<Rightarrow> dim
      | None \<Rightarrow> 0)"

definition NewOllamaEmbedder :: "env \<Rightarrow> string \<Rightarrow> string \<Rightarrow> error + ollama_embedder" where
  "NewOllamaEmbedder e ollamaURL m =
     (if ollamaURL = [] then Inl EmptyURL
      else if m = [] then Inl EmptyModel
      else if \<not> url_Parse_ok e ollamaURL then Inl (Wrapped ''failed to parse Ollama URL'' BadURL)
      else Inr \<lparr>baseURL = ollamaURL, embedder_model = m,
                embedder_dimension = getDimensionForModel m, calls = 0\<rparr>)"

definition GenerateEmbedding ::
  "env \<Rightarrow> ollama_embedder \<Rightarrow> string \<Rightarrow> (error + float32 list) \<times> ollama_embedder" where
  "GenerateEmbedding e o' text =
     (let called = o'\<lparr>calls := calls o' + 1\<rparr> in
      case service e (calls o') (embedder_model o') text of
        RequestNotCreated \<Rightarrow> (Inl (Wrapped ''failed to create request'' CreateRequestFailed), called)
      | TransportFailure \<Rightarrow> (Inl (Wrapped ''failed to send request'' SendRequestFailed), called)
      | Status code body \<Rightarrow> (Inl (StatusNotOK code body), called)
      | Undecodable \<Rightarrow> (Inl (Wrapped ''failed to decode response'' DecodeResponseFailed), called)
      | Embeddings es \<Rightarrow>
          (case es of
             [] \<Rightarrow> (Inl NoEmbeddingReturned, called)
           | embedding # rest \<Rightarrow>
               if embedding = [] then (Inl NoEmbeddingReturned, called)
               else (Inr embedding,
                     called\<lparr>embedder_dimension :=
                               (if embedder_dimension o' = 0 then int (length embedding)
                                else embedder_dimension o')\<rparr>)))"

fun embed_each ::
  "env \<Rightarrow> ollama_embedder \<Rightarrow> nat \<Rightarrow> string list \<Rightarrow> float32 list list
     \<Rightarrow> (error + float32 list list) \<times> ollama_embedder" where
  "embed_each e o' i [] embeddings = (Inr embeddings, o')"
| "embed_each e o' i (text # texts) embeddings =
     (case GenerateEmbedding e o' text of
        (Inl err, o'') \<Rightarrow> (Inl (EmbeddingFailedForText i err), o'')
      | (Inr embedding, o'') \<Rightarrow> embed_each e o'' (i + 1) texts (embeddings @ [embedding]))"

definition GenerateEmbeddings ::
  "env \<Rightarrow> ollama_embedder \<Rightarrow> string list \<Rightarrow> (error + float32 list list) \<times> ollama_embedder" where
  "GenerateEmbeddings e o' texts =
     (if texts = [] then (Inr [], o') else embed_each e o' 0 texts [])"

definition Dimension :: "ollama_embedder \<Rightarrow> int" where
  "Dimension o' = embedder_dimension o'"

section \<open>The ANN index wrapper (package indexer)\<close>

record HNSWConfig =
  M :: int
  EfConstruction :: int
  Ef :: int
  DistanceType :: string
  Seed :: int

record HNSWIndex =
  graph :: graph
  hnsw_dimension :: int
  config :: HNSWConfig
  path :: string
  isModified :: bool

record SearchHit =
  hit_ID :: "64 word"
  hit_Score :: float32

definition DefaultConfig :: HNSWConfig where
  "DefaultConfig = \<lparr>M = 16, EfConstruction = 200, Ef = 20, DistanceType = ''cosine'', Seed = 42\<rparr>"

text \<open>
  Modelled from the spec: the operations of the graph library (not part of the
  repository) as the specification of the ANN index states them: insertion of keyed
  vectors (a vector inserted under a key that is present takes its place), removal of
  a key (nothing happens when it is absent), the number of vectors.
\<close>

definition graph_Add :: "(64 word \<times> float32 list) list \<Rightarrow> graph \<Rightarrow> graph" where
  "graph_Add nodes g = fold (\<lambda>(k, v) g'. filter (\<lambda>n. fst n \<noteq> k) g' @ [(k, v)]) nodes g"

definition graph_Delete :: "64 word \<Rightarrow> graph \<Rightarrow> graph" where
  "graph_Delete k g = filter (\<lambda>n. fst n \<noteq> k) g"

definition graph_Len :: "graph \<Rightarrow> int" where
  "graph_Len g = int (length g)"

text \<open>
  \<open>NewHNSWIndex\<close>; \<open>loaded\<close> is the graph read from the file at the path when that file
  exists and can be imported.
\<close>

definition NewHNSWIndex :: "string \<Rightarrow> int \<Rightarrow> HNSWConfig \<Rightarrow> graph option \<Rightarrow> error + HNSWIndex" where
  "NewHNSWIndex path' dimension cfg loaded =
     (if dimension \<le> 0 then Inl DimensionNotPositive
      else if DistanceType cfg \<noteq> ''cosine'' \<and> DistanceType cfg \<noteq> ''l2''
        then Inl (UnsupportedDistance (DistanceType cfg))
      else Inr \<lparr>graph = (case (path' \<noteq> [], loaded) of (True, Some g) \<Rightarrow> g | _ \<Rightarrow> []),
                hnsw_dimension = dimension, config = cfg, path = path', isModified = False\<rparr>)"

definition HNSWIndex_Add :: "HNSWIndex \<Rightarrow> float32 list \<Rightarrow> 64 word \<Rightarrow> error option \<times> HNSWIndex" where
  "HNSWIndex_Add h vector id' =
     (if int (length vector) \<noteq> hnsw_dimension h
      then (Some (VectorDimension (int (length vector)) (hnsw_dimension h)), h)
      else (None, h\<lparr>graph := graph_Add [(id', vector)] (graph h), isModified := True\<rparr>))"

text \<open>
  The loop of \<open>AddBatch\<close> that checks each vector and collects the nodes; it returns at
  the first vector of the wrong length.  The two lists have the same length when it
  runs, so \<open>ids ! i\<close> is in range.
\<close>

fun make_nodes ::
  "int \<Rightarrow> nat \<Rightarrow> float32 list list \<Rightarrow> 64 word list \<Rightarrow> (64 word \<times> float32 list) list
     \<Rightarrow> error + (64 word \<times> float32 list) list" where
  "make_nodes dim i [] ids nodes = Inr nodes"
| "make_nodes dim i (vector # vectors) ids nodes =
     (if int (length vector) \<noteq> dim then Inl (BatchVectorDimension i (int (length vector)) dim)
      else make_nodes dim (i + 1) vectors ids (nodes @ [(ids ! i, vector)]))"

definition HNSWIndex_AddBatch ::
  "HNSWIndex \<Rightarrow> float32 list list \<Rightarrow> 64 word list \<Rightarrow> error option \<times> HNSWIndex" where
  "HNSWIndex_AddBatch h vectors ids =
     (if length vectors \<noteq> length ids then (Some LengthsDiffer, h)
      else case make_nodes (hnsw_dimension h) 0 vectors ids [] of
        Inl err \<Rightarrow> (Some err, h)
      | Inr nodes \<Rightarrow> (None, h\<lparr>graph := graph_Add nodes (graph h), isModified := True\<rparr>))"

definition HNSWIndex_Size :: "HNSWIndex \<Rightarrow> int" where
  "HNSWIndex_Size h = graph_Len (graph h)"

definition HNSWIndex_Search :: "env \<Rightarrow> HNSWIndex \<Rightarrow> float32 list \<Rightarrow> int \<Rightarrow> error + SearchHit list" where
  "HNSWIndex_Search e h query k =
     (if int (length query) \<noteq> hnsw_dimension h
      then Inl (QueryDimension (int (length query)) (hnsw_dimension h))
      else if graph_Len (graph h) = 0 then Inr []
      else Inr (map (\<lambda>n.
                  (let dist = graph_Distance e (DistanceType (config h)) query (snd n)
                   in \<lparr>hit_ID = fst n,
                       hit_Score = (if DistanceType (config h) = ''cosine'' then one_minus_half e dist
                                    else one_over_one_plus e dist)\<rparr>))
                (graph_Search e (graph h) query k)))"

definition HNSWIndex_Delete :: "HNSWIndex \<Rightarrow> 64 word \<Rightarrow> HNSWIndex" where
  "HNSWIndex_Delete h id' = h\<lparr>graph := graph_Delete id' (graph h), isModified := True\<rparr>"

definition HNSWIndex_Clear :: "HNSWIndex \<Rightarrow> HNSWIndex" where
  "HNSWIndex_Clear h = h\<lparr>graph := [], isModified := True\<rparr>"

text \<open>\<open>Save\<close>; the written file is not part of the model's state.\<close>

definition HNSWIndex_Save :: "env \<Rightarrow> HNSWIndex \<Rightarrow> error option \<times> HNSWIndex" where
  "HNSWIndex_Save e h =
     (if path h = [] then (Some NoSavePath, h)
      else if \<not> file_Create_ok e then (Some (Wrapped ''failed to create file'' CreateFileFailed), h)
      else if \<not> graph_Export_ok e then (Some (Wrapped ''failed to export graph'' ExportFailed), h)
      else (None, h\<lparr>isModified := False\<rparr>))"

section \<open>The index coordinator (package hnswindex)\<close>

record Document =
  doc_URI :: string
  doc_Title :: string
  doc_Content :: string
  doc_Metadata :: "metadata option"

text \<open>\<open>FailedURIs\<close> is a Go map from URI to error text, kept here by its entries in key order.\<close>

record BatchResult =
  TotalDocuments :: int
  NewDocuments :: int
  UpdatedDocuments :: int
  UnchangedDocuments :: int
  ProcessedChunks :: int
  FailedURIs :: "(string \<times> error) list"

record SearchResult =
  result_Document :: Document
  result_Score :: float32
  result_ChunkID :: string
  result_ChunkText :: string
  result_IndexName :: string

text \<open>
  The state one coordinator works on: its name and ANN index, and the store, embedder,
  chunker and \<^verbatim>\<open>AutoSave\<close> setting it reaches through its manager.
\<close>

record index_impl =
  index_name :: string
  index_storage :: storage
  index_embedder :: ollama_embedder
  index_chunker :: chunker
  AutoSave :: bool
  hnswIndex :: HNSWIndex

text \<open>\<^verbatim>\<open>fmt.Sprintf("%v", m)\<close> of a map: \<^verbatim>\<open>map[k1:v1 k2:v2]\<close>, keys ascending.\<close>

fun format_entries :: "metadata \<Rightarrow> string" where
  "format_entries [] = []"
| "format_entries [(k, v)] = k @ '':'' @ printed v"
| "format_entries ((k, v) # rest) = k @ '':'' @ printed v @ '' '' @ format_entries rest"

definition format_map :: "metadata \<Rightarrow> string" where
  "format_map m = ''map['' @ format_entries m @ '']''"

definition computeDocumentHash :: "env \<Rightarrow> Document \<Rightarrow> string" where
  "computeDocumentHash e doc =
     EncodeToString (Sum_bytes (sha256 e
       (doc_Title doc @ doc_Content doc @
          (case doc_Metadata doc of None \<Rightarrow> [] | Some m \<Rightarrow> format_map m))))"

text \<open>
  The second loop of \<open>processChunks\<close>.  \<open>GenerateEmbeddings\<close> returns one vector per
  text, so \<open>embeddings ! idx\<close> is in range.
\<close>

fun store_chunks ::
  "env \<Rightarrow> index_impl \<Rightarrow> string \<Rightarrow> metadata option \<Rightarrow> float32 list list \<Rightarrow> nat \<Rightarrow> chunk list
     \<Rightarrow> error option \<times> index_impl" where
  "store_chunks e i docURI md embeddings idx [] = (None, i)"
| "store_chunks e i docURI md embeddings idx (ch # chunks) =
     (case Storage_GetNextHNSWId (index_storage i) (index_name i) of
        Inl err \<Rightarrow> (Some (Wrapped ''failed to get HNSW ID'' err), i)
      | Inr (hnswID, s1) \<Rightarrow>
          (let storageChunk =
                 \<lparr>schunk_ID = chunk_ID ch, schunk_HNSWId = hnswID, schunk_DocumentURI = docURI,
                  schunk_Text = chunk_Text ch, schunk_Embedding = embeddings ! idx,
                  schunk_Position = chunk_Position ch, schunk_Metadata = md\<rparr>
           in case Storage_StoreChunk e s1 (index_name i) storageChunk of
                Inl err \<Rightarrow> (Some (Wrapped ''failed to store chunk'' err), i\<lparr>index_storage := s1\<rparr>)
              | Inr s2 \<Rightarrow>
                  (case HNSWIndex_Add (hnswIndex i) (embeddings ! idx) hnswID of
                     (Some err, h) \<Rightarrow>
                       (Some (Wrapped ''failed to add to HNSW index'' err), i\<lparr>index_storage := s2\<rparr>)
                   | (None, h) \<Rightarrow>
                       store_chunks e (i\<lparr>index_storage := s2, hnswIndex := h\<rparr>)
                         docURI md embeddings (idx + 1) chunks)))"

definition processChunks ::
  "env \<Rightarrow> index_impl \<Rightarrow> string \<Rightarrow> chunk list \<Rightarrow> metadata option \<Rightarrow> error option \<times> index_impl" where
  "processChunks e i docURI chunks md =
     (case GenerateEmbeddings e (index_embedder i) (map chunk_Text chunks) of
        (Inl err, em) \<Rightarrow>
          (Some (Wrapped ''failed to generate embeddings'' err), i\<lparr>index_embedder := em\<rparr>)
      | (Inr embeddings, em) \<Rightarrow>
          store_chunks e (i\<lparr>index_embedder := em\<rparr>) docURI md embeddings 0 chunks)"

text \<open>
  \<open>processDocument\<close> writes the document record, and with it the hash, first, and
  returns when the store refuses the document.  The result \<open>None\<close> is a run in which the
  chunker does not return.
\<close>

definition processDocument :: "env \<Rightarrow> index_impl \<Rightarrow> Document \<Rightarrow> (error option \<times> index_impl) option" where
  "processDocument e i doc =
     (let hash = computeDocumentHash e doc;
          storageDoc = \<lparr>sdoc_URI = doc_URI doc, sdoc_Title = doc_Title doc,
                        sdoc_Content = doc_Content doc, sdoc_Hash = hash,
                        sdoc_Metadata = doc_Metadata doc\<rparr>
      in case Storage_StoreDocument e (index_storage i) (index_name i) storageDoc of
           Inl err \<Rightarrow> Some (Some (Wrapped ''failed to store document'' err), i)
         | Inr s1 \<Rightarrow>
             (let s2 = Storage_DeleteChunksByDocument s1 (index_name i) (doc_URI doc) in
              case Chunker_ChunkDocument e (index_chunker i) (doc_URI doc) (doc_Content doc) of
                None \<Rightarrow> None
              | Some chunks \<Rightarrow>
                  (case processChunks e (i\<lparr>index_storage := s2\<rparr>) (doc_URI doc) chunks (doc_Metadata doc) of
                     (Some err, i') \<Rightarrow> Some (Some (Wrapped ''failed to process chunks'' err), i')
                   | (None, i') \<Rightarrow> Some (None, i'))))"

text \<open>
  Phase 1 of \<open>AddDocumentBatch\<close>.  The log call of the second branch evaluates
  \<^verbatim>\<open>existingHash[:16]\<close>, which panics on a stored hash shorter than 16 bytes: the
  result \<open>None\<close>.  (\<^verbatim>\<open>hash[:16]\<close> is on a digest of 64 characters.)
\<close>

fun analyze ::
  "env \<Rightarrow> index_impl \<Rightarrow> Document list \<Rightarrow> BatchResult \<Rightarrow> Document list
     \<Rightarrow> (BatchResult \<times> Document list) option" where
  "analyze e i [] result toProcess = Some (result, toProcess)"
| "analyze e i (doc # docs) result toProcess =
     (let hash = computeDocumentHash e doc in
      case Storage_GetDocumentHash (index_storage i) (index_name i) (doc_URI doc) of
        Inl err \<Rightarrow>
          analyze e i docs (result\<lparr>NewDocuments := NewDocuments result + 1\<rparr>) (toProcess @ [doc])
      | Inr existingHash \<Rightarrow>
          if existingHash \<noteq> hash then
            (if length existingHash < 16 then None
             else analyze e i docs (result\<lparr>UpdatedDocuments := UpdatedDocuments result + 1\<rparr>)
                    (toProcess @ [doc]))
          else analyze e i docs (result\<lparr>UnchangedDocuments := UnchangedDocuments result + 1\<rparr>)
                 toProcess)"

text \<open>Phase 2: a document that fails is recorded and the loop goes on.\<close>

fun process_documents ::
  "env \<Rightarrow> Document list \<Rightarrow> BatchResult \<Rightarrow> index_impl \<Rightarrow> (BatchResult \<times> index_impl) option" where
  "process_documents e [] result i = Some (result, i)"
| "process_documents e (doc # docs) result i =
     (case processDocument e i doc of
        None \<Rightarrow> None
      | Some (Some err, i') \<Rightarrow>
          process_documents e docs
            (result\<lparr>FailedURIs := bucket_insert (doc_URI doc) err (FailedURIs result)\<rparr>) i'
      | Some (None, i') \<Rightarrow>
          process_documents e docs
            (result\<lparr>ProcessedChunks := ProcessedChunks result +
                int (length (Storage_GetChunksByDocument (index_storage i') (index_name i') (doc_URI doc)))\<rparr>)
            i')"

text \<open>
  \<open>AddDocumentBatch\<close> takes the documents only: the method of this file has no option to
  reprocess a document whose hash is unchanged.  The counters of \<open>BatchResult\<close> are Go
  \<^verbatim>\<open>int\<close>s, modelled as unbounded integers (a batch is far shorter than \<open>2 ^ 63\<close>); the
  identifier counter is a \<^verbatim>\<open>uint64\<close> and wraps.
\<close>

definition AddDocumentBatch ::
  "env \<Rightarrow> index_impl \<Rightarrow> Document list \<Rightarrow> ((BatchResult \<times> error option) \<times> index_impl) option" where
  "AddDocumentBatch e i docs =
     (let result = \<lparr>TotalDocuments = int (length docs), NewDocuments = 0, UpdatedDocuments = 0,
                    UnchangedDocuments = 0, ProcessedChunks = 0, FailedURIs = []\<rparr>
      in case analyze e i docs result [] of
           None \<Rightarrow> None
         | Some (result1, toProcess) \<Rightarrow>
             if toProcess = [] then Some ((result1, None), i)
             else
               (case process_documents e toProcess result1 i of
                  None \<Rightarrow> None
                | Some (result2, i2) \<Rightarrow>
                    (case (if AutoSave i2 then HNSWIndex_Save e (hnswIndex i2) else (None, hnswIndex i2)) of
                       (Some err, h) \<Rightarrow>
                         Some ((result2, Some (Wrapped ''failed to save HNSW index'' err)),
                               i2\<lparr>hnswIndex := h\<rparr>)
                     | (None, h) \<Rightarrow>
                         (let i3 = i2\<lparr>hnswIndex := h\<rparr> in
                          case Storage_GetIndexMetadata (index_storage i3) (index_name i3) of
                            Inl err \<Rightarrow> Some ((result2, None), i3)
                          | Inr metadata \<Rightarrow>
                              (let metadata' =
                                     metadata\<lparr>LastUpdated := Now e,
                                              DocumentCount := NewDocuments result2 + UpdatedDocuments result2,
                                              ChunkCount := ProcessedChunks result2\<rparr>
                               in case Storage_SetIndexMetadata (index_storage i3) (index_name i3) metadata' of
                                    Inl err \<Rightarrow> Some ((result2, None), i3)
                                  | Inr s \<Rightarrow> Some ((result2, None), i3\<lparr>index_storage := s\<rparr>))))))"

text \<open>
  \<open>findChunkAndDocument\<close> scans the documents in key order and, within a document,
  its chunks in the order \<open>Storage_GetChunksByDocument\<close> returns them.
\<close>

fun find_in_documents ::
  "storage \<Rightarrow> string \<Rightarrow> 64 word \<Rightarrow> string list \<Rightarrow> storage_chunk option \<times> storage_document option" where
  "find_in_documents s n hnswID [] = (None, None)"
| "find_in_documents s n hnswID (docURI # docs) =
     (case List.find (\<lambda>c. schunk_HNSWId c = hnswID) (Storage_GetChunksByDocument s n docURI) of
        Some c \<Rightarrow>
          (case Storage_GetDocument s n docURI of
             Inl err \<Rightarrow> (None, None)
           | Inr doc \<Rightarrow> (Some c, Some doc))
      | None \<Rightarrow> find_in_documents s n hnswID docs)"

definition findChunkAndDocument ::
  "index_impl \<Rightarrow> 64 word \<Rightarrow> storage_chunk option \<times> storage_document option" where
  "findChunkAndDocument i hnswID =
     find_in_documents (index_storage i) (index_name i) hnswID
       (Storage_ListDocuments (index_storage i) (index_name i))"

definition make_result :: "index_impl \<Rightarrow> SearchHit \<Rightarrow> storage_chunk \<Rightarrow> storage_document \<Rightarrow> SearchResult" where
  "make_result i hr c doc =
     \<lparr>result_Document = \<lparr>doc_URI = sdoc_URI doc, doc_Title = sdoc_Title doc,
                          doc_Content = sdoc_Content doc, doc_Metadata = sdoc_Metadata doc\<rparr>,
      result_Score = hit_Score hr, result_ChunkID = schunk_ID c, result_ChunkText = schunk_Text c,
      result_IndexName = index_name i\<rparr>"

fun convert_results :: "index_impl \<Rightarrow> SearchHit list \<Rightarrow> SearchResult list" where
  "convert_results i [] = []"
| "convert_results i (hr # hnswResults) =
     (case findChunkAndDocument i (hit_ID hr) of
        (Some c, Some doc) \<Rightarrow> make_result i hr c doc # convert_results i hnswResults
      | _ \<Rightarrow> convert_results i hnswResults)"

definition indexImpl_Search ::
  "env \<Rightarrow> index_impl \<Rightarrow> string \<Rightarrow> int \<Rightarrow> (error + SearchResult list) \<times> index_impl" where
  "indexImpl_Search e i query limit =
     (case GenerateEmbedding e (index_embedder i) query of
        (Inl err, em) \<Rightarrow>
          (Inl (Wrapped ''failed to generate query embedding'' err), i\<lparr>index_embedder := em\<rparr>)
      | (Inr embedding, em) \<Rightarrow>
          (case HNSWIndex_Search e (hnswIndex i) embedding limit of
             Inl err \<Rightarrow> (Inl (Wrapped ''failed to search HNSW index'' err), i\<lparr>index_embedder := em\<rparr>)
           | Inr hnswResults \<Rightarrow> (Inr (convert_results i hnswResults), i\<lparr>index_embedder := em\<rparr>)))"

text \<open>
  \<open>DeleteDocument\<close> of the coordinator: the vectors of the document's chunks leave the
  ANN index, then the store deletes the document, then the store is asked to delete the
  document's chunks.
\<close>

definition indexImpl_DeleteDocument :: "env \<Rightarrow> index_impl \<Rightarrow> string \<Rightarrow> error option \<times> index_impl" where
  "indexImpl_DeleteDocument e i uri =
     (let chunks = Storage_GetChunksByDocument (index_storage i) (index_name i) uri;
          h = fold (\<lambda>c h'. HNSWIndex_Delete h' (schunk_HNSWId c)) chunks (hnswIndex i)
      in case Storage_DeleteDocument (index_storage i) (index_name i) uri of
           Inl err \<Rightarrow> (Some err, i\<lparr>hnswIndex := h\<rparr>)
         | Inr s1 \<Rightarrow>
             (let s2 = Storage_DeleteChunksByDocument s1 (index_name i) uri in
              (None, i\<lparr>index_storage := s2,
                       hnswIndex := (if AutoSave i then snd (HNSWIndex_Save e h) else h)\<rparr>)))"

definition clear_document :: "string \<Rightarrow> string \<Rightarrow> storage \<Rightarrow> storage" where
  "clear_document n uri s =
     Storage_DeleteChunksByDocument
       (case Storage_DeleteDocument s n uri of Inl err \<Rightarrow> s | Inr s1 \<Rightarrow> s1) n uri"

definition indexImpl_Clear :: "env \<Rightarrow> index_impl \<Rightarrow> error option \<times> index_impl" where
  "indexImpl_Clear e i =
     (let h = HNSWIndex_Clear (hnswIndex i);
          docs = Storage_ListDocuments (index_storage i) (index_name i);
          s1 = fold (clear_document (index_name i)) docs (index_storage i);
          metadata = \<lparr>NextHNSWId = 1, DocumentCount = 0, ChunkCount = 0, LastUpdated = Now e\<rparr>;
          s2 = (case Storage_SetIndexMetadata s1 (index_name i) metadata of
                  Inl err \<Rightarrow> s1
                | Inr s \<Rightarrow> s)
      in (None, i\<lparr>index_storage := s2, hnswIndex := h\<rparr>))"

section \<open>Notions used to state the properties\<close>

text \<open>
  A hit resolves when \<open>findChunkAndDocument\<close> finds both a chunk with the hit's vector
  identifier and that chunk's document; \<open>resolve_hit\<close> is the result built from them.
\<close>

definition resolves :: "index_impl \<Rightarrow> SearchHit \<Rightarrow> bool" where
  "resolves i hr =
     (case findChunkAndDocument i (hit_ID hr) of (Some c, Some doc) \<Rightarrow> True | _ \<Rightarrow> False)"

definition resolve_hit :: "index_impl \<Rightarrow> SearchHit \<Rightarrow> SearchResult" where
  "resolve_hit i hr =
     make_result i hr (the (fst (findChunkAndDocument i (hit_ID hr))))
       (the (snd (findChunkAndDocument i (hit_ID hr))))"

text \<open>
  \<open>stored_as e uri ch\<close> holds of the entries of a chunk bucket that the ingest of a
  document with the URI \<open>uri\<close> can write for the chunk \<open>ch\<close> that \<open>Chunk\<close> emitted: the
  key is the URI, an underscore and the chunker's identifier, and the record holds
  what JSON gives back for that key, the URI and the chunk text, at the chunk's
  position.  \<open>good_entries e ck D\<close> are such entries for the chunks that the chunker \<open>ck\<close>
  emits for a document of \<open>D\<close>.  \<open>chunk_step G b b'\<close> relates the buckets of an index
  before and after the steps that follow the document write: documents and hashes are
  the same, every chunk entry is an old one or one of \<open>G\<close>, and the metadata record is
  still there if it was.
\<close>

definition stored_as :: "env \<Rightarrow> string \<Rightarrow> chunk \<Rightarrow> string \<times> storage_chunk \<Rightarrow> bool" where
  "stored_as e uri ch kc =
     (fst kc = uri @ ''_'' @ chunk_ID ch \<and>
      schunk_ID (snd kc) = json_string e (fst kc) \<and>
      schunk_DocumentURI (snd kc) = json_string e uri \<and>
      schunk_Text (snd kc) = json_string e (chunk_Text ch) \<and>
      schunk_Position (snd kc) = chunk_Position ch)"

definition good_entries :: "env \<Rightarrow> chunker \<Rightarrow> Document set \<Rightarrow> (string \<times> storage_chunk) set" where
  "good_entries e ck D =
     {kc. \<exists>d\<in>D. \<exists>chunks. Chunker_Chunk e ck (doc_Content d) = Some chunks \<and>
                          (\<exists>ch\<in>set chunks. stored_as e (doc_URI d) ch kc)}"

definition has_metadata :: "index_buckets \<Rightarrow> bool" where
  "has_metadata b = (bucket_Get (metadata_bucket b) ''metadata'' \<noteq> None)"

definition chunk_step :: "(string \<times> storage_chunk) set \<Rightarrow> index_buckets \<Rightarrow> index_buckets \<Rightarrow> bool" where
  "chunk_step G b b' =
     (documents_bucket b' = documents_bucket b \<and> hashes_bucket b' = hashes_bucket b \<and>
      set (chunks_bucket b') \<subseteq> set (chunks_bucket b) \<union> G \<and>
      (has_metadata b \<longrightarrow> has_metadata b'))"

text \<open>Every chunk the chunker emits carries the identifier computed from its own text and position.\<close>

definition own_id :: "env \<Rightarrow> chunk \<Rightarrow> bool" where
  "own_id e c = (chunk_ID c = generateChunkID e (chunk_Text c) (chunk_Position c))"

text \<open>The keys \<open>Put\<close> accepts.\<close>

definition valid_key :: "string \<Rightarrow> bool" where
  "valid_key k = (k \<noteq> [] \<and> length k \<le> 32768)"

text \<open>The metadata record written at the end of a batch whose result is \<open>r\<close>.\<close>

definition count_metadata :: "env \<Rightarrow> BatchResult \<Rightarrow> index_metadata \<Rightarrow> index_metadata" where
  "count_metadata e r m =
     m\<lparr>LastUpdated := Now e, DocumentCount := NewDocuments r + UpdatedDocuments r,
       ChunkCount := ProcessedChunks r\<rparr>"

text \<open>
  The vector identifiers that an ingest issues, that is, the values that its calls of
  \<open>Storage_GetNextHNSWId\<close> return, in the order of the calls.  The four functions follow
  \<open>store_chunks\<close>, \<open>processDocument\<close> with \<open>processChunks\<close>, \<open>process_documents\<close> and
  \<open>AddDocumentBatch\<close> branch by branch.  An identifier counts as issued as soon as the
  call has returned it, whether or not the chunk it was issued for is then stored.
\<close>

fun issued_by_chunks ::
  "env \<Rightarrow> index_impl \<Rightarrow> string \<Rightarrow> metadata option \<Rightarrow> float32 list list \<Rightarrow> nat \<Rightarrow> chunk list
     \<Rightarrow> 64 word list" where
  "issued_by_chunks e i docURI md embeddings idx [] = []"
| "issued_by_chunks e i docURI md embeddings idx (ch # chunks) =
     (case Storage_GetNextHNSWId (index_storage i) (index_name i) of
        Inl err \<Rightarrow> []
      | Inr (hnswID, s1) \<Rightarrow>
          hnswID #
          (case Storage_StoreChunk e s1 (index_name i)
                  \<lparr>schunk_ID = chunk_ID ch, schunk_HNSWId = hnswID, schunk_DocumentURI = docURI,
                   schunk_Text = chunk_Text ch, schunk_Embedding = embeddings ! idx,
                   schunk_Position = chunk_Position ch, schunk_Metadata = md\<rparr> of
             Inl err \<Rightarrow> []
           | Inr s2 \<Rightarrow>
               (case HNSWIndex_Add (hnswIndex i) (embeddings ! idx) hnswID of
                  (Some err, h) \<Rightarrow> []
                | (None, h) \<Rightarrow>
                    issued_by_chunks e (i\<lparr>index_storage := s2, hnswIndex := h\<rparr>)
                      docURI md embeddings (idx + 1) chunks)))"

definition issued_by_document :: "env \<Rightarrow> index_impl \<Rightarrow> Document \<Rightarrow> 64 word list" where
  "issued_by_document e i doc =
     (case Storage_StoreDocument e (index_storage i) (index_name i)
             \<lparr>sdoc_URI = doc_URI doc, sdoc_Title = doc_Title doc, sdoc_Content = doc_Content doc,
              sdoc_Hash = computeDocumentHash e doc, sdoc_Metadata = doc_Metadata doc\<rparr> of
        Inl err \<Rightarrow> []
      | Inr s1 \<Rightarrow>
          (case Chunker_ChunkDocument e (index_chunker i) (doc_URI doc) (doc_Content doc) of
             None \<Rightarrow> []
           | Some chunks \<Rightarrow>
               (case GenerateEmbeddings e (index_embedder i) (map chunk_Text chunks) of
                  (Inl err, em) \<Rightarrow> []
                | (Inr embeddings, em) \<Rightarrow>
                    issued_by_chunks e
                      (i\<lparr>index_storage := Storage_DeleteChunksByDocument s1 (index_name i) (doc_URI doc),
                         index_embedder := em\<rparr>)
                      (doc_URI doc) (doc_Metadata doc) embeddings 0 chunks)))"

fun issued_by_documents :: "env \<Rightarrow> Document list \<Rightarrow> index_impl \<Rightarrow> 64 word list" where
  "issued_by_documents e [] i = []"
| "issued_by_documents e (doc # docs) i =
     issued_by_document e i doc @
       (case processDocument e i doc of
          None \<Rightarrow> []
        | Some (res, i') \<Rightarrow> issued_by_documents e docs i')"

definition issued_by_batch :: "env \<Rightarrow> index_impl \<Rightarrow> Document list \<Rightarrow> 64 word list" where
  "issued_by_batch e i docs =
     (case analyze e i docs
             \<lparr>TotalDocuments = int (length docs), NewDocuments = 0, UpdatedDocuments = 0,
              UnchangedDocuments = 0, ProcessedChunks = 0, FailedURIs = []\<rparr> [] of
        None \<Rightarrow> []
      | Some (result, toProcess) \<Rightarrow> issued_by_documents e toProcess i)"

text \<open>
  The operations on an index that write to its store: a batch ingest, the deletion of a
  document, \<open>Clear\<close>, and a direct call of \<open>GetNextHNSWId\<close>.  \<open>run_operations\<close> applies a
  sequence of them to a coordinator and keeps, beside the coordinator, the identifiers
  issued since the start of the run or, when the run has cleared the index, since the
  last \<open>Clear\<close>.  \<open>None\<close> is a run in which an ingest does not return.
\<close>

datatype operation = Ingest "Document list" | Delete string | Clear | NextId

definition apply_operation ::
  "env \<Rightarrow> operation \<Rightarrow> index_impl \<times> 64 word list \<Rightarrow> (index_impl \<times> 64 word list) option" where
  "apply_operation e op st =
     (case op of
        Ingest docs \<Rightarrow>
          (case AddDocumentBatch e (fst st) docs of
             None \<Rightarrow> None
           | Some (out, i') \<Rightarrow> Some (i', snd st @ issued_by_batch e (fst st) docs))
      | Delete uri \<Rightarrow> Some (snd (indexImpl_DeleteDocument e (fst st) uri), snd st)
      | Clear \<Rightarrow> Some (snd (indexImpl_Clear e (fst st)), [])
      | NextId \<Rightarrow>
          (case Storage_GetNextHNSWId (index_storage (fst st)) (index_name (fst st)) of
             Inl err \<Rightarrow> Some st
           | Inr (v, s) \<Rightarrow> Some ((fst st)\<lparr>index_storage := s\<rparr>, snd st @ [v])))"

fun run_operations ::
  "env \<Rightarrow> operation list \<Rightarrow> index_impl \<times> 64 word list \<Rightarrow> (index_impl \<times> 64 word list) option" where
  "run_operations e [] st = Some st"
| "run_operations e (op # ops) st =
     (case apply_operation e op st of
        None \<Rightarrow> None
      | Some st' \<Rightarrow> run_operations e ops st')"

text \<open>
  The store accepts a document when its URI is a key \<open>Put\<close> accepts and its metadata can
  be encoded.
\<close>

definition accepted :: "Document \<Rightarrow> bool" where
  "accepted doc = (valid_key (doc_URI doc) \<and> metadata_encodable (doc_Metadata doc))"

text \<open>
  \<open>hash_current e i d\<close>: the hash stored for the URI of \<open>d\<close> is the hash of \<open>d\<close>, which is
  when triage classifies \<open>d\<close> unchanged.
\<close>

definition hash_current :: "env \<Rightarrow> index_impl \<Rightarrow> Document \<Rightarrow> bool" where
  "hash_current e i d =
     (Storage_GetDocumentHash (index_storage i) (index_name i) (doc_URI d)
        = Inr (computeDocumentHash e d))"

text \<open>
  The chunker as the specification words it.  \<open>spec_window e c T j\<close> is the chunk of
  ordinal \<open>j\<close>: the tokens of \<open>T\<close> from offset \<open>j\<close> times the stride, at most
  \<open>chunkSize\<close> of them, decoded, at position \<open>j\<close>.  \<open>last_window c T\<close> is the ordinal
  of the window that reaches the end of \<open>T\<close>, for a \<open>T\<close> longer than a chunk.
  \<open>spec_Chunk\<close> is the sequence of the three cases: nothing for the empty text, the
  text itself at position 0 when its tokens fit one chunk, the windows of ordinal 0 to
  \<open>last_window\<close> otherwise.
\<close>

definition spec_window :: "env \<Rightarrow> chunker \<Rightarrow> int list \<Rightarrow> nat \<Rightarrow> chunk" where
  "spec_window e c T j =
     (let text = Decode e (take (nat (chunkSize c)) (drop (j * nat (chunkSize c - overlapSize c)) T))
      in \<lparr>chunk_ID = generateChunkID e text (int j), chunk_DocumentURI = [], chunk_Text = text,
          chunk_Position = int j, chunk_Metadata = None\<rparr>)"

definition last_window :: "chunker \<Rightarrow> int list \<Rightarrow> nat" where
  "last_window c T =
     (nat (int (length T) - chunkSize c) + nat (chunkSize c - overlapSize c) - 1)
       div nat (chunkSize c - overlapSize c)"

definition spec_Chunk :: "env \<Rightarrow> chunker \<Rightarrow> string \<Rightarrow> chunk list" where
  "spec_Chunk e c text =
     (if text = [] then []
      else if int (length (Encode e text)) \<le> chunkSize c
        then [\<lparr>chunk_ID = generateChunkID e text 0, chunk_DocumentURI = [], chunk_Text = text,
               chunk_Position = 0, chunk_Metadata = None\<rparr>]
      else map (spec_window e c (Encode e text)) [0..<Suc (last_window c (Encode e text))])"

section \<open>Concrete instances\<close>

text \<open>
  An environment for closed examples: the digest of a text is its length, a token is a
  byte, the embedding service answers every request with the vector \<open>[1, 2]\<close>, the
  k-NN search returns the first \<open>k\<close> vectors of the graph, and writing the graph file
  succeeds, and JSON gives every string, vector and map back as it was written (the
  strings of the examples are ASCII).  The general theorems below hold for every
  environment.
\<close>

definition example_env :: env where
  "example_env =
     \<lparr>sha256 = (\<lambda>s. of_nat (length s)),
      encoder_available = True,
      Encode = map (\<lambda>c. int (of_char c)),
      Decode = map (\<lambda>t. char_of (nat t)),
      url_Parse_ok = (\<lambda>u. True),
      service = (\<lambda>n m t. Embeddings [[1, 2]]),
      graph_Search = (\<lambda>g q k. take (nat k) g),
      graph_Distance = (\<lambda>d q v. 0),
      one_over_one_plus = (\<lambda>d. d),
      one_minus_half = (\<lambda>d. d),
      file_Create_ok = True,
      graph_Export_ok = True,
      Now = ''2024-01-01T00:00:00Z'',
      json_string = (\<lambda>s. s),
      json_floats = Some,
      json_map = (\<lambda>m. m)\<rparr>"

definition example_hnsw :: HNSWIndex where
  "example_hnsw = \<lparr>graph = [(7, [1, 2, 3])], hnsw_dimension = 3, config = DefaultConfig,
                    path = ''index.hnsw'', isModified = False\<rparr>"

text \<open>
  An embedder for the model \<^verbatim>\<open>all-minilm\<close>, a chunker of 50 tokens without overlap, and
  a coordinator on a freshly created index \<^verbatim>\<open>docs\<close> whose embedder and ANN index have
  dimension 2.
\<close>

definition example_embedder :: ollama_embedder where
  "example_embedder = \<lparr>baseURL = ''http://localhost:11434'', embedder_model = ''all-minilm'',
                        embedder_dimension = 384, calls = 0\<rparr>"

definition example_chunker :: chunker where
  "example_chunker = \<lparr>chunkSize = 50, overlapSize = 0\<rparr>"

definition example_index :: index_impl where
  "example_index =
     \<lparr>index_name = ''docs'',
      index_storage = projr (Storage_CreateIndex NewStorage ''docs''),
      index_embedder = \<lparr>baseURL = ''http://localhost:11434'', embedder_model = ''tiny'',
                         embedder_dimension = 2, calls = 0\<rparr>,
      index_chunker = example_chunker,
      AutoSave = True,
      hnswIndex = \<lparr>graph = [], hnsw_dimension = 2, config = DefaultConfig,
                    path = ''index.hnsw'', isModified = False\<rparr>\<rparr>"

definition example_doc :: Document where
  "example_doc = \<lparr>doc_URI = ''d'', doc_Title = ''T'', doc_Content = ''C'', doc_Metadata = None\<rparr>"

text \<open>The coordinator after the ingest of one short document into the fresh index.\<close>

definition example_ingested :: index_impl where
  "example_ingested = snd (the (AddDocumentBatch example_env example_index [example_doc]))"

text \<open>The same coordinator whose ANN index holds, besides the vector 1 of the document's
  chunk, a vector 9 that no stored chunk refers to.\<close>

definition example_searched :: index_impl where
  "example_searched =
     example_ingested\<lparr>hnswIndex := (hnswIndex example_ingested)\<lparr>graph := [(9, [3, 4]), (1, [1, 2])]\<rparr>\<rparr>"

text \<open>The chunk record the example ingest stores.\<close>

definition example_chunk :: storage_chunk where
  "example_chunk =
     \<lparr>schunk_ID = ''d_'' @ generateChunkID example_env ''C'' 0, schunk_HNSWId = 1,
      schunk_DocumentURI = ''d'', schunk_Text = ''C'', schunk_Embedding = [1, 2],
      schunk_Position = 0, schunk_Metadata = None\<rparr>"

text \<open>A second document, ingested by a second batch into the index that holds the first.\<close>

definition example_doc2 :: Document where
  "example_doc2 = \<lparr>doc_URI = ''e'', doc_Title = ''T2'', doc_Content = ''C2'', doc_Metadata = None\<rparr>"

definition example_ingested2 :: index_impl where
  "example_ingested2 = snd (the (AddDocumentBatch example_env example_ingested [example_doc2]))"

text \<open>A document one of whose metadata values is a NaN, which JSON cannot encode.\<close>

definition example_doc_nan :: Document where
  "example_doc_nan =
     \<lparr>doc_URI = ''n'', doc_Title = ''T'', doc_Content = ''C'',
      doc_Metadata = Some [(''score'', GoValue ''NaN'' None)]\<rparr>"

text \<open>
  An environment in which JSON reads the byte \<open>0xFF\<close>, which is not valid UTF-8, back as
  U+FFFD (the three bytes \<open>0xEF 0xBF 0xBD\<close>); a document whose content is that byte; the
  coordinator after its ingest into the fresh index; and the chunk record that the
  ingest stores.
\<close>

definition replacing_env :: env where
  "replacing_env =
     example_env\<lparr>json_string := (\<lambda>s. if s = [CHR 0xFF] then [CHR 0xEF, CHR 0xBF, CHR 0xBD] else s)\<rparr>"

definition example_doc_bytes :: Document where
  "example_doc_bytes =
     \<lparr>doc_URI = ''u'', doc_Title = ''T'', doc_Content = [CHR 0xFF], doc_Metadata = None\<rparr>"

definition example_replaced :: index_impl where
  "example_replaced = snd (the (AddDocumentBatch replacing_env example_index [example_doc_bytes]))"

definition example_chunk_bytes :: storage_chunk where
  "example_chunk_bytes =
     \<lparr>schunk_ID = ''u_'' @ generateChunkID replacing_env [CHR 0xFF] 0, schunk_HNSWId = 1,
      schunk_DocumentURI = ''u'', schunk_Text = [CHR 0xEF, CHR 0xBF, CHR 0xBD],
      schunk_Embedding = [1, 2], schunk_Position = 0, schunk_Metadata = None\<rparr>"

text \<open>
  An environment in which every request to the embedding service fails in transport,
  and the coordinator after the ingest of the example document in that environment.
\<close>

definition failing_env :: env where
  "failing_env = example_env\<lparr>service := (\<lambda>n m t. TransportFailure)\<rparr>"

definition example_failed :: index_impl where
  "example_failed = snd (the (AddDocumentBatch failing_env example_index [example_doc]))"

text \<open>
  A batch that submits the URI \<open>d\<close> twice, with two contents, and the coordinator after
  its ingest into the fresh index.
\<close>

definition example_doc_v2 :: Document where
  "example_doc_v2 = \<lparr>doc_URI = ''d'', doc_Title = ''T'', doc_Content = ''CC'', doc_Metadata = None\<rparr>"

definition example_ingested_twice :: index_impl where
  "example_ingested_twice =
     snd (the (AddDocumentBatch example_env example_index [example_doc, example_doc_v2]))"

section \<open>Basic facts\<close>

subsection \<open>Buckets\<close>

text \<open>Reading a bucket after an insertion or a deletion, and what its entries can be.\<close>

lemma bucket_Get_insert:
  "bucket_Get (bucket_insert k v b) k' = (if k' = k then Some v else bucket_Get b k')"
  by (induction b) (auto simp: bucket_Get_def)

lemma bucket_Get_Delete:
  "bucket_Get (bucket_Delete k b) k' = (if k' = k then None else bucket_Get b k')"
  by (induction b) (auto simp: bucket_Get_def bucket_Delete_def)

lemma set_bucket_insert: "set (bucket_insert k v b) \<subseteq> insert (k, v) (set b)"
  by (induction b) (auto split: if_splits)

lemma bucket_insert_nonempty: "bucket_insert k v b \<noteq> []"
  by (cases b) (auto split: if_splits)

lemma set_bucket_Delete: "set (bucket_Delete k b) \<subseteq> set b"
  by (auto simp: bucket_Delete_def)

lemma set_fold_bucket_Delete: "set (fold bucket_Delete ks b) \<subseteq> set b"
proof (induction ks arbitrary: b)
  case Nil
  show ?case by simp
next
  case (Cons k ks)
  have "set (fold bucket_Delete ks (bucket_Delete k b)) \<subseteq> set (bucket_Delete k b)"
    by (rule Cons.IH)
  also have "\<dots> \<subseteq> set b" by (rule set_bucket_Delete)
  finally show ?case by simp
qed

subsection \<open>Digests\<close>

text \<open>
  A hash is 64 hexadecimal characters, a chunk identifier of the chunker 16; two hashes
  are equal exactly when the digests are.
\<close>

lemma EncodeToString_length: "length (EncodeToString bs) = 2 * length bs"
  by (induction bs) (simp_all add: EncodeToString_def)

lemma Sum_bytes_length: "length (Sum_bytes w) = 32"
  by (simp add: Sum_bytes_def)

lemma computeDocumentHash_length: "length (computeDocumentHash e d) = 64"
  by (simp add: computeDocumentHash_def EncodeToString_length Sum_bytes_length)

lemma computeDocumentHash_nonempty: "computeDocumentHash e d \<noteq> []"
  using computeDocumentHash_length [of e d] by (metis length_0_conv zero_neq_numeral)

lemma generateChunkID_length: "length (generateChunkID e t p) = 16"
  by (simp add: generateChunkID_def EncodeToString_length Sum_bytes_length)

lemma hex_digit_inj: "m < 16 \<Longrightarrow> n < 16 \<Longrightarrow> hex_digit m = hex_digit n \<Longrightarrow> m = n"
proof -
  assume a: "m < 16" "n < 16" "hex_digit m = hex_digit n"
  have d: "distinct ''0123456789abcdef''" by simp
  have l: "length ''0123456789abcdef'' = 16" by simp
  from a have "''0123456789abcdef'' ! m = ''0123456789abcdef'' ! n"
    by (simp add: hex_digit_def)
  with d l a show ?thesis
    by (metis nth_eq_iff_index_eq)
qed

lemma byte_digits_inj:
  fixes b b' :: "8 word"
  assumes "hex_digit (unat b div 16) = hex_digit (unat b' div 16)"
    and "hex_digit (unat b mod 16) = hex_digit (unat b' mod 16)"
  shows "b = b'"
proof -
  have "unat b < 256" "unat b' < 256"
    using unsigned_less [of b] unsigned_less [of b'] by simp_all
  then have d: "unat b div 16 < 16" "unat b' div 16 < 16" by simp_all
  have 1: "unat b div 16 = unat b' div 16"
    by (rule hex_digit_inj [OF d assms(1)])
  have m: "unat b mod 16 < 16" "unat b' mod 16 < 16" by simp_all
  have 2: "unat b mod 16 = unat b' mod 16"
    by (rule hex_digit_inj [OF m assms(2)])
  from 1 2 have "unat b = unat b'"
    by (metis div_mult_mod_eq)
  then show ?thesis by (rule unsigned_word_eqI)
qed

lemma EncodeToString_inj: "EncodeToString bs = EncodeToString bs' \<Longrightarrow> bs = bs'"
proof (induction bs arbitrary: bs')
  case Nil
  then show ?case by (cases bs') (simp_all add: EncodeToString_def)
next
  case (Cons b bs)
  then show ?case
  proof (cases bs')
    case Nil
    with Cons.prems show ?thesis by (simp add: EncodeToString_def)
  next
    case (Cons c cs)
    with Cons.prems have "b = c" "EncodeToString bs = EncodeToString cs"
      by (auto simp: EncodeToString_def intro: byte_digits_inj)
    with Cons.IH Cons show ?thesis by simp
  qed
qed

lemma Sum_bytes_inj: "Sum_bytes w = Sum_bytes w' \<Longrightarrow> w = w'"
proof (rule bit_eqI)
  fix n
  assume eq: "Sum_bytes w = Sum_bytes w'"
  assume "possible_bit TYPE(256 word) n"
  then have n: "n < 256" by (simp add: possible_bit_word)
  define i where "i = 31 - n div 8"
  define j where "j = n mod 8"
  have i: "i < 32" and ij: "8 * (31 - i) + j = n" and j: "j < 8"
    using n by (simp_all add: i_def j_def)
  from eq have "Sum_bytes w ! i = Sum_bytes w' ! i" by simp
  with i have "(ucast (drop_bit (8 * (31 - i)) w) :: 8 word) = ucast (drop_bit (8 * (31 - i)) w')"
    by (simp add: Sum_bytes_def)
  then have "bit (ucast (drop_bit (8 * (31 - i)) w) :: 8 word) j
           = bit (ucast (drop_bit (8 * (31 - i)) w') :: 8 word) j"
    by simp
  with j have "bit w (8 * (31 - i) + j) = bit w' (8 * (31 - i) + j)"
    by (simp add: bit_ucast_iff bit_drop_bit_eq)
  with ij show "bit w n = bit w' n" by simp
qed

lemma computeDocumentHash_eq_iff:
  "computeDocumentHash e d = computeDocumentHash e' d' \<longleftrightarrow>
   sha256 e (doc_Title d @ doc_Content d @ (case doc_Metadata d of None \<Rightarrow> [] | Some m \<Rightarrow> format_map m))
   = sha256 e' (doc_Title d' @ doc_Content d' @ (case doc_Metadata d' of None \<Rightarrow> [] | Some m \<Rightarrow> format_map m))"
  by (auto simp: computeDocumentHash_def dest: EncodeToString_inj Sum_bytes_inj)

lemma example_env_sel:
  "sha256 example_env = (\<lambda>s. of_nat (length s))"
  "encoder_available example_env = True"
  "Encode example_env = map (\<lambda>c. int (of_char c))"
  "Decode example_env = map (\<lambda>t. char_of (nat t))"
  "url_Parse_ok example_env = (\<lambda>u. True)"
  "service example_env = (\<lambda>n m t. Embeddings [[1, 2]])"
  "graph_Search example_env = (\<lambda>g q k. take (nat k) g)"
  "graph_Distance example_env = (\<lambda>d q v. 0)"
  "one_over_one_plus example_env = (\<lambda>d. d)"
  "one_minus_half example_env = (\<lambda>d. d)"
  "file_Create_ok example_env = True"
  "graph_Export_ok example_env = True"
  "Now example_env = ''2024-01-01T00:00:00Z''"
  "json_string example_env = (\<lambda>s. s)"
  "json_floats example_env = Some"
  "json_map example_env = (\<lambda>m. m)"
  by (simp_all add: example_env_def)

lemmas storage_defs =
  Storage_CreateIndex_def Storage_StoreDocument_def Storage_GetDocument_def Storage_DeleteDocument_def
  Storage_StoreChunk_def Storage_GetChunksByDocument_def Storage_DeleteChunksByDocument_def
  Storage_GetDocumentHash_def Storage_GetIndexMetadata_def Storage_SetIndexMetadata_def
  Storage_GetNextHNSWId_def Storage_ListDocuments_def put_buckets_def NewStorage_def
  bucket_Get_def bucket_Put_def bucket_Delete_def bucket_keys_def

lemmas run_defs =
  storage_defs Chunker_Chunk_def Chunker_ChunkDocument_def
  GenerateEmbedding_def GenerateEmbeddings_def
  HNSWIndex_Add_def HNSWIndex_Save_def HNSWIndex_Delete_def HNSWIndex_Clear_def HNSWIndex_Search_def
  graph_Add_def graph_Delete_def graph_Len_def
  processChunks_def processDocument_def AddDocumentBatch_def
  findChunkAndDocument_def indexImpl_Search_def indexImpl_DeleteDocument_def indexImpl_Clear_def
  clear_document_def make_result_def
  List.map_filter_def Let_def sort_by_position_def
  json_Document_def json_Chunk_def json_strings_def metadata_encodable_def
  computeDocumentHash_length computeDocumentHash_nonempty generateChunkID_length

lemmas example_defs =
  example_env_sel example_index_def example_doc_def example_embedder_def example_chunker_def
  DefaultConfig_def

section \<open>Batch insertion into the ANN index\<close>

lemma make_nodes_error:
  "\<exists>v\<in>set vectors. int (length v) \<noteq> dim \<Longrightarrow>
   \<exists>j. j < length vectors \<and> int (length (vectors ! j)) \<noteq> dim \<and>
       make_nodes dim i vectors ids nodes = Inl (BatchVectorDimension (i + j) (int (length (vectors ! j))) dim)"
proof (induction vectors arbitrary: i nodes)
  case Nil
  then show ?case by simp
next
  case (Cons v vs)
  show ?case
  proof (cases "int (length v) = dim")
    case True
    with Cons.prems have "\<exists>v\<in>set vs. int (length v) \<noteq> dim" by auto
    from Cons.IH [OF this, of "i + 1" "nodes @ [(ids ! i, v)]"]
    obtain j where j: "j < length vs" "int (length (vs ! j)) \<noteq> dim"
      "make_nodes dim (i + 1) vs ids (nodes @ [(ids ! i, v)])
         = Inl (BatchVectorDimension (i + 1 + j) (int (length (vs ! j))) dim)"
      by blast
    show ?thesis
      by (rule exI [of _ "Suc j"]) (use True j in simp)
  next
    case False
    show ?thesis
      by (rule exI [of _ 0]) (use False in simp)
  qed
qed

text \<open>
  C9.  \<open>AddBatch\<close> called with as many vectors as identifiers, one of the vectors not
  of the index's dimension: the call returns the dimension error of the first such
  vector and the index it returns is the index it was given (graph, modified flag and
  all), so no vector of the batch was inserted and the size has not changed.
\<close>

theorem AddBatch_dimension_error_inserts_nothing:
  assumes "length vectors = length ids"
    and "\<exists>v\<in>set vectors. int (length v) \<noteq> hnsw_dimension h"
  shows "\<exists>j. j < length vectors \<and> int (length (vectors ! j)) \<noteq> hnsw_dimension h \<and>
           HNSWIndex_AddBatch h vectors ids =
             (Some (BatchVectorDimension j (int (length (vectors ! j))) (hnsw_dimension h)), h) \<and>
           HNSWIndex_Size (snd (HNSWIndex_AddBatch h vectors ids)) = HNSWIndex_Size h"
proof -
  from make_nodes_error [OF assms(2), of 0 ids "[]"]
  obtain j where j: "j < length vectors" "int (length (vectors ! j)) \<noteq> hnsw_dimension h"
    "make_nodes (hnsw_dimension h) 0 vectors ids []
       = Inl (BatchVectorDimension j (int (length (vectors ! j))) (hnsw_dimension h))"
    by auto
  show ?thesis
    by (rule exI [of _ j]) (use assms(1) j in \<open>simp add: HNSWIndex_AddBatch_def\<close>)
qed

theorem AddBatch_dimension_error_witness:
  "HNSWIndex_AddBatch example_hnsw [[1, 1, 1], [1, 1]] [8, 9]
     = (Some (BatchVectorDimension 1 2 3), example_hnsw) \<and>
   HNSWIndex_Size (snd (HNSWIndex_AddBatch example_hnsw [[1, 1, 1], [1, 1]] [8, 9])) = 1"
  using AddBatch_dimension_error_inserts_nothing [of "[[1, 1, 1], [1, 1]]" "[8, 9]" example_hnsw]
  by (simp add: example_hnsw_def HNSWIndex_AddBatch_def HNSWIndex_Size_def graph_Len_def)

section \<open>The embedder's dimension\<close>

text \<open>
  C8, as the code has it.  A new embedder takes its dimension from the table of known
  models (0 for a model that is not in the table).  A successful \<open>GenerateEmbedding\<close>
  that returns a vector of length \<open>L\<close> sets the dimension to \<open>L\<close> only when the
  dimension was 0, that is unknown; a dimension that is already set, by the table or by
  an earlier call, is kept whatever the length of the returned vector.
\<close>

theorem embedder_dimension_only_set_when_unknown:
  assumes "NewOllamaEmbedder e url m = Inr o0"
    and "GenerateEmbedding e' o1 text = (Inr v, o2)"
  shows "Dimension o0 = getDimensionForModel m \<and>
         Dimension o2 = (if Dimension o1 = 0 then int (length v) else Dimension o1)"
  using assms
  by (auto simp: NewOllamaEmbedder_def GenerateEmbedding_def Dimension_def Let_def
           split: if_splits http_reply.splits list.splits)

theorem embedder_dimension_witness:
  "Dimension example_embedder = getDimensionForModel ''all-minilm'' \<and>
   Dimension (snd (GenerateEmbedding example_env (example_embedder\<lparr>embedder_dimension := 0\<rparr>) ''query'')) = 2 \<and>
   Dimension (snd (GenerateEmbedding example_env example_embedder ''query'')) = 384"
proof -
  have a: "NewOllamaEmbedder example_env ''http://localhost:11434'' ''all-minilm'' = Inr example_embedder"
    by (simp add: NewOllamaEmbedder_def example_env_sel example_embedder_def getDimensionForModel_def)
  have b: "GenerateEmbedding example_env (example_embedder\<lparr>embedder_dimension := 0\<rparr>) ''query''
             = (Inr [1, 2], snd (GenerateEmbedding example_env (example_embedder\<lparr>embedder_dimension := 0\<rparr>) ''query''))"
    by (simp add: GenerateEmbedding_def example_env_sel example_embedder_def)
  have c: "GenerateEmbedding example_env example_embedder ''query''
             = (Inr [1, 2], snd (GenerateEmbedding example_env example_embedder ''query''))"
    by (simp add: GenerateEmbedding_def example_env_sel example_embedder_def)
  show ?thesis
    using embedder_dimension_only_set_when_unknown [OF a b]
      embedder_dimension_only_set_when_unknown [OF a c]
    by (simp add: Dimension_def example_embedder_def)
qed

text \<open>
  The claim as stated fails: the embedder for \<^verbatim>\<open>all-minilm\<close> starts with dimension 384,
  the service returns a vector of length 2, the call succeeds, and the dimension is
  still 384.
\<close>

theorem embedder_hint_overrides_observed_counterexample:
  "NewOllamaEmbedder example_env ''http://localhost:11434'' ''all-minilm'' = Inr example_embedder \<and>
   fst (GenerateEmbedding example_env example_embedder ''query'') = Inr [1, 2] \<and>
   Dimension (snd (GenerateEmbedding example_env example_embedder ''query'')) = 384 \<and>
   Dimension (snd (GenerateEmbedding example_env example_embedder ''query'')) \<noteq> int (length [1 :: float32, 2])"
  by (simp add: NewOllamaEmbedder_def GenerateEmbedding_def Dimension_def example_env_sel
        example_embedder_def getDimensionForModel_def)

section \<open>The example ingest\<close>

text \<open>
  The ingest of the example document into the fresh index, step by step through the
  model: one document record with its hash, one chunk with vector identifier 1, the
  counter at 2.
\<close>

lemma example_ingest:
  "AddDocumentBatch example_env example_index [example_doc] =
     Some ((\<lparr>TotalDocuments = 1, NewDocuments = 1, UpdatedDocuments = 0, UnchangedDocuments = 0,
             ProcessedChunks = 1, FailedURIs = []\<rparr>, None),
           example_index
             \<lparr>index_storage :=
                \<lparr>registry = [(''docs'', ''active'')],
                 buckets = (\<lambda>n. None)(''docs'' := Some
                   \<lparr>documents_bucket =
                      [(''d'', \<lparr>sdoc_URI = ''d'', sdoc_Title = ''T'', sdoc_Content = ''C'',
                                sdoc_Hash = computeDocumentHash example_env example_doc,
                                sdoc_Metadata = None\<rparr>)],
                    chunks_bucket =
                      [(''d_'' @ generateChunkID example_env ''C'' 0,
                        \<lparr>schunk_ID = ''d_'' @ generateChunkID example_env ''C'' 0, schunk_HNSWId = 1,
                         schunk_DocumentURI = ''d'', schunk_Text = ''C'', schunk_Embedding = [1, 2],
                         schunk_Position = 0, schunk_Metadata = None\<rparr>)],
                    doc_chunks_bucket = [(''d'', [''d_'' @ generateChunkID example_env ''C'' 0])],
                    hashes_bucket = [(''d'', computeDocumentHash example_env example_doc)],
                    metadata_bucket =
                      [(''metadata'', \<lparr>NextHNSWId = 2, DocumentCount = 1, ChunkCount = 1,
                                        LastUpdated = ''2024-01-01T00:00:00Z''\<rparr>)]\<rparr>)\<rparr>,
              index_embedder := (index_embedder example_index)\<lparr>calls := 1\<rparr>,
              hnswIndex := (hnswIndex example_index)\<lparr>graph := [(1, [1, 2])]\<rparr>\<rparr>)"
  by (simp add: run_defs example_defs)

lemma example_ingested_eq:
  "example_ingested =
           example_index
             \<lparr>index_storage :=
                \<lparr>registry = [(''docs'', ''active'')],
                 buckets = (\<lambda>n. None)(''docs'' := Some
                   \<lparr>documents_bucket =
                      [(''d'', \<lparr>sdoc_URI = ''d'', sdoc_Title = ''T'', sdoc_Content = ''C'',
                                sdoc_Hash = computeDocumentHash example_env example_doc,
                                sdoc_Metadata = None\<rparr>)],
                    chunks_bucket =
                      [(''d_'' @ generateChunkID example_env ''C'' 0,
                        \<lparr>schunk_ID = ''d_'' @ generateChunkID example_env ''C'' 0, schunk_HNSWId = 1,
                         schunk_DocumentURI = ''d'', schunk_Text = ''C'', schunk_Embedding = [1, 2],
                         schunk_Position = 0, schunk_Metadata = None\<rparr>)],
                    doc_chunks_bucket = [(''d'', [''d_'' @ generateChunkID example_env ''C'' 0])],
                    hashes_bucket = [(''d'', computeDocumentHash example_env example_doc)],
                    metadata_bucket =
                      [(''metadata'', \<lparr>NextHNSWId = 2, DocumentCount = 1, ChunkCount = 1,
                                        LastUpdated = ''2024-01-01T00:00:00Z''\<rparr>)]\<rparr>)\<rparr>,
              index_embedder := (index_embedder example_index)\<lparr>calls := 1\<rparr>,
              hnswIndex := (hnswIndex example_index)\<lparr>graph := [(1, [1, 2])]\<rparr>\<rparr>"
  by (simp add: example_ingested_def example_ingest)

section \<open>Deleting a document\<close>

text \<open>
  The coordinator's \<open>DeleteDocument\<close> asks the store to delete the document first.  That
  removes the document's entry of the document-to-chunks mapping, so the following
  \<open>Storage_DeleteChunksByDocument\<close> finds no chunk identifiers and deletes nothing: on an
  existing index the chunk bucket after the call is the chunk bucket before it.
\<close>

lemma DeleteDocument_leaves_chunk_records:
  assumes "buckets (index_storage i) (index_name i) = Some b"
  shows "fst (indexImpl_DeleteDocument e i uri) = None \<and>
         (\<exists>b'. buckets (index_storage (snd (indexImpl_DeleteDocument e i uri))) (index_name i) = Some b' \<and>
               bucket_Get (documents_bucket b') uri = None \<and>
               bucket_Get (doc_chunks_bucket b') uri = None \<and>
               chunks_bucket b' = chunks_bucket b)"
  using assms
  by (simp add: indexImpl_DeleteDocument_def Storage_DeleteDocument_def
        Storage_DeleteChunksByDocument_def put_buckets_def bucket_Get_Delete Let_def)

text \<open>
  C2 at a concrete input: the index holds the document \<open>d\<close> with one chunk.
  \<open>DeleteDocument\<close> returns without error and the document is gone, but the chunk record
  whose parent is \<open>d\<close> is still in the chunk bucket.
\<close>

theorem DeleteDocument_orphans_chunks_example:
  "Storage_ListDocuments (index_storage example_ingested) ''docs'' = [''d''] \<and>
   fst (indexImpl_DeleteDocument example_env example_ingested ''d'') = None \<and>
   Storage_ListDocuments (index_storage (snd (indexImpl_DeleteDocument example_env example_ingested ''d''))) ''docs'' = [] \<and>
   map (schunk_DocumentURI \<circ> snd)
     (chunks_bucket (the (buckets (index_storage (snd (indexImpl_DeleteDocument example_env example_ingested ''d''))) ''docs'')))
     = [''d'']"
  by (simp add: example_ingested_eq run_defs example_defs)

section \<open>Search\<close>

lemma convert_results_filter:
  "convert_results i hits = map (resolve_hit i) (filter (resolves i) hits)"
  by (induction hits) (auto simp: resolves_def resolve_hit_def split: prod.splits option.splits)

text \<open>
  C10.  When the query is embedded and the ANN search succeeds with the hits \<open>hits\<close>,
  \<open>Search\<close> returns no error; its results are the results of the hits that resolve, in
  the order of \<open>hits\<close>, every hit that does not resolve being left out.  The scores
  are those of the remaining hits, a subsequence of the ANN scores.
\<close>

theorem Search_drops_unresolvable_hits:
  assumes "GenerateEmbedding e (index_embedder i) query = (Inr embedding, em)"
    and "HNSWIndex_Search e (hnswIndex i) embedding limit = Inr hits"
  shows "fst (indexImpl_Search e i query limit) = Inr (map (resolve_hit i) (filter (resolves i) hits)) \<and>
         map result_Score (map (resolve_hit i) (filter (resolves i) hits))
           = map hit_Score (filter (resolves i) hits) \<and>
         subseq (map result_Score (map (resolve_hit i) (filter (resolves i) hits))) (map hit_Score hits) \<and>
         length (map (resolve_hit i) (filter (resolves i) hits)) \<le> length hits"
proof -
  have scores: "map result_Score (map (resolve_hit i) (filter (resolves i) hits))
                  = map hit_Score (filter (resolves i) hits)"
    by (simp add: resolve_hit_def make_result_def comp_def)
  have "subseq (map hit_Score (filter (resolves i) hits)) (map hit_Score hits)"
    by (rule subseq_map) (rule subseq_filter_left)
  then have sub: "subseq (map result_Score (map (resolve_hit i) (filter (resolves i) hits)))
                    (map hit_Score hits)"
    by (simp only: scores)
  have "fst (indexImpl_Search e i query limit) = Inr (map (resolve_hit i) (filter (resolves i) hits))"
    using assms by (simp add: indexImpl_Search_def convert_results_filter)
  with scores sub show ?thesis
    by (simp del: map_map)
qed

theorem Search_drops_unresolvable_hits_witness:
  "HNSWIndex_Search example_env (hnswIndex example_searched) [1, 2] 5
     = Inr [\<lparr>hit_ID = 9, hit_Score = 0\<rparr>, \<lparr>hit_ID = 1, hit_Score = 0\<rparr>] \<and>
   fst (indexImpl_Search example_env example_searched ''q'' 5)
     = Inr [\<lparr>result_Document = example_doc, result_Score = 0,
             result_ChunkID = ''d_'' @ generateChunkID example_env ''C'' 0,
             result_ChunkText = ''C'', result_IndexName = ''docs''\<rparr>]"
proof -
  have a: "GenerateEmbedding example_env (index_embedder example_searched) ''q''
             = (Inr [1, 2], snd (GenerateEmbedding example_env (index_embedder example_searched) ''q''))"
    by (simp add: example_searched_def example_ingested_eq run_defs example_defs)
  have b: "HNSWIndex_Search example_env (hnswIndex example_searched) [1, 2] 5
             = Inr [\<lparr>hit_ID = 9, hit_Score = 0\<rparr>, \<lparr>hit_ID = 1, hit_Score = 0\<rparr>]"
    by (simp add: example_searched_def example_ingested_eq run_defs example_defs)
  have c: "\<not> resolves example_searched \<lparr>hit_ID = 9, hit_Score = 0\<rparr>"
    by (simp add: resolves_def example_searched_def example_ingested_eq run_defs example_defs)
  have d: "resolves example_searched \<lparr>hit_ID = 1, hit_Score = 0\<rparr>"
    by (simp add: resolves_def example_searched_def example_ingested_eq run_defs example_defs)
  have r: "resolve_hit example_searched \<lparr>hit_ID = 1, hit_Score = 0\<rparr>
             = \<lparr>result_Document = example_doc, result_Score = 0,
                result_ChunkID = ''d_'' @ generateChunkID example_env ''C'' 0,
                result_ChunkText = ''C'', result_IndexName = ''docs''\<rparr>"
    by (simp add: resolve_hit_def example_searched_def example_ingested_eq run_defs example_defs)
  show ?thesis
    using Search_drops_unresolvable_hits [OF a b] b c d r by simp
qed

section \<open>What one ingest does to the buckets\<close>

lemma chunk_step_refl: "chunk_step G b b"
  by (auto simp: chunk_step_def)

lemma chunk_step_trans: "chunk_step G b b1 \<Longrightarrow> chunk_step G b1 b2 \<Longrightarrow> chunk_step G b b2"
  by (auto simp: chunk_step_def)

lemma good_entries_mono: "D \<subseteq> D' \<Longrightarrow> good_entries e ck D \<subseteq> good_entries e ck D'"
  by (auto simp: good_entries_def)

lemma GetNextHNSWId_step:
  assumes "Storage_GetNextHNSWId s n = Inr (v, s')" and "buckets s n = Some b"
  shows "\<exists>b'. buckets s' n = Some b' \<and> chunk_step G b b' \<and> chunks_bucket b' = chunks_bucket b
              \<and> doc_chunks_bucket b' = doc_chunks_bucket b"
  using assms
  by (auto simp: Storage_GetNextHNSWId_def put_buckets_def bucket_Put_def chunk_step_def
        has_metadata_def bucket_Get_insert Let_def split: option.splits)

lemma StoreChunk_step:
  assumes "Storage_StoreChunk e s n c = Inr s'" and "buckets s n = Some b"
    and "\<And>c'. json_Chunk e c = Some c' \<Longrightarrow> (schunk_ID c, c') \<in> G"
  shows "\<exists>b'. buckets s' n = Some b' \<and> chunk_step G b b'"
proof -
  from assms(1,2) obtain c' where c': "json_Chunk e c = Some c'"
    by (auto simp: Storage_StoreChunk_def split: option.splits)
  have sub: "set (bucket_insert (schunk_ID c) c' (chunks_bucket b)) \<subseteq> set (chunks_bucket b) \<union> G"
    using set_bucket_insert [of "schunk_ID c" c' "chunks_bucket b"] assms(3) [OF c'] by auto
  show ?thesis
    using assms(1,2) sub c'
    by (auto simp: Storage_StoreChunk_def put_buckets_def bucket_Put_def chunk_step_def
          has_metadata_def Let_def split: option.splits if_splits)
qed

lemma store_chunks_name:
  "store_chunks e i docURI md embs idx chunks = (res, i') \<Longrightarrow>
   index_name i' = index_name i \<and> index_chunker i' = index_chunker i"
proof (induction chunks arbitrary: i idx)
  case Nil
  then show ?case by simp
next
  case (Cons ch chunks)
  then show ?case
    by (auto simp: Let_def split: sum.splits prod.splits option.splits)
qed

lemma json_Chunk_fields:
  assumes "json_Chunk e c = Some c'"
  shows "schunk_ID c' = json_string e (schunk_ID c) \<and>
         schunk_DocumentURI c' = json_string e (schunk_DocumentURI c) \<and>
         schunk_Text c' = json_string e (schunk_Text c) \<and>
         schunk_Position c' = schunk_Position c \<and> schunk_HNSWId c' = schunk_HNSWId c"
  using assms by (auto simp: json_Chunk_def split: option.splits if_splits)

lemma store_chunks_step:
  assumes "store_chunks e i docURI md embs idx chunks = (res, i')"
    and "buckets (index_storage i) (index_name i) = Some b"
    and "\<forall>ch\<in>set chunks. \<forall>c. schunk_ID c = json_string e (chunk_ID ch) \<and>
             schunk_DocumentURI c = json_string e docURI \<and>
             schunk_Text c = json_string e (chunk_Text ch) \<and>
             schunk_Position c = chunk_Position ch \<longrightarrow> (chunk_ID ch, c) \<in> G"
  shows "\<exists>b'. buckets (index_storage i') (index_name i) = Some b' \<and> chunk_step G b b'"
  using assms
proof (induction chunks arbitrary: i idx b)
  case Nil
  then show ?case by (auto simp: chunk_step_refl)
next
  case (Cons ch chunks)
  let ?n = "index_name i"
  show ?case
  proof (cases "Storage_GetNextHNSWId (index_storage i) ?n")
    case (Inl err)
    with Cons.prems show ?thesis by (auto simp: chunk_step_refl)
  next
    case (Inr p)
    obtain v s1 where p: "p = (v, s1)" by (cases p)
    from GetNextHNSWId_step [OF Inr [unfolded p] Cons.prems(2), of G]
    obtain b1 where b1: "buckets s1 ?n = Some b1" "chunk_step G b b1" by blast
    let ?c = "\<lparr>schunk_ID = chunk_ID ch, schunk_HNSWId = v, schunk_DocumentURI = docURI,
               schunk_Text = chunk_Text ch, schunk_Embedding = embs ! idx,
               schunk_Position = chunk_Position ch, schunk_Metadata = md\<rparr>"
    have good: "\<And>c'. json_Chunk e ?c = Some c' \<Longrightarrow> (schunk_ID ?c, c') \<in> G"
    proof -
      fix c' assume "json_Chunk e ?c = Some c'"
      from json_Chunk_fields [OF this] Cons.prems(3) show "(schunk_ID ?c, c') \<in> G" by simp
    qed
    show ?thesis
    proof (cases "Storage_StoreChunk e s1 ?n ?c")
      case (Inl err)
      with Cons.prems(1) Inr p b1 show ?thesis by auto
    next
      case (Inr s2)
      from StoreChunk_step [OF Inr b1(1) good]
      obtain b2 where b2: "buckets s2 ?n = Some b2" "chunk_step G b1 b2" by blast
      have bb2: "chunk_step G b b2" by (rule chunk_step_trans [OF b1(2) b2(2)])
      show ?thesis
      proof (cases "HNSWIndex_Add (hnswIndex i) (embs ! idx) v")
        case (Pair r h)
        show ?thesis
        proof (cases r)
          case (Some err)
          with Cons.prems(1) \<open>Storage_GetNextHNSWId (index_storage i) ?n = Inr p\<close> p Inr Pair b2 bb2
          show ?thesis by auto
        next
          case None
          let ?i2 = "i\<lparr>index_storage := s2, hnswIndex := h\<rparr>"
          from Cons.prems(1) \<open>Storage_GetNextHNSWId (index_storage i) ?n = Inr p\<close> p Inr Pair None
          have rec: "store_chunks e ?i2 docURI md embs (idx + 1) chunks = (res, i')" by simp
          have "buckets (index_storage ?i2) (index_name ?i2) = Some b2" using b2 by simp
          from Cons.IH [OF rec this] Cons.prems(3)
          obtain b' where "buckets (index_storage i') (index_name ?i2) = Some b'" "chunk_step G b2 b'"
            by auto
          with bb2 show ?thesis by (auto intro: chunk_step_trans)
        qed
      qed
    qed
  qed
qed

lemma chunk_loop_ids:
  assumes "chunk_loop e csize stride tokens i position chunks = Some result"
  shows "(\<forall>c\<in>set chunks. own_id e c) \<longrightarrow> (\<forall>c\<in>set result. own_id e c)"
proof (rule chunk_loop.raw_induct
    [where P = "\<lambda>e csize stride tokens i position chunks result.
                  (\<forall>c\<in>set chunks. own_id e c) \<longrightarrow> (\<forall>c\<in>set result. own_id e c)",
     OF _ assms], goal_cases)
  case (1 loop e csize stride tokens i position chunks result)
  define end' where
    "end' = (if int (length tokens) < i + csize then int (length tokens) else i + csize)"
  define c where
    "c = \<lparr>chunk_ID = generateChunkID e (Decode e (take (nat (end' - i)) (drop (nat i) tokens))) position,
          chunk_DocumentURI = [],
          chunk_Text = Decode e (take (nat (end' - i)) (drop (nat i) tokens)),
          chunk_Position = position, chunk_Metadata = None\<rparr>"
  have own: "own_id e c" by (simp add: c_def own_id_def)
  have body:
    "(if i < int (length tokens)
      then if i < 0 \<or> end' < i then None
           else if end' = int (length tokens) then Some (chunks @ [c])
                else loop e csize stride tokens (i + stride) (position + 1) (chunks @ [c])
      else Some chunks) = Some result"
    using 1(2) unfolding end'_def c_def Let_def .
  show ?case
  proof
    assume acc: "\<forall>c\<in>set chunks. own_id e c"
    show "\<forall>c\<in>set result. own_id e c"
    proof (cases "i < int (length tokens)")
      case False
      with body have "result = chunks" by simp
      with acc show ?thesis by simp
    next
      case lt: True
      show ?thesis
      proof (cases "i < 0 \<or> end' < i")
        case True
        with lt body show ?thesis by simp
      next
        case ok: False
        show ?thesis
        proof (cases "end' = int (length tokens)")
          case True
          with lt ok body have "result = chunks @ [c]" by simp
          with acc own show ?thesis by auto
        next
          case False
          with lt ok body
          have "loop e csize stride tokens (i + stride) (position + 1) (chunks @ [c]) = Some result"
            by simp
          from 1(1) [OF this] acc own show ?thesis by auto
        qed
      qed
    qed
  qed
qed

lemma Chunker_Chunk_ids:
  "Chunker_Chunk e c text = Some chunks \<Longrightarrow> \<forall>ch\<in>set chunks. own_id e ch"
  using chunk_loop_ids [of e "chunkSize c" "chunkSize c - overlapSize c" "Encode e text" 0 0 "[]" chunks]
  by (auto simp: Chunker_Chunk_def Let_def own_id_def split: if_splits)

lemma Chunker_ChunkDocument_entries:
  assumes "Chunker_ChunkDocument e ck (doc_URI d) (doc_Content d) = Some chunks"
  shows "\<forall>ch\<in>set chunks. \<forall>c. schunk_ID c = json_string e (chunk_ID ch) \<and>
             schunk_DocumentURI c = json_string e (doc_URI d) \<and>
             schunk_Text c = json_string e (chunk_Text ch) \<and>
             schunk_Position c = chunk_Position ch \<longrightarrow> (chunk_ID ch, c) \<in> good_entries e ck {d}"
proof -
  from assms obtain chunks0 where c0: "Chunker_Chunk e ck (doc_Content d) = Some chunks0"
    and ch: "chunks = map (\<lambda>ch. ch\<lparr>chunk_DocumentURI := doc_URI d,
                                    chunk_ID := doc_URI d @ ''_'' @ chunk_ID ch\<rparr>) chunks0"
    by (auto simp: Chunker_ChunkDocument_def split: option.splits)
  show ?thesis
    unfolding ch good_entries_def stored_as_def using c0 by auto
qed

lemma processChunks_step:
  assumes "processChunks e i uri chunks md = (res, i')"
    and "buckets (index_storage i) (index_name i) = Some b"
    and "\<forall>ch\<in>set chunks. \<forall>c. schunk_ID c = json_string e (chunk_ID ch) \<and>
             schunk_DocumentURI c = json_string e uri \<and>
             schunk_Text c = json_string e (chunk_Text ch) \<and>
             schunk_Position c = chunk_Position ch \<longrightarrow> (chunk_ID ch, c) \<in> G"
  shows "index_name i' = index_name i \<and> index_chunker i' = index_chunker i \<and>
         (\<exists>b'. buckets (index_storage i') (index_name i) = Some b' \<and> chunk_step G b b')"
proof (cases "GenerateEmbeddings e (index_embedder i) (map chunk_Text chunks)")
  case (Pair r em)
  show ?thesis
  proof (cases r)
    case (Inl err)
    with Pair assms(1,2) show ?thesis
      by (auto simp: processChunks_def chunk_step_refl)
  next
    case (Inr embs)
    let ?i = "i\<lparr>index_embedder := em\<rparr>"
    from Pair Inr assms(1) have run: "store_chunks e ?i uri md embs 0 chunks = (res, i')"
      by (simp add: processChunks_def)
    have b: "buckets (index_storage ?i) (index_name ?i) = Some b" using assms(2) by simp
    from store_chunks_name [OF run] store_chunks_step [OF run b assms(3)]
    show ?thesis by simp
  qed
qed

lemma DeleteChunksByDocument_step:
  assumes "buckets s n = Some b"
  shows "\<exists>b'. buckets (Storage_DeleteChunksByDocument s n u) n = Some b' \<and> chunk_step G b b'"
  using assms set_fold_bucket_Delete [of _ "chunks_bucket b"]
  by (auto simp: Storage_DeleteChunksByDocument_def put_buckets_def chunk_step_def has_metadata_def
        split: option.splits)

lemma StoreDocument_cases:
  assumes "buckets s n = Some b"
  shows "(valid_key (sdoc_URI d) \<and> metadata_encodable (sdoc_Metadata d) \<and>
          (\<exists>data. Storage_StoreDocument e s n d =
            Inr (put_buckets s n
                   (b\<lparr>documents_bucket := bucket_insert (sdoc_URI d) data (documents_bucket b),
                      hashes_bucket := (if sdoc_Hash d \<noteq> []
                                        then bucket_insert (sdoc_URI d) (sdoc_Hash d) (hashes_bucket b)
                                        else hashes_bucket b)\<rparr>)))) \<or>
         (\<not> (valid_key (sdoc_URI d) \<and> metadata_encodable (sdoc_Metadata d)) \<and>
          (\<exists>err. Storage_StoreDocument e s n d = Inl err))"
  using assms
  by (auto simp: Storage_StoreDocument_def json_Document_def bucket_Put_def valid_key_def)

lemma processDocument_step:
  assumes "processDocument e i doc = Some (res, i')"
    and "buckets (index_storage i) (index_name i) = Some b"
  shows "index_name i' = index_name i \<and> index_chunker i' = index_chunker i \<and>
         (\<exists>b'. buckets (index_storage i') (index_name i) = Some b' \<and>
               set (chunks_bucket b') \<subseteq> set (chunks_bucket b) \<union> good_entries e (index_chunker i) {doc} \<and>
               (has_metadata b \<longrightarrow> has_metadata b') \<and>
               (if accepted doc
                then hashes_bucket b' =
                       bucket_insert (doc_URI doc) (computeDocumentHash e doc) (hashes_bucket b)
                else i' = i \<and> (\<exists>err. res = Some (Wrapped ''failed to store document'' err))))"
proof -
  let ?n = "index_name i"
  let ?G = "good_entries e (index_chunker i) {doc}"
  let ?sd = "\<lparr>sdoc_URI = doc_URI doc, sdoc_Title = doc_Title doc, sdoc_Content = doc_Content doc,
              sdoc_Hash = computeDocumentHash e doc, sdoc_Metadata = doc_Metadata doc\<rparr>"
  from StoreDocument_cases [OF assms(2), of ?sd e]
  show ?thesis
  proof (elim disjE conjE exE)
    fix err
    assume "\<not> (valid_key (sdoc_URI ?sd) \<and> metadata_encodable (sdoc_Metadata ?sd))"
      "Storage_StoreDocument e (index_storage i) ?n ?sd = Inl err"
    with assms show ?thesis
      by (auto simp: processDocument_def Let_def accepted_def)
  next
    fix data
    let ?b1 = "b\<lparr>documents_bucket := bucket_insert (sdoc_URI ?sd) data (documents_bucket b),
                  hashes_bucket := (if sdoc_Hash ?sd \<noteq> []
                                    then bucket_insert (sdoc_URI ?sd) (sdoc_Hash ?sd) (hashes_bucket b)
                                    else hashes_bucket b)\<rparr>"
    let ?s1 = "put_buckets (index_storage i) ?n ?b1"
    assume v: "valid_key (sdoc_URI ?sd)" "metadata_encodable (sdoc_Metadata ?sd)"
      and st: "Storage_StoreDocument e (index_storage i) ?n ?sd = Inr ?s1"
    have b1: "buckets ?s1 ?n = Some ?b1" by (simp add: put_buckets_def)
    let ?s2 = "Storage_DeleteChunksByDocument ?s1 ?n (doc_URI doc)"
    from DeleteChunksByDocument_step [OF b1, of "doc_URI doc" ?G]
    obtain b2 where b2: "buckets ?s2 ?n = Some b2" "chunk_step ?G ?b1 b2" by blast
    from assms(1) st obtain chunks where
      ch: "Chunker_ChunkDocument e (index_chunker i) (doc_URI doc) (doc_Content doc) = Some chunks"
      by (auto simp: processDocument_def Let_def split: option.splits)
    obtain r3 i3 where
      pc: "processChunks e (i\<lparr>index_storage := ?s2\<rparr>) (doc_URI doc) chunks (doc_Metadata doc) = (r3, i3)"
      by (cases "processChunks e (i\<lparr>index_storage := ?s2\<rparr>) (doc_URI doc) chunks (doc_Metadata doc)")
    from assms(1) st ch pc have i': "i' = i3"
      by (auto simp: processDocument_def Let_def split: option.splits)
    have b2': "buckets (index_storage (i\<lparr>index_storage := ?s2\<rparr>)) (index_name (i\<lparr>index_storage := ?s2\<rparr>)) = Some b2"
      using b2 by simp
    from processChunks_step [OF pc b2' Chunker_ChunkDocument_entries [OF ch]]
    obtain b3 where b3: "index_name i3 = ?n" "index_chunker i3 = index_chunker i"
      "buckets (index_storage i3) ?n = Some b3" "chunk_step ?G b2 b3"
      by auto
    have "chunk_step ?G ?b1 b3" by (rule chunk_step_trans [OF b2(2) b3(4)])
    with v b3 i' show ?thesis
      by (auto simp: chunk_step_def has_metadata_def computeDocumentHash_nonempty accepted_def)
  qed
qed

lemma process_documents_step:
  assumes "process_documents e docs r i = Some (r', i')"
    and "buckets (index_storage i) (index_name i) = Some b"
  shows "index_name i' = index_name i \<and> index_chunker i' = index_chunker i \<and>
         TotalDocuments r' = TotalDocuments r \<and> NewDocuments r' = NewDocuments r \<and>
         UpdatedDocuments r' = UpdatedDocuments r \<and> UnchangedDocuments r' = UnchangedDocuments r \<and>
         (\<exists>b'. buckets (index_storage i') (index_name i) = Some b' \<and>
               set (chunks_bucket b') \<subseteq> set (chunks_bucket b) \<union> good_entries e (index_chunker i) (set docs) \<and>
               (has_metadata b \<longrightarrow> has_metadata b'))"
  using assms
proof (induction docs arbitrary: r i b)
  case Nil
  then show ?case by auto
next
  case (Cons doc docs)
  from Cons.prems(1) obtain res i1 where pd: "processDocument e i doc = Some (res, i1)"
    by (auto split: option.splits)
  have g1: "good_entries e (index_chunker i) {doc} \<subseteq> good_entries e (index_chunker i) (set (doc # docs))"
    by (rule good_entries_mono) simp
  have g2: "good_entries e (index_chunker i) (set docs) \<subseteq> good_entries e (index_chunker i) (set (doc # docs))"
    by (rule good_entries_mono) auto
  from processDocument_step [OF pd Cons.prems(2)] g1
  obtain b1 where b1: "index_name i1 = index_name i" "index_chunker i1 = index_chunker i"
    "buckets (index_storage i1) (index_name i) = Some b1"
    "set (chunks_bucket b1) \<subseteq> set (chunks_bucket b) \<union> good_entries e (index_chunker i) (set (doc # docs))"
    "has_metadata b \<longrightarrow> has_metadata b1"
    by blast
  have b1': "buckets (index_storage i1) (index_name i1) = Some b1" using b1 by simp
  show ?case
  proof (cases res)
    case None
    let ?r = "r\<lparr>ProcessedChunks := ProcessedChunks r +
                int (length (Storage_GetChunksByDocument (index_storage i1) (index_name i1) (doc_URI doc)))\<rparr>"
    from Cons.prems(1) pd None have "process_documents e docs ?r i1 = Some (r', i')" by simp
    from Cons.IH [OF this b1'] b1 g2 show ?thesis by auto
  next
    case (Some err)
    let ?r = "r\<lparr>FailedURIs := bucket_insert (doc_URI doc) err (FailedURIs r)\<rparr>"
    from Cons.prems(1) pd Some have "process_documents e docs ?r i1 = Some (r', i')" by simp
    from Cons.IH [OF this b1'] b1 g2 show ?thesis by auto
  qed
qed

lemma analyze_counts:
  "analyze e i docs r tp = Some (r', tp') \<Longrightarrow>
   NewDocuments r' + UpdatedDocuments r' + int (length tp)
     = NewDocuments r + UpdatedDocuments r + int (length tp') \<and>
   length tp \<le> length tp' \<and>
   FailedURIs r' = FailedURIs r \<and> ProcessedChunks r' = ProcessedChunks r \<and>
   TotalDocuments r' = TotalDocuments r"
proof (induction docs arbitrary: r tp)
  case Nil
  then show ?case by simp
next
  case (Cons doc docs)
  show ?case
  proof (cases "Storage_GetDocumentHash (index_storage i) (index_name i) (doc_URI doc)")
    case (Inl err)
    with Cons.prems
    have "analyze e i docs (r\<lparr>NewDocuments := NewDocuments r + 1\<rparr>) (tp @ [doc]) = Some (r', tp')"
      by (simp add: Let_def)
    from Cons.IH [OF this] show ?thesis by simp
  next
    case (Inr h)
    show ?thesis
    proof (cases "h = computeDocumentHash e doc")
      case True
      with Cons.prems Inr
      have "analyze e i docs (r\<lparr>UnchangedDocuments := UnchangedDocuments r + 1\<rparr>) tp = Some (r', tp')"
        by (simp add: Let_def)
      from Cons.IH [OF this] show ?thesis by simp
    next
      case False
      with Cons.prems Inr
      have "analyze e i docs (r\<lparr>UpdatedDocuments := UpdatedDocuments r + 1\<rparr>) (tp @ [doc]) = Some (r', tp')"
        by (simp add: Let_def split: if_splits)
      from Cons.IH [OF this] show ?thesis by simp
    qed
  qed
qed

lemma analyze_subset:
  "analyze e i docs r tp = Some (r', tp') \<Longrightarrow> set tp' \<subseteq> set tp \<union> set docs"
proof (induction docs arbitrary: r tp)
  case Nil
  then show ?case by simp
next
  case (Cons doc docs)
  from Cons.prems obtain r1 tp1 where "analyze e i docs r1 tp1 = Some (r', tp')" "set tp1 \<subseteq> set tp \<union> {doc}"
    by (auto simp: Let_def split: sum.splits if_splits)
  with Cons.IH [of r1 tp1] show ?case by auto
qed

lemma AddDocumentBatch_cases:
  assumes "AddDocumentBatch e i docs = Some ((r, err), i')"
  shows "(analyze e i docs \<lparr>TotalDocuments = int (length docs), NewDocuments = 0, UpdatedDocuments = 0,
                            UnchangedDocuments = 0, ProcessedChunks = 0, FailedURIs = []\<rparr> []
            = Some (r, []) \<and> err = None \<and> i' = i) \<or>
         (\<exists>r1 tp i2.
            analyze e i docs \<lparr>TotalDocuments = int (length docs), NewDocuments = 0, UpdatedDocuments = 0,
                             UnchangedDocuments = 0, ProcessedChunks = 0, FailedURIs = []\<rparr> []
              = Some (r1, tp) \<and> tp \<noteq> [] \<and>
            process_documents e tp r1 i = Some (r, i2) \<and> index_name i' = index_name i2 \<and>
            ((err \<noteq> None \<and> index_storage i' = index_storage i2) \<or>
             (err = None \<and>
              (case Storage_GetIndexMetadata (index_storage i2) (index_name i2) of
                 Inl x \<Rightarrow> index_storage i' = index_storage i2
               | Inr m \<Rightarrow>
                   Storage_SetIndexMetadata (index_storage i2) (index_name i2) (count_metadata e r m)
                     = Inr (index_storage i')))))"
proof -
  let ?r0 = "\<lparr>TotalDocuments = int (length docs), NewDocuments = 0, UpdatedDocuments = 0,
              UnchangedDocuments = 0, ProcessedChunks = 0, FailedURIs = []\<rparr>"
  from assms obtain r1 tp where an: "analyze e i docs ?r0 [] = Some (r1, tp)"
    by (auto simp: AddDocumentBatch_def Let_def split: option.splits)
  show ?thesis
  proof (cases "tp = []")
    case True
    with assms an show ?thesis by (simp add: AddDocumentBatch_def Let_def)
  next
    case False
    with assms an obtain r2 i2 where pd: "process_documents e tp r1 i = Some (r2, i2)"
      by (auto simp: AddDocumentBatch_def Let_def split: option.splits)
    obtain sv h where sv: "(if AutoSave i2 then HNSWIndex_Save e (hnswIndex i2) else (None, hnswIndex i2)) = (sv, h)"
      by (cases "if AutoSave i2 then HNSWIndex_Save e (hnswIndex i2) else (None, hnswIndex i2)")
    from assms an False pd sv
    have fin:
      "(case sv of
          Some err' \<Rightarrow> Some ((r2, Some (Wrapped ''failed to save HNSW index'' err')), i2\<lparr>hnswIndex := h\<rparr>)
        | None \<Rightarrow>
            (case Storage_GetIndexMetadata (index_storage i2) (index_name i2) of
               Inl x \<Rightarrow> Some ((r2, None), i2\<lparr>hnswIndex := h\<rparr>)
             | Inr m \<Rightarrow>
                 (case Storage_SetIndexMetadata (index_storage i2) (index_name i2) (count_metadata e r2 m) of
                    Inl x \<Rightarrow> Some ((r2, None), i2\<lparr>hnswIndex := h\<rparr>)
                  | Inr s \<Rightarrow> Some ((r2, None), i2\<lparr>hnswIndex := h, index_storage := s\<rparr>))))
       = Some ((r, err), i')"
      by (auto simp: AddDocumentBatch_def Let_def count_metadata_def split: option.splits sum.splits)
    have set_ok: "\<And>m. Storage_GetIndexMetadata (index_storage i2) (index_name i2) = Inr m \<Longrightarrow>
        \<exists>s. Storage_SetIndexMetadata (index_storage i2) (index_name i2) (count_metadata e r2 m) = Inr s"
      by (auto simp: Storage_GetIndexMetadata_def Storage_SetIndexMetadata_def bucket_Put_def
            split: option.splits)
    show ?thesis
    proof (cases sv)
      case (Some err')
      with fin an False pd show ?thesis by auto
    next
      case None
      show ?thesis
      proof (cases "Storage_GetIndexMetadata (index_storage i2) (index_name i2)")
        case (Inl x)
        with fin None an False pd show ?thesis by auto
      next
        case (Inr m)
        from set_ok [OF Inr] obtain s where
          s: "Storage_SetIndexMetadata (index_storage i2) (index_name i2) (count_metadata e r2 m) = Inr s"
          by blast
        with fin None Inr an False pd show ?thesis by auto
      qed
    qed
  qed
qed

lemma SetIndexMetadata_buckets:
  assumes "Storage_SetIndexMetadata s n m = Inr s'"
  shows "\<exists>b. buckets s n = Some b \<and>
             buckets s' n = Some (b\<lparr>metadata_bucket := bucket_insert ''metadata'' m (metadata_bucket b)\<rparr>)"
  using assms
  by (auto simp: Storage_SetIndexMetadata_def bucket_Put_def put_buckets_def split: option.splits)

section \<open>Chunk identifiers\<close>

lemma replacing_env_sel:
  "sha256 replacing_env = (\<lambda>s. of_nat (length s))"
  "encoder_available replacing_env = True"
  "Encode replacing_env = map (\<lambda>c. int (of_char c))"
  "Decode replacing_env = map (\<lambda>t. char_of (nat t))"
  "service replacing_env = (\<lambda>n m t. Embeddings [[1, 2]])"
  "file_Create_ok replacing_env = True"
  "graph_Export_ok replacing_env = True"
  "Now replacing_env = ''2024-01-01T00:00:00Z''"
  "json_string replacing_env = (\<lambda>s. if s = [CHR 0xFF] then [CHR 0xEF, CHR 0xBF, CHR 0xBD] else s)"
  "json_floats replacing_env = Some"
  "json_map replacing_env = (\<lambda>m. m)"
  by (simp_all add: replacing_env_def example_env_def)

lemma hash_not_single: "computeDocumentHash e d \<noteq> [c]"
proof
  assume "computeDocumentHash e d = [c]"
  then have "length (computeDocumentHash e d) = length [c]" by (rule arg_cong)
  then show False by (simp add: computeDocumentHash_length)
qed

text \<open>
  The ingest of a document whose content is the byte \<open>0xFF\<close>, where JSON reads that byte
  back as U+FFFD: the chunk is stored under the identifier computed from the byte, and
  the stored text is the three bytes of U+FFFD.
\<close>

lemma example_replaced_chunks:
  "AddDocumentBatch replacing_env example_index [example_doc_bytes] =
     Some ((\<lparr>TotalDocuments = 1, NewDocuments = 1, UpdatedDocuments = 0, UnchangedDocuments = 0,
             ProcessedChunks = 1, FailedURIs = []\<rparr>, None), example_replaced) \<and>
   index_name example_replaced = ''docs'' \<and>
   chunks_bucket (the (buckets (index_storage example_replaced) ''docs''))
     = [(''u_'' @ generateChunkID replacing_env [CHR 0xFF] 0,
         \<lparr>schunk_ID = ''u_'' @ generateChunkID replacing_env [CHR 0xFF] 0, schunk_HNSWId = 1,
          schunk_DocumentURI = ''u'', schunk_Text = [CHR 0xEF, CHR 0xBF, CHR 0xBD],
          schunk_Embedding = [1, 2], schunk_Position = 0, schunk_Metadata = None\<rparr>)]"
  by (simp add: example_replaced_def example_doc_bytes_def run_defs example_index_def
        example_chunker_def DefaultConfig_def replacing_env_sel hash_not_single)

text \<open>
  C5, as the code has it.  Every chunk entry that a batch ingest adds to (or changes
  in) the chunk bucket comes from a document \<open>d\<close> of the batch and a chunk \<open>ch\<close> that the
  chunker emits for the content of \<open>d\<close>.  Its key is the URI of \<open>d\<close>, an underscore, and
  the first 16 hexadecimal characters of SHA-256 of the text of \<open>ch\<close>, an underscore and
  the decimal position.  The record stored under the key holds that position and what
  JSON gives back for the key (as its identifier), for the URI and for the text of
  \<open>ch\<close>: where the key, the URI and the text are valid UTF-8, which JSON gives back
  unchanged, the stored identifier is the stored URI, an underscore and the 16
  characters computed from the stored text and position.
\<close>

theorem ingest_chunk_identifiers:
  assumes "AddDocumentBatch e i docs = Some (out, i')"
    and "buckets (index_storage i) (index_name i) = Some b"
    and "buckets (index_storage i') (index_name i') = Some b'"
    and "(k, c) \<in> set (chunks_bucket b')"
    and "(k, c) \<notin> set (chunks_bucket b)"
  shows "\<exists>d\<in>set docs. \<exists>chunks.
           Chunker_Chunk e (index_chunker i) (doc_Content d) = Some chunks \<and>
           (\<exists>ch\<in>set chunks.
              k = doc_URI d @ ''_'' @
                    take 16 (EncodeToString (Sum_bytes (sha256 e
                      (chunk_Text ch @ ''_'' @ decimal (chunk_Position ch))))) \<and>
              schunk_ID c = json_string e k \<and>
              schunk_DocumentURI c = json_string e (doc_URI d) \<and>
              schunk_Text c = json_string e (chunk_Text ch) \<and>
              schunk_Position c = chunk_Position ch \<and>
              (json_string e k = k \<and> json_string e (doc_URI d) = doc_URI d \<and>
               json_string e (chunk_Text ch) = chunk_Text ch \<longrightarrow>
               schunk_ID c =
                 schunk_DocumentURI c @ ''_'' @
                   take 16 (EncodeToString (Sum_bytes (sha256 e
                     (schunk_Text c @ ''_'' @ decimal (schunk_Position c)))))))"
proof -
  obtain r err where out: "out = (r, err)" by (cases out)
  let ?G = "good_entries e (index_chunker i) (set docs)"
  have sub: "set (chunks_bucket b') \<subseteq> set (chunks_bucket b) \<union> ?G"
    using AddDocumentBatch_cases [OF assms(1) [unfolded out]]
  proof (elim disjE conjE exE)
    assume "i' = i"
    with assms(2,3) show ?thesis by auto
  next
    fix r1 tp i2
    assume an: "analyze e i docs \<lparr>TotalDocuments = int (length docs), NewDocuments = 0,
                    UpdatedDocuments = 0, UnchangedDocuments = 0, ProcessedChunks = 0,
                    FailedURIs = []\<rparr> [] = Some (r1, tp)"
      and pd: "process_documents e tp r1 i = Some (r, i2)"
      and n: "index_name i' = index_name i2"
      and "err \<noteq> None" "index_storage i' = index_storage i2"
    from analyze_subset [OF an] have "set tp \<subseteq> set docs" by simp
    from good_entries_mono [OF this, of e "index_chunker i"] process_documents_step [OF pd assms(2)]
      assms(3) n \<open>index_storage i' = index_storage i2\<close>
    show ?thesis by auto
  next
    fix r1 tp i2
    assume an: "analyze e i docs \<lparr>TotalDocuments = int (length docs), NewDocuments = 0,
                    UpdatedDocuments = 0, UnchangedDocuments = 0, ProcessedChunks = 0,
                    FailedURIs = []\<rparr> [] = Some (r1, tp)"
      and pd: "process_documents e tp r1 i = Some (r, i2)"
      and n: "index_name i' = index_name i2"
      and fin: "case Storage_GetIndexMetadata (index_storage i2) (index_name i2) of
                  Inl x \<Rightarrow> index_storage i' = index_storage i2
                | Inr m \<Rightarrow> Storage_SetIndexMetadata (index_storage i2) (index_name i2) (count_metadata e r m)
                            = Inr (index_storage i')"
    from analyze_subset [OF an] have "set tp \<subseteq> set docs" by simp
    from good_entries_mono [OF this, of e "index_chunker i"] process_documents_step [OF pd assms(2)]
    obtain b2 where b2: "index_name i2 = index_name i" "buckets (index_storage i2) (index_name i) = Some b2"
      "set (chunks_bucket b2) \<subseteq> set (chunks_bucket b) \<union> ?G"
      by blast
    show ?thesis
    proof (cases "Storage_GetIndexMetadata (index_storage i2) (index_name i2)")
      case (Inl x)
      with fin b2 n assms(3) show ?thesis by auto
    next
      case (Inr m)
      with fin have "Storage_SetIndexMetadata (index_storage i2) (index_name i2) (count_metadata e r m)
                       = Inr (index_storage i')" by simp
      from SetIndexMetadata_buckets [OF this] b2 n assms(3)
      have "chunks_bucket b' = chunks_bucket b2" by auto
      with b2 show ?thesis by simp
    qed
  qed
  with assms(4,5) have "(k, c) \<in> ?G" by auto
  then obtain d chunks ch where d: "d \<in> set docs"
    and c0: "Chunker_Chunk e (index_chunker i) (doc_Content d) = Some chunks"
    and ch: "ch \<in> set chunks" and st: "stored_as e (doc_URI d) ch (k, c)"
    by (auto simp: good_entries_def)
  from Chunker_Chunk_ids [OF c0] ch
  have own: "chunk_ID ch = generateChunkID e (chunk_Text ch) (chunk_Position ch)"
    by (simp add: own_id_def)
  have f: "k = doc_URI d @ ''_'' @
              take 16 (EncodeToString (Sum_bytes (sha256 e
                (chunk_Text ch @ ''_'' @ decimal (chunk_Position ch)))))"
    "schunk_ID c = json_string e k"
    "schunk_DocumentURI c = json_string e (doc_URI d)"
    "schunk_Text c = json_string e (chunk_Text ch)"
    "schunk_Position c = chunk_Position ch"
    using st own by (simp_all add: stored_as_def generateChunkID_def)
  have "json_string e k = k \<and> json_string e (doc_URI d) = doc_URI d \<and>
        json_string e (chunk_Text ch) = chunk_Text ch \<longrightarrow>
        schunk_ID c =
          schunk_DocumentURI c @ ''_'' @
            take 16 (EncodeToString (Sum_bytes (sha256 e
              (schunk_Text c @ ''_'' @ decimal (schunk_Position c)))))"
    using f by auto
  with f d c0 ch show ?thesis by blast
qed

theorem ingest_chunk_identifiers_witness:
  "chunks_bucket (the (buckets (index_storage example_index) ''docs'')) = [] \<and>
   chunks_bucket (the (buckets (index_storage example_ingested) ''docs''))
     = [(''d_'' @ generateChunkID example_env ''C'' 0, example_chunk)] \<and>
   (\<exists>d\<in>set [example_doc]. \<exists>chunks.
      Chunker_Chunk example_env (index_chunker example_index) (doc_Content d) = Some chunks \<and>
      (\<exists>ch\<in>set chunks.
         ''d_'' @ generateChunkID example_env ''C'' 0 =
           doc_URI d @ ''_'' @
             take 16 (EncodeToString (Sum_bytes (sha256 example_env
               (chunk_Text ch @ ''_'' @ decimal (chunk_Position ch))))) \<and>
         schunk_ID example_chunk = json_string example_env (''d_'' @ generateChunkID example_env ''C'' 0) \<and>
         schunk_DocumentURI example_chunk = json_string example_env (doc_URI d) \<and>
         schunk_Text example_chunk = json_string example_env (chunk_Text ch) \<and>
         schunk_Position example_chunk = chunk_Position ch \<and>
         (json_string example_env (''d_'' @ generateChunkID example_env ''C'' 0)
            = ''d_'' @ generateChunkID example_env ''C'' 0 \<and>
          json_string example_env (doc_URI d) = doc_URI d \<and>
          json_string example_env (chunk_Text ch) = chunk_Text ch \<longrightarrow>
          schunk_ID example_chunk =
            schunk_DocumentURI example_chunk @ ''_'' @
              take 16 (EncodeToString (Sum_bytes (sha256 example_env
                (schunk_Text example_chunk @ ''_'' @ decimal (schunk_Position example_chunk)))))))) \<and>
   schunk_ID example_chunk =
     schunk_DocumentURI example_chunk @ ''_'' @
       take 16 (EncodeToString (Sum_bytes (sha256 example_env
         (schunk_Text example_chunk @ ''_'' @ decimal (schunk_Position example_chunk))))) \<and>
   Chunker_Chunk replacing_env (index_chunker example_index) (doc_Content example_doc_bytes)
     = Some [\<lparr>chunk_ID = generateChunkID replacing_env [CHR 0xFF] 0, chunk_DocumentURI = [],
              chunk_Text = [CHR 0xFF], chunk_Position = 0, chunk_Metadata = None\<rparr>] \<and>
   chunks_bucket (the (buckets (index_storage example_replaced) ''docs''))
     = [(''u_'' @ generateChunkID replacing_env [CHR 0xFF] 0, example_chunk_bytes)] \<and>
   schunk_Text example_chunk_bytes = [CHR 0xEF, CHR 0xBF, CHR 0xBD] \<and>
   (\<exists>d\<in>set [example_doc_bytes]. \<exists>chunks.
      Chunker_Chunk replacing_env (index_chunker example_index) (doc_Content d) = Some chunks \<and>
      (\<exists>ch\<in>set chunks.
         ''u_'' @ generateChunkID replacing_env [CHR 0xFF] 0 =
           doc_URI d @ ''_'' @
             take 16 (EncodeToString (Sum_bytes (sha256 replacing_env
               (chunk_Text ch @ ''_'' @ decimal (chunk_Position ch))))) \<and>
         schunk_ID example_chunk_bytes
           = json_string replacing_env (''u_'' @ generateChunkID replacing_env [CHR 0xFF] 0) \<and>
         schunk_DocumentURI example_chunk_bytes = json_string replacing_env (doc_URI d) \<and>
         schunk_Text example_chunk_bytes = json_string replacing_env (chunk_Text ch) \<and>
         schunk_Position example_chunk_bytes = chunk_Position ch \<and>
         (json_string replacing_env (''u_'' @ generateChunkID replacing_env [CHR 0xFF] 0)
            = ''u_'' @ generateChunkID replacing_env [CHR 0xFF] 0 \<and>
          json_string replacing_env (doc_URI d) = doc_URI d \<and>
          json_string replacing_env (chunk_Text ch) = chunk_Text ch \<longrightarrow>
          schunk_ID example_chunk_bytes =
            schunk_DocumentURI example_chunk_bytes @ ''_'' @
              take 16 (EncodeToString (Sum_bytes (sha256 replacing_env
                (schunk_Text example_chunk_bytes @ ''_'' @
                   decimal (schunk_Position example_chunk_bytes))))))))"
proof -
  let ?b = "the (buckets (index_storage example_index) ''docs'')"
  let ?b' = "the (buckets (index_storage example_ingested) ''docs'')"
  let ?b2 = "the (buckets (index_storage example_replaced) ''docs'')"
  have a: "AddDocumentBatch example_env example_index [example_doc]
             = Some (fst (the (AddDocumentBatch example_env example_index [example_doc])), example_ingested)"
    by (simp add: example_ingested_def example_ingest)
  have b: "buckets (index_storage example_index) (index_name example_index) = Some ?b"
    by (simp add: example_defs storage_defs)
  have b': "buckets (index_storage example_ingested) (index_name example_ingested) = Some ?b'"
    by (simp add: example_ingested_eq example_defs)
  have old: "chunks_bucket ?b = []"
    by (simp add: example_defs storage_defs)
  have new: "chunks_bucket ?b' = [(''d_'' @ generateChunkID example_env ''C'' 0, example_chunk)]"
    by (simp add: example_ingested_eq example_chunk_def)
  have inn: "(''d_'' @ generateChunkID example_env ''C'' 0, example_chunk) \<in> set (chunks_bucket ?b')"
    by (simp add: new)
  have out: "(''d_'' @ generateChunkID example_env ''C'' 0, example_chunk) \<notin> set (chunks_bucket ?b)"
    by (simp add: old)
  have a2: "AddDocumentBatch replacing_env example_index [example_doc_bytes]
              = Some (fst (the (AddDocumentBatch replacing_env example_index [example_doc_bytes])),
                      example_replaced)"
    using example_replaced_chunks by simp
  have b2: "buckets (index_storage example_replaced) (index_name example_replaced) = Some ?b2"
    using example_replaced_chunks
    by (simp add: example_replaced_def example_doc_bytes_def run_defs example_index_def
          example_chunker_def DefaultConfig_def replacing_env_sel hash_not_single)
  have new2: "chunks_bucket ?b2 = [(''u_'' @ generateChunkID replacing_env [CHR 0xFF] 0, example_chunk_bytes)]"
    using example_replaced_chunks by (simp add: example_chunk_bytes_def)
  have inn2: "(''u_'' @ generateChunkID replacing_env [CHR 0xFF] 0, example_chunk_bytes) \<in> set (chunks_bucket ?b2)"
    by (simp add: new2)
  have out2: "(''u_'' @ generateChunkID replacing_env [CHR 0xFF] 0, example_chunk_bytes) \<notin> set (chunks_bucket ?b)"
    by (simp add: old)
  have t: "schunk_Text example_chunk_bytes = [CHR 0xEF, CHR 0xBF, CHR 0xBD]"
    by (simp add: example_chunk_bytes_def)
  have c: "Chunker_Chunk replacing_env (index_chunker example_index) (doc_Content example_doc_bytes)
     = Some [\<lparr>chunk_ID = generateChunkID replacing_env [CHR 0xFF] 0, chunk_DocumentURI = [],
              chunk_Text = [CHR 0xFF], chunk_Position = 0, chunk_Metadata = None\<rparr>]"
    by (simp add: Chunker_Chunk_def example_index_def example_chunker_def example_doc_bytes_def
          replacing_env_sel)
  have i1: "\<exists>d\<in>set [example_doc]. \<exists>chunks.
      Chunker_Chunk example_env (index_chunker example_index) (doc_Content d) = Some chunks \<and>
      (\<exists>ch\<in>set chunks.
         ''d_'' @ generateChunkID example_env ''C'' 0 =
           doc_URI d @ ''_'' @
             take 16 (EncodeToString (Sum_bytes (sha256 example_env
               (chunk_Text ch @ ''_'' @ decimal (chunk_Position ch))))) \<and>
         schunk_ID example_chunk = json_string example_env (''d_'' @ generateChunkID example_env ''C'' 0) \<and>
         schunk_DocumentURI example_chunk = json_string example_env (doc_URI d) \<and>
         schunk_Text example_chunk = json_string example_env (chunk_Text ch) \<and>
         schunk_Position example_chunk = chunk_Position ch \<and>
         (json_string example_env (''d_'' @ generateChunkID example_env ''C'' 0)
            = ''d_'' @ generateChunkID example_env ''C'' 0 \<and>
          json_string example_env (doc_URI d) = doc_URI d \<and>
          json_string example_env (chunk_Text ch) = chunk_Text ch \<longrightarrow>
          schunk_ID example_chunk =
            schunk_DocumentURI example_chunk @ ''_'' @
              take 16 (EncodeToString (Sum_bytes (sha256 example_env
                (schunk_Text example_chunk @ ''_'' @ decimal (schunk_Position example_chunk)))))))"
    by (rule ingest_chunk_identifiers [OF a b b' inn out])
  have idn: "\<And>s. json_string example_env s = s"
    by (simp add: example_env_sel)
  from i1 have own: "schunk_ID example_chunk =
     schunk_DocumentURI example_chunk @ ''_'' @
       take 16 (EncodeToString (Sum_bytes (sha256 example_env
         (schunk_Text example_chunk @ ''_'' @ decimal (schunk_Position example_chunk)))))"
    unfolding idn by blast
  show ?thesis
    by (intro conjI old new i1 own c new2 t ingest_chunk_identifiers [OF a2 b b2 inn2 out2])
qed

text \<open>
  The claim as stated fails: the chunk stored by the example ingest has an identifier of
  18 characters, which is not the 16-character prefix of the digest of its text and
  position.
\<close>

theorem chunk_identifier_has_uri_prefix_counterexample:
  "chunks_bucket (the (buckets (index_storage example_ingested) ''docs''))
     = [(''d_'' @ generateChunkID example_env ''C'' 0, example_chunk)] \<and>
   schunk_Text example_chunk = ''C'' \<and> schunk_Position example_chunk = 0 \<and>
   schunk_ID example_chunk \<noteq>
     take 16 (EncodeToString (Sum_bytes (sha256 example_env
       (schunk_Text example_chunk @ ''_'' @ decimal (schunk_Position example_chunk)))))"
proof -
  have l: "length (schunk_ID example_chunk) = 18"
    by (simp add: example_chunk_def generateChunkID_length)
  have r: "length (take 16 (EncodeToString (Sum_bytes (sha256 example_env
       (schunk_Text example_chunk @ ''_'' @ decimal (schunk_Position example_chunk)))))) = 16"
    by (simp add: EncodeToString_length Sum_bytes_length)
  have "schunk_ID example_chunk \<noteq>
     take 16 (EncodeToString (Sum_bytes (sha256 example_env
       (schunk_Text example_chunk @ ''_'' @ decimal (schunk_Position example_chunk)))))"
  proof
    assume "schunk_ID example_chunk =
     take 16 (EncodeToString (Sum_bytes (sha256 example_env
       (schunk_Text example_chunk @ ''_'' @ decimal (schunk_Position example_chunk)))))"
    then have "length (schunk_ID example_chunk) =
     length (take 16 (EncodeToString (Sum_bytes (sha256 example_env
       (schunk_Text example_chunk @ ''_'' @ decimal (schunk_Position example_chunk))))))"
      by (rule arg_cong)
    with l r show False by simp
  qed
  moreover have "chunks_bucket (the (buckets (index_storage example_ingested) ''docs''))
     = [(''d_'' @ generateChunkID example_env ''C'' 0, example_chunk)]"
    by (simp add: example_ingested_eq example_chunk_def)
  moreover have "schunk_Text example_chunk = ''C''" "schunk_Position example_chunk = 0"
    by (simp_all add: example_chunk_def)
  ultimately show ?thesis by blast
qed

section \<open>The metadata written by a batch\<close>

text \<open>
  C4, as the code has it.  A batch ingest that returns without error on an index that
  has a metadata record: if the batch enqueued at least one document (new or updated),
  the metadata record afterwards has as document count the number of new plus updated
  documents of this batch, as chunk count the batch's processed chunks, and as
  time stamp the current time; if nothing was enqueued the call returns before the
  final phase and the coordinator, metadata included, is what it was.
\<close>

theorem batch_metadata_counts:
  assumes "AddDocumentBatch e i docs = Some ((r, None), i')"
    and "Storage_GetIndexMetadata (index_storage i) (index_name i) = Inr m0"
  shows "if 0 < NewDocuments r + UpdatedDocuments r
         then \<exists>m. Storage_GetIndexMetadata (index_storage i') (index_name i') = Inr m \<and>
                  DocumentCount m = NewDocuments r + UpdatedDocuments r \<and>
                  ChunkCount m = ProcessedChunks r \<and> LastUpdated m = Now e
         else i' = i"
proof -
  let ?r0 = "\<lparr>TotalDocuments = int (length docs), NewDocuments = 0, UpdatedDocuments = 0,
              UnchangedDocuments = 0, ProcessedChunks = 0, FailedURIs = []\<rparr>"
  from assms(2) obtain b where b: "buckets (index_storage i) (index_name i) = Some b" "has_metadata b"
    by (auto simp: Storage_GetIndexMetadata_def has_metadata_def split: option.splits)
  from AddDocumentBatch_cases [OF assms(1)]
  show ?thesis
  proof (elim disjE conjE exE)
    assume "analyze e i docs ?r0 [] = Some (r, [])" "i' = i"
    with analyze_counts [of e i docs ?r0 "[]" r "[]"] show ?thesis by simp
  next
    fix r1 tp i2
    assume "(None :: error option) \<noteq> None"
    then show ?thesis by simp
  next
    fix r1 tp i2
    assume an: "analyze e i docs ?r0 [] = Some (r1, tp)" and tp: "tp \<noteq> []"
      and pd: "process_documents e tp r1 i = Some (r, i2)"
      and n: "index_name i' = index_name i2"
      and fin: "case Storage_GetIndexMetadata (index_storage i2) (index_name i2) of
                  Inl x \<Rightarrow> index_storage i' = index_storage i2
                | Inr m \<Rightarrow> Storage_SetIndexMetadata (index_storage i2) (index_name i2) (count_metadata e r m)
                            = Inr (index_storage i')"
    from analyze_counts [OF an] tp have pos1: "0 < NewDocuments r1 + UpdatedDocuments r1"
      by (cases tp) auto
    from process_documents_step [OF pd b(1)] b(2)
    obtain b2 where b2: "index_name i2 = index_name i" "buckets (index_storage i2) (index_name i) = Some b2"
      "has_metadata b2" and cnt: "NewDocuments r = NewDocuments r1" "UpdatedDocuments r = UpdatedDocuments r1"
      by blast
    from b2 obtain m where m: "Storage_GetIndexMetadata (index_storage i2) (index_name i2) = Inr m"
      by (auto simp: Storage_GetIndexMetadata_def has_metadata_def)
    with fin have "Storage_SetIndexMetadata (index_storage i2) (index_name i2) (count_metadata e r m)
                     = Inr (index_storage i')" by simp
    from SetIndexMetadata_buckets [OF this] n
    have "Storage_GetIndexMetadata (index_storage i') (index_name i') = Inr (count_metadata e r m)"
      by (auto simp: Storage_GetIndexMetadata_def bucket_Get_insert)
    with pos1 cnt show ?thesis
      by (simp add: count_metadata_def)
  qed
qed

lemma example_second_ingest:
  "AddDocumentBatch example_env example_ingested [example_doc2] =
     Some ((\<lparr>TotalDocuments = 1, NewDocuments = 1, UpdatedDocuments = 0, UnchangedDocuments = 0,
             ProcessedChunks = 1, FailedURIs = []\<rparr>, None), example_ingested2) \<and>
   Storage_ListDocuments (index_storage example_ingested2) ''docs'' = [''d'', ''e''] \<and>
   Storage_GetIndexMetadata (index_storage example_ingested2) ''docs''
     = Inr \<lparr>NextHNSWId = 3, DocumentCount = 1, ChunkCount = 1, LastUpdated = ''2024-01-01T00:00:00Z''\<rparr>"
  by (simp add: example_ingested2_def example_doc2_def example_ingested_eq run_defs example_defs)

theorem batch_metadata_counts_witness:
  "Storage_GetIndexMetadata (index_storage example_ingested) (index_name example_ingested)
     = Inr \<lparr>NextHNSWId = 2, DocumentCount = 1, ChunkCount = 1, LastUpdated = Now example_env\<rparr> \<and>
   Storage_GetIndexMetadata (index_storage example_ingested2) (index_name example_ingested2)
     = Inr \<lparr>NextHNSWId = 3, DocumentCount = 1, ChunkCount = 1, LastUpdated = Now example_env\<rparr>"
proof -
  have m: "Storage_GetIndexMetadata (index_storage example_ingested) (index_name example_ingested)
     = Inr \<lparr>NextHNSWId = 2, DocumentCount = 1, ChunkCount = 1, LastUpdated = Now example_env\<rparr>"
    by (simp add: example_ingested_eq run_defs example_defs)
  have n: "index_name example_ingested2 = ''docs''"
    by (simp add: example_ingested2_def example_doc2_def example_ingested_eq run_defs example_defs)
  from batch_metadata_counts [OF conjunct1 [OF example_second_ingest] m] m n
    conjunct2 [OF conjunct2 [OF example_second_ingest]]
  show ?thesis
    by (simp add: example_env_sel)
qed

text \<open>
  The claim as stated fails: after the second batch the document bucket lists two
  documents, and the document count of the metadata is 1, the number of documents the
  second batch enqueued.
\<close>

theorem document_count_is_batch_count_counterexample:
  "AddDocumentBatch example_env example_ingested [example_doc2] =
     Some ((\<lparr>TotalDocuments = 1, NewDocuments = 1, UpdatedDocuments = 0, UnchangedDocuments = 0,
             ProcessedChunks = 1, FailedURIs = []\<rparr>, None), example_ingested2) \<and>
   length (Storage_ListDocuments (index_storage example_ingested2) ''docs'') = 2 \<and>
   DocumentCount (projr (Storage_GetIndexMetadata (index_storage example_ingested2) ''docs'')) = 1"
  using example_second_ingest by simp

section \<open>When the hash is written\<close>

lemma failing_env_sel:
  "sha256 failing_env = (\<lambda>s. of_nat (length s))"
  "encoder_available failing_env = True"
  "Encode failing_env = map (\<lambda>c. int (of_char c))"
  "Decode failing_env = map (\<lambda>t. char_of (nat t))"
  "service failing_env = (\<lambda>n m t. TransportFailure)"
  "file_Create_ok failing_env = True"
  "graph_Export_ok failing_env = True"
  "Now failing_env = ''2024-01-01T00:00:00Z''"
  "json_string failing_env = (\<lambda>s. s)"
  "json_floats failing_env = Some"
  "json_map failing_env = (\<lambda>m. m)"
  by (simp_all add: failing_env_def example_env_def)

lemma failing_env_hash: "computeDocumentHash failing_env d = computeDocumentHash example_env d"
  by (simp add: computeDocumentHash_def failing_env_sel example_env_sel)

text \<open>
  C1, as the code has it.  \<open>processDocument\<close> first asks the store to write the document
  record, and the store writes the hash in the same transaction; chunking, embedding
  and the storing of chunks come after.  If the store returns an error (the index is
  missing, the URI is not a key it accepts, \<^verbatim>\<open>json.Marshal\<close> cannot encode the metadata),
  \<open>processDocument\<close> returns that error and nothing has been written: the coordinator,
  and with it every stored hash, is as it was.  If the store returns without error, the
  hash of the submitted document is stored for the URI at that moment and is still the
  hash stored for the URI when \<open>processDocument\<close> has returned, whether the call
  reports success or a failure of embedding, chunk storage or vector insertion.
\<close>

theorem processDocument_writes_hash_first:
  assumes "processDocument e i doc = Some (res, i')"
  shows "case Storage_StoreDocument e (index_storage i) (index_name i)
                \<lparr>sdoc_URI = doc_URI doc, sdoc_Title = doc_Title doc, sdoc_Content = doc_Content doc,
                 sdoc_Hash = computeDocumentHash e doc, sdoc_Metadata = doc_Metadata doc\<rparr> of
           Inl err \<Rightarrow> res = Some (Wrapped ''failed to store document'' err) \<and> i' = i
         | Inr s1 \<Rightarrow>
             Storage_GetDocumentHash s1 (index_name i) (doc_URI doc) = Inr (computeDocumentHash e doc) \<and>
             Storage_GetDocumentHash (index_storage i') (index_name i') (doc_URI doc)
               = Inr (computeDocumentHash e doc)"
proof (cases "Storage_StoreDocument e (index_storage i) (index_name i)
                \<lparr>sdoc_URI = doc_URI doc, sdoc_Title = doc_Title doc, sdoc_Content = doc_Content doc,
                 sdoc_Hash = computeDocumentHash e doc, sdoc_Metadata = doc_Metadata doc\<rparr>")
  case (Inl err)
  with assms show ?thesis by (simp add: processDocument_def Let_def)
next
  case (Inr s1)
  let ?sd = "\<lparr>sdoc_URI = doc_URI doc, sdoc_Title = doc_Title doc, sdoc_Content = doc_Content doc,
              sdoc_Hash = computeDocumentHash e doc, sdoc_Metadata = doc_Metadata doc\<rparr>"
  from Inr obtain b where b: "buckets (index_storage i) (index_name i) = Some b"
    by (auto simp: Storage_StoreDocument_def split: option.splits)
  from StoreDocument_cases [OF b, of ?sd e] Inr
  have acc: "accepted doc"
    and s1: "Storage_GetDocumentHash s1 (index_name i) (doc_URI doc) = Inr (computeDocumentHash e doc)"
    by (auto simp: accepted_def Storage_GetDocumentHash_def put_buckets_def bucket_Get_insert
          computeDocumentHash_nonempty)
  from processDocument_step [OF assms b] acc
  have "Storage_GetDocumentHash (index_storage i') (index_name i') (doc_URI doc)
          = Inr (computeDocumentHash e doc)"
    by (auto simp: Storage_GetDocumentHash_def bucket_Get_insert)
  with Inr s1 show ?thesis by simp
qed

lemma example_failed_ingest:
  "AddDocumentBatch failing_env example_index [example_doc] =
     Some ((\<lparr>TotalDocuments = 1, NewDocuments = 1, UpdatedDocuments = 0, UnchangedDocuments = 0,
             ProcessedChunks = 0,
             FailedURIs = [(''d'', Wrapped ''failed to process chunks''
                                  (Wrapped ''failed to generate embeddings''
                                    (EmbeddingFailedForText 0
                                      (Wrapped ''failed to send request'' SendRequestFailed))))]\<rparr>, None),
           example_failed) \<and>
   Storage_GetDocumentHash (index_storage example_failed) ''docs'' ''d''
     = Inr (computeDocumentHash failing_env example_doc) \<and>
   chunks_bucket (the (buckets (index_storage example_failed) ''docs'')) = [] \<and>
   graph (hnswIndex example_failed) = [] \<and>
   AddDocumentBatch example_env example_failed [example_doc] =
     Some ((\<lparr>TotalDocuments = 1, NewDocuments = 0, UpdatedDocuments = 0, UnchangedDocuments = 1,
             ProcessedChunks = 0, FailedURIs = []\<rparr>, None), example_failed)"
  by (simp add: example_failed_def run_defs example_defs failing_env_sel failing_env_hash)

text \<open>
  The claim as stated fails: the embedding of the example document fails, the batch
  records the URI as failed and stores no chunk, and the hash of the URI, absent
  before, is now the hash of the document; a later ingest of the same document with a
  working service classifies it unchanged and processes nothing.
\<close>

theorem hash_written_despite_failure_counterexample:
  "Storage_GetDocumentHash (index_storage example_index) ''docs'' ''d'' = Inl (HashNotFound ''d'') \<and>
   AddDocumentBatch failing_env example_index [example_doc] =
     Some ((\<lparr>TotalDocuments = 1, NewDocuments = 1, UpdatedDocuments = 0, UnchangedDocuments = 0,
             ProcessedChunks = 0,
             FailedURIs = [(''d'', Wrapped ''failed to process chunks''
                                  (Wrapped ''failed to generate embeddings''
                                    (EmbeddingFailedForText 0
                                      (Wrapped ''failed to send request'' SendRequestFailed))))]\<rparr>, None),
           example_failed) \<and>
   Storage_GetDocumentHash (index_storage example_failed) ''docs'' ''d''
     = Inr (computeDocumentHash failing_env example_doc) \<and>
   chunks_bucket (the (buckets (index_storage example_failed) ''docs'')) = [] \<and>
   AddDocumentBatch example_env example_failed [example_doc] =
     Some ((\<lparr>TotalDocuments = 1, NewDocuments = 0, UpdatedDocuments = 0, UnchangedDocuments = 1,
             ProcessedChunks = 0, FailedURIs = []\<rparr>, None), example_failed)"
proof -
  have "Storage_GetDocumentHash (index_storage example_index) ''docs'' ''d'' = Inl (HashNotFound ''d'')"
    by (simp add: run_defs example_defs)
  with example_failed_ingest show ?thesis by simp
qed

theorem processDocument_writes_hash_first_witness:
  "fst (the (processDocument failing_env example_index example_doc))
     = Some (Wrapped ''failed to process chunks''
              (Wrapped ''failed to generate embeddings''
                (EmbeddingFailedForText 0 (Wrapped ''failed to send request'' SendRequestFailed)))) \<and>
   Storage_GetDocumentHash (index_storage (snd (the (processDocument failing_env example_index example_doc))))
       ''docs'' ''d''
     = Inr (computeDocumentHash failing_env example_doc) \<and>
   processDocument example_env example_index example_doc_nan
     = Some (Some (Wrapped ''failed to store document'' JSONUnsupported), example_index) \<and>
   Storage_GetDocumentHash (index_storage example_index) ''docs'' ''n'' = Inl (HashNotFound ''n'')"
proof -
  let ?out = "the (processDocument failing_env example_index example_doc)"
  have run: "processDocument failing_env example_index example_doc = Some (fst ?out, snd ?out)"
    by (simp add: run_defs example_defs failing_env_sel)
  have res: "fst ?out = Some (Wrapped ''failed to process chunks''
              (Wrapped ''failed to generate embeddings''
                (EmbeddingFailedForText 0 (Wrapped ''failed to send request'' SendRequestFailed))))"
    by (simp add: run_defs example_defs failing_env_sel)
  have st: "\<exists>s1. Storage_StoreDocument failing_env (index_storage example_index) (index_name example_index)
              \<lparr>sdoc_URI = doc_URI example_doc, sdoc_Title = doc_Title example_doc,
               sdoc_Content = doc_Content example_doc,
               sdoc_Hash = computeDocumentHash failing_env example_doc,
               sdoc_Metadata = doc_Metadata example_doc\<rparr> = Inr s1"
    by (simp add: run_defs example_defs failing_env_sel)
  have n: "index_name (snd ?out) = ''docs''" "doc_URI example_doc = ''d''"
    by (simp_all add: run_defs example_defs failing_env_sel)
  have nan: "processDocument example_env example_index example_doc_nan
     = Some (Some (Wrapped ''failed to store document'' JSONUnsupported), example_index)"
    by (simp add: example_doc_nan_def run_defs example_defs)
  have stn: "Storage_StoreDocument example_env (index_storage example_index) (index_name example_index)
              \<lparr>sdoc_URI = doc_URI example_doc_nan, sdoc_Title = doc_Title example_doc_nan,
               sdoc_Content = doc_Content example_doc_nan,
               sdoc_Hash = computeDocumentHash example_env example_doc_nan,
               sdoc_Metadata = doc_Metadata example_doc_nan\<rparr> = Inl JSONUnsupported"
    by (simp add: example_doc_nan_def run_defs example_defs)
  have h: "Storage_GetDocumentHash (index_storage example_index) ''docs'' ''n'' = Inl (HashNotFound ''n'')"
    by (simp add: run_defs example_defs)
  from processDocument_writes_hash_first [OF run] processDocument_writes_hash_first [OF nan]
    st stn res n nan h
  show ?thesis by auto
qed

section \<open>The vector identifier counter\<close>

lemma GetNextHNSWId_metadata:
  assumes "Storage_GetIndexMetadata s n = Inr m"
  shows "\<exists>s'. Storage_GetNextHNSWId s n = Inr (NextHNSWId m, s') \<and>
              Storage_GetIndexMetadata s' n = Inr (m\<lparr>NextHNSWId := NextHNSWId m + 1\<rparr>)"
  using assms
  by (auto simp: Storage_GetIndexMetadata_def Storage_GetNextHNSWId_def bucket_Put_def put_buckets_def
        bucket_Get_insert Let_def split: option.splits)

lemma word64_step_less:
  fixes x :: "64 word"
  assumes "unat x + j < 2 ^ 64" and "i < j"
  shows "x + of_nat i < x + of_nat j"
proof -
  have i: "unat (x + of_nat i) = unat x + i"
    using assms by (simp add: unat_word_ariths unat_of_nat)
  have j: "unat (x + of_nat j) = unat x + j"
    using assms by (simp add: unat_word_ariths unat_of_nat)
  show ?thesis
    using assms(2) by (simp add: word_less_nat_alt i j)
qed

lemma clear_document_buckets:
  assumes "buckets s n = Some b"
  shows "\<exists>b'. buckets (clear_document n u s) n = Some b' \<and> metadata_bucket b' = metadata_bucket b"
  using assms
  by (auto simp: clear_document_def Storage_DeleteDocument_def Storage_DeleteChunksByDocument_def
        put_buckets_def split: option.splits)

lemma fold_clear_document_buckets:
  assumes "buckets s n = Some b"
  shows "\<exists>b'. buckets (fold (clear_document n) us s) n = Some b' \<and> metadata_bucket b' = metadata_bucket b"
  using assms
proof (induction us arbitrary: s b)
  case Nil
  then show ?case by simp
next
  case (Cons u us)
  from clear_document_buckets [OF Cons.prems, of u]
  obtain b1 where b1: "buckets (clear_document n u s) n = Some b1" "metadata_bucket b1 = metadata_bucket b"
    by blast
  from Cons.IH [OF b1(1)] b1(2) show ?case by simp
qed

lemma Clear_metadata:
  assumes "buckets (index_storage i) (index_name i) = Some b"
  shows "Storage_GetIndexMetadata (index_storage (snd (indexImpl_Clear e i))) (index_name i)
           = Inr \<lparr>NextHNSWId = 1, DocumentCount = 0, ChunkCount = 0, LastUpdated = Now e\<rparr>"
proof -
  from fold_clear_document_buckets [OF assms, of "Storage_ListDocuments (index_storage i) (index_name i)"]
  obtain b1 where "buckets (fold (clear_document (index_name i))
                      (Storage_ListDocuments (index_storage i) (index_name i)) (index_storage i)) (index_name i)
                    = Some b1"
    by blast
  then show ?thesis
    by (simp add: indexImpl_Clear_def Let_def Storage_SetIndexMetadata_def Storage_GetIndexMetadata_def
          bucket_Put_def put_buckets_def bucket_Get_insert)
qed

lemma DeleteDocument_metadata:
  "Storage_GetIndexMetadata (index_storage (snd (indexImpl_DeleteDocument e i uri))) (index_name i)
     = Storage_GetIndexMetadata (index_storage i) (index_name i)"
  by (auto simp: indexImpl_DeleteDocument_def Let_def Storage_DeleteDocument_def
        Storage_DeleteChunksByDocument_def Storage_GetIndexMetadata_def put_buckets_def
        split: option.splits)

lemma StoreChunk_metadata:
  "Storage_StoreChunk e s n c = Inr s' \<Longrightarrow> Storage_GetIndexMetadata s' n = Storage_GetIndexMetadata s n"
  by (auto simp: Storage_StoreChunk_def Storage_GetIndexMetadata_def bucket_Put_def put_buckets_def
        Let_def split: option.splits if_splits)

lemma StoreDocument_metadata:
  "Storage_StoreDocument e s n d = Inr s' \<Longrightarrow> Storage_GetIndexMetadata s' n = Storage_GetIndexMetadata s n"
  by (auto simp: Storage_StoreDocument_def Storage_GetIndexMetadata_def bucket_Put_def put_buckets_def
        Let_def split: option.splits if_splits)

lemma DeleteChunksByDocument_metadata:
  "Storage_GetIndexMetadata (Storage_DeleteChunksByDocument s n u) n = Storage_GetIndexMetadata s n"
  by (auto simp: Storage_DeleteChunksByDocument_def Storage_GetIndexMetadata_def put_buckets_def
        split: option.splits)

lemma consecutive_Cons:
  fixes n :: "64 word"
  shows "map (\<lambda>j. n + of_nat j) [0..<Suc k] = n # map (\<lambda>j. (n + 1) + of_nat j) [0..<k]"
  by (simp add: upt_rec [of 0 "Suc k"] map_Suc_upt [symmetric] ac_simps del: upt_Suc)

lemma consecutive_append:
  fixes n :: "64 word"
  shows "map (\<lambda>j. n + of_nat j) [0..<k] @ map (\<lambda>j. (n + of_nat k) + of_nat j) [0..<l]
           = map (\<lambda>j. n + of_nat j) [0..<k + l]"
proof (induction k arbitrary: n)
  case 0
  show ?case by simp
next
  case (Suc k)
  have "map (\<lambda>j. n + of_nat j) [0..<Suc k] @ map (\<lambda>j. (n + of_nat (Suc k)) + of_nat j) [0..<l]
          = n # (map (\<lambda>j. (n + 1) + of_nat j) [0..<k] @ map (\<lambda>j. ((n + 1) + of_nat k) + of_nat j) [0..<l])"
    by (simp only: consecutive_Cons) (simp add: ac_simps)
  also have "\<dots> = n # map (\<lambda>j. (n + 1) + of_nat j) [0..<k + l]"
    by (simp only: Suc.IH)
  also have "\<dots> = map (\<lambda>j. n + of_nat j) [0..<Suc (k + l)]"
    by (simp only: consecutive_Cons)
  finally show ?case by simp
qed

lemma store_chunks_issued:
  assumes "store_chunks e i u md embs idx chunks = (res, i')"
    and "Storage_GetIndexMetadata (index_storage i) (index_name i) = Inr m"
  shows "\<exists>k. issued_by_chunks e i u md embs idx chunks = map (\<lambda>j. NextHNSWId m + of_nat j) [0..<k] \<and>
             Storage_GetIndexMetadata (index_storage i') (index_name i)
               = Inr (m\<lparr>NextHNSWId := NextHNSWId m + of_nat k\<rparr>)"
  using assms
proof (induction chunks arbitrary: i idx m)
  case Nil
  then have "issued_by_chunks e i u md embs idx [] = map (\<lambda>j. NextHNSWId m + of_nat j) [0..<0] \<and>
             Storage_GetIndexMetadata (index_storage i') (index_name i)
               = Inr (m\<lparr>NextHNSWId := NextHNSWId m + of_nat 0\<rparr>)"
    by simp
  then show ?case by blast
next
  case (Cons ch chunks)
  let ?n = "index_name i"
  from GetNextHNSWId_metadata [OF Cons.prems(2)]
  obtain s1 where s1: "Storage_GetNextHNSWId (index_storage i) ?n = Inr (NextHNSWId m, s1)"
    "Storage_GetIndexMetadata s1 ?n = Inr (m\<lparr>NextHNSWId := NextHNSWId m + 1\<rparr>)"
    by blast
  let ?v = "NextHNSWId m"
  let ?m1 = "m\<lparr>NextHNSWId := NextHNSWId m + 1\<rparr>"
  let ?c = "\<lparr>schunk_ID = chunk_ID ch, schunk_HNSWId = ?v, schunk_DocumentURI = u,
             schunk_Text = chunk_Text ch, schunk_Embedding = embs ! idx,
             schunk_Position = chunk_Position ch, schunk_Metadata = md\<rparr>"
  have one: "issued_by_chunks e i u md embs idx (ch # chunks) = [?v] \<Longrightarrow>
             Storage_GetIndexMetadata (index_storage i') ?n = Inr ?m1 \<Longrightarrow> ?case"
  proof -
    assume "issued_by_chunks e i u md embs idx (ch # chunks) = [?v]"
      "Storage_GetIndexMetadata (index_storage i') ?n = Inr ?m1"
    then have "issued_by_chunks e i u md embs idx (ch # chunks) = map (\<lambda>j. ?v + of_nat j) [0..<1] \<and>
               Storage_GetIndexMetadata (index_storage i') ?n = Inr (m\<lparr>NextHNSWId := ?v + of_nat 1\<rparr>)"
      by simp
    then show ?case by blast
  qed
  show ?case
  proof (cases "Storage_StoreChunk e s1 ?n ?c")
    case (Inl err)
    with Cons.prems(1) s1 show ?thesis by (intro one) auto
  next
    case (Inr s2)
    from StoreChunk_metadata [OF Inr] s1(2)
    have m2: "Storage_GetIndexMetadata s2 ?n = Inr ?m1" by simp
    show ?thesis
    proof (cases "HNSWIndex_Add (hnswIndex i) (embs ! idx) ?v")
      case (Pair r h)
      show ?thesis
      proof (cases r)
        case (Some err)
        with Cons.prems(1) s1 Inr Pair m2 show ?thesis by (intro one) auto
      next
        case None
        let ?i2 = "i\<lparr>index_storage := s2, hnswIndex := h\<rparr>"
        from Cons.prems(1) s1 Inr Pair None
        have rec: "store_chunks e ?i2 u md embs (idx + 1) chunks = (res, i')" by simp
        have isd: "issued_by_chunks e i u md embs idx (ch # chunks)
                     = ?v # issued_by_chunks e ?i2 u md embs (idx + 1) chunks"
          using s1 Inr Pair None by simp
        have "Storage_GetIndexMetadata (index_storage ?i2) (index_name ?i2) = Inr ?m1"
          using m2 by simp
        from Cons.IH [OF rec this]
        obtain k where k: "issued_by_chunks e ?i2 u md embs (idx + 1) chunks
                             = map (\<lambda>j. (?v + 1) + of_nat j) [0..<k]"
          "Storage_GetIndexMetadata (index_storage i') ?n = Inr (?m1\<lparr>NextHNSWId := (?v + 1) + of_nat k\<rparr>)"
          by auto
        have "issued_by_chunks e i u md embs idx (ch # chunks) = map (\<lambda>j. ?v + of_nat j) [0..<Suc k] \<and>
              Storage_GetIndexMetadata (index_storage i') ?n = Inr (m\<lparr>NextHNSWId := ?v + of_nat (Suc k)\<rparr>)"
          using isd k by (simp only: consecutive_Cons) (simp add: ac_simps)
        then show ?thesis by blast
      qed
    qed
  qed
qed


lemma zero_issued:
  fixes m :: index_metadata
  assumes "ids = []" and "r = Inr m"
  shows "\<exists>k. ids = map (\<lambda>j. NextHNSWId m + of_nat j) [0..<k] \<and>
             r = Inr (m\<lparr>NextHNSWId := NextHNSWId m + of_nat k\<rparr>)"
proof -
  have "ids = map (\<lambda>j. NextHNSWId m + of_nat j) [0..<0] \<and>
        r = Inr (m\<lparr>NextHNSWId := NextHNSWId m + of_nat 0\<rparr>)"
    using assms by simp
  then show ?thesis by blast
qed

lemma processDocument_issued:
  assumes "processDocument e i doc = Some (res, i')"
    and "Storage_GetIndexMetadata (index_storage i) (index_name i) = Inr m"
  shows "index_name i' = index_name i \<and>
         (\<exists>k. issued_by_document e i doc = map (\<lambda>j. NextHNSWId m + of_nat j) [0..<k] \<and>
              Storage_GetIndexMetadata (index_storage i') (index_name i)
                = Inr (m\<lparr>NextHNSWId := NextHNSWId m + of_nat k\<rparr>))"
proof -
  let ?n = "index_name i"
  let ?sd = "\<lparr>sdoc_URI = doc_URI doc, sdoc_Title = doc_Title doc, sdoc_Content = doc_Content doc,
              sdoc_Hash = computeDocumentHash e doc, sdoc_Metadata = doc_Metadata doc\<rparr>"
  show ?thesis
  proof (cases "Storage_StoreDocument e (index_storage i) ?n ?sd")
    case (Inl err)
    with assms(1) have "i' = i" "issued_by_document e i doc = []"
      by (auto simp: processDocument_def issued_by_document_def Let_def)
    with assms(2) zero_issued [of "issued_by_document e i doc" _ m] show ?thesis by simp
  next
    case (Inr s1)
    let ?s2 = "Storage_DeleteChunksByDocument s1 ?n (doc_URI doc)"
    have m2: "Storage_GetIndexMetadata ?s2 ?n = Inr m"
      using StoreDocument_metadata [OF Inr] assms(2) by (simp add: DeleteChunksByDocument_metadata)
    from assms(1) Inr obtain chunks where
      ch: "Chunker_ChunkDocument e (index_chunker i) (doc_URI doc) (doc_Content doc) = Some chunks"
      by (auto simp: processDocument_def Let_def split: option.splits)
    obtain r em where ge: "GenerateEmbeddings e (index_embedder i) (map chunk_Text chunks) = (r, em)"
      by (cases "GenerateEmbeddings e (index_embedder i) (map chunk_Text chunks)")
    show ?thesis
    proof (cases r)
      case (Inl err)
      with assms(1) Inr ch ge have "i' = i\<lparr>index_storage := ?s2, index_embedder := em\<rparr>"
        "issued_by_document e i doc = []"
        by (auto simp: processDocument_def processChunks_def issued_by_document_def Let_def)
      with m2 zero_issued [of "issued_by_document e i doc" _ m] show ?thesis by simp
    next
      case (Inr embs)
      let ?i2 = "i\<lparr>index_storage := ?s2, index_embedder := em\<rparr>"
      obtain r3 i3 where sc: "store_chunks e ?i2 (doc_URI doc) (doc_Metadata doc) embs 0 chunks = (r3, i3)"
        by (cases "store_chunks e ?i2 (doc_URI doc) (doc_Metadata doc) embs 0 chunks")
      from assms(1) \<open>Storage_StoreDocument e (index_storage i) ?n ?sd = Inr s1\<close> ch ge Inr sc
      have i': "i' = i3"
        by (auto simp: processDocument_def processChunks_def Let_def split: option.splits)
      have isd: "issued_by_document e i doc
                   = issued_by_chunks e ?i2 (doc_URI doc) (doc_Metadata doc) embs 0 chunks"
        using \<open>Storage_StoreDocument e (index_storage i) ?n ?sd = Inr s1\<close> ch ge Inr
        by (simp add: issued_by_document_def)
      have m2': "Storage_GetIndexMetadata (index_storage ?i2) (index_name ?i2) = Inr m"
        using m2 by simp
      from store_chunks_issued [OF sc m2'] store_chunks_name [OF sc] i' isd
      show ?thesis by simp
    qed
  qed
qed

lemma process_documents_issued:
  assumes "process_documents e docs r i = Some (r', i')"
    and "Storage_GetIndexMetadata (index_storage i) (index_name i) = Inr m"
  shows "index_name i' = index_name i \<and>
         (\<exists>k. issued_by_documents e docs i = map (\<lambda>j. NextHNSWId m + of_nat j) [0..<k] \<and>
              Storage_GetIndexMetadata (index_storage i') (index_name i)
                = Inr (m\<lparr>NextHNSWId := NextHNSWId m + of_nat k\<rparr>))"
  using assms
proof (induction docs arbitrary: r i m)
  case Nil
  with zero_issued [of "issued_by_documents e [] i" _ m] show ?case by simp
next
  case (Cons doc docs)
  from Cons.prems(1) obtain res i1 where pd: "processDocument e i doc = Some (res, i1)"
    by (auto split: option.splits)
  from processDocument_issued [OF pd Cons.prems(2)]
  obtain k1 where n1: "index_name i1 = index_name i"
    and k1: "issued_by_document e i doc = map (\<lambda>j. NextHNSWId m + of_nat j) [0..<k1]"
      "Storage_GetIndexMetadata (index_storage i1) (index_name i)
         = Inr (m\<lparr>NextHNSWId := NextHNSWId m + of_nat k1\<rparr>)"
    by blast
  let ?m1 = "m\<lparr>NextHNSWId := NextHNSWId m + of_nat k1\<rparr>"
  have m1: "Storage_GetIndexMetadata (index_storage i1) (index_name i1) = Inr ?m1"
    using k1(2) n1 by simp
  from Cons.prems(1) pd obtain r1 where run: "process_documents e docs r1 i1 = Some (r', i')"
    by (cases res) auto
  from Cons.IH [OF run m1]
  obtain k2 where n2: "index_name i' = index_name i1"
    and k2: "issued_by_documents e docs i1 = map (\<lambda>j. (NextHNSWId m + of_nat k1) + of_nat j) [0..<k2]"
      "Storage_GetIndexMetadata (index_storage i') (index_name i1)
         = Inr (?m1\<lparr>NextHNSWId := (NextHNSWId m + of_nat k1) + of_nat k2\<rparr>)"
    by auto
  have "issued_by_documents e (doc # docs) i
          = issued_by_document e i doc @ issued_by_documents e docs i1"
    using pd by simp
  also have "\<dots> = map (\<lambda>j. NextHNSWId m + of_nat j) [0..<k1] @
                   map (\<lambda>j. (NextHNSWId m + of_nat k1) + of_nat j) [0..<k2]"
    by (simp only: k1(1) k2(1))
  also have "\<dots> = map (\<lambda>j. NextHNSWId m + of_nat j) [0..<k1 + k2]"
    by (rule consecutive_append)
  finally have ids: "issued_by_documents e (doc # docs) i
                       = map (\<lambda>j. NextHNSWId m + of_nat j) [0..<k1 + k2]" .
  have "Storage_GetIndexMetadata (index_storage i') (index_name i)
          = Inr (m\<lparr>NextHNSWId := NextHNSWId m + of_nat (k1 + k2)\<rparr>)"
    using k2(2) n1 by (simp add: ac_simps)
  with ids n1 n2 show ?case by auto
qed

lemma batch_issued:
  assumes "AddDocumentBatch e i docs = Some (out, i')"
    and "Storage_GetIndexMetadata (index_storage i) (index_name i) = Inr m"
  shows "index_name i' = index_name i \<and>
         (\<exists>k m'. issued_by_batch e i docs = map (\<lambda>j. NextHNSWId m + of_nat j) [0..<k] \<and>
                 Storage_GetIndexMetadata (index_storage i') (index_name i) = Inr m' \<and>
                 NextHNSWId m' = NextHNSWId m + of_nat k)"
proof -
  obtain r err where out: "out = (r, err)" by (cases out)
  let ?r0 = "\<lparr>TotalDocuments = int (length docs), NewDocuments = 0, UpdatedDocuments = 0,
              UnchangedDocuments = 0, ProcessedChunks = 0, FailedURIs = []\<rparr>"
  from AddDocumentBatch_cases [OF assms(1) [unfolded out]]
  show ?thesis
  proof (elim disjE conjE exE)
    assume "analyze e i docs ?r0 [] = Some (r, [])" "i' = i"
    then have "issued_by_batch e i docs = map (\<lambda>j. NextHNSWId m + of_nat j) [0..<0] \<and>
               Storage_GetIndexMetadata (index_storage i') (index_name i) = Inr m \<and>
               NextHNSWId m = NextHNSWId m + of_nat 0"
      using assms(2) by (simp add: issued_by_batch_def)
    with \<open>i' = i\<close> show ?thesis by blast
  next
    fix r1 tp i2
    assume an: "analyze e i docs ?r0 [] = Some (r1, tp)"
      and pd: "process_documents e tp r1 i = Some (r, i2)"
      and n: "index_name i' = index_name i2"
      and st: "index_storage i' = index_storage i2"
    from process_documents_issued [OF pd assms(2)] an n st
    show ?thesis by (auto simp: issued_by_batch_def)
  next
    fix r1 tp i2
    assume an: "analyze e i docs ?r0 [] = Some (r1, tp)"
      and pd: "process_documents e tp r1 i = Some (r, i2)"
      and n: "index_name i' = index_name i2"
      and fin: "case Storage_GetIndexMetadata (index_storage i2) (index_name i2) of
                  Inl x \<Rightarrow> index_storage i' = index_storage i2
                | Inr m \<Rightarrow> Storage_SetIndexMetadata (index_storage i2) (index_name i2) (count_metadata e r m)
                            = Inr (index_storage i')"
    from process_documents_issued [OF pd assms(2)]
    obtain k where n2: "index_name i2 = index_name i"
      and k: "issued_by_documents e tp i = map (\<lambda>j. NextHNSWId m + of_nat j) [0..<k]"
        "Storage_GetIndexMetadata (index_storage i2) (index_name i)
           = Inr (m\<lparr>NextHNSWId := NextHNSWId m + of_nat k\<rparr>)"
      by blast
    let ?m2 = "m\<lparr>NextHNSWId := NextHNSWId m + of_nat k\<rparr>"
    from fin k(2) n2
    have "Storage_SetIndexMetadata (index_storage i2) (index_name i2) (count_metadata e r ?m2)
            = Inr (index_storage i')" by simp
    from SetIndexMetadata_buckets [OF this] n n2
    have "Storage_GetIndexMetadata (index_storage i') (index_name i) = Inr (count_metadata e r ?m2)"
      by (auto simp: Storage_GetIndexMetadata_def bucket_Get_insert)
    moreover have "NextHNSWId (count_metadata e r ?m2) = NextHNSWId m + of_nat k"
      by (simp add: count_metadata_def)
    ultimately show ?thesis
      using k(1) an n n2 by (auto simp: issued_by_batch_def)
  qed
qed


lemma DeleteDocument_name: "index_name (snd (indexImpl_DeleteDocument e i uri)) = index_name i"
  by (simp add: indexImpl_DeleteDocument_def Let_def split: sum.splits)

lemma Clear_name: "index_name (snd (indexImpl_Clear e i)) = index_name i"
  by (simp add: indexImpl_Clear_def Let_def)

lemma apply_operation_counter:
  assumes "apply_operation e op (i, ids) = Some (i', ids')"
    and "Storage_GetIndexMetadata (index_storage i) (index_name i) = Inr m"
    and "ids = map (\<lambda>j. base + of_nat j) [0..<k]"
    and "NextHNSWId m = base + of_nat k"
  shows "index_name i' = index_name i \<and>
         (\<exists>m' k'. Storage_GetIndexMetadata (index_storage i') (index_name i) = Inr m' \<and>
                  ids' = map (\<lambda>j. (if op = Clear then 1 else base) + of_nat j) [0..<k'] \<and>
                  NextHNSWId m' = (if op = Clear then 1 else base) + of_nat k')"
proof (cases op)
  case (Ingest docs)
  with assms(1) obtain out where run: "AddDocumentBatch e i docs = Some (out, i')"
    and ids': "ids' = ids @ issued_by_batch e i docs"
    by (auto simp: apply_operation_def split: option.splits)
  from batch_issued [OF run assms(2)]
  obtain l m' where n: "index_name i' = index_name i"
    and l: "issued_by_batch e i docs = map (\<lambda>j. NextHNSWId m + of_nat j) [0..<l]"
      "Storage_GetIndexMetadata (index_storage i') (index_name i) = Inr m'"
      "NextHNSWId m' = NextHNSWId m + of_nat l"
    by blast
  have "ids' = map (\<lambda>j. base + of_nat j) [0..<k] @ map (\<lambda>j. (base + of_nat k) + of_nat j) [0..<l]"
    using ids' assms(3,4) l(1) by simp
  also have "\<dots> = map (\<lambda>j. base + of_nat j) [0..<k + l]"
    by (rule consecutive_append)
  finally have a: "ids' = map (\<lambda>j. base + of_nat j) [0..<k + l]" .
  have b: "NextHNSWId m' = base + of_nat (k + l)"
    using l(3) assms(4) by (simp add: ac_simps)
  from a b l(2) n Ingest show ?thesis by auto
next
  case (Delete uri)
  with assms(1) have i': "i' = snd (indexImpl_DeleteDocument e i uri)" and ids': "ids' = ids"
    by (auto simp: apply_operation_def)
  from DeleteDocument_metadata [of e i uri] assms(2) i'
  have "Storage_GetIndexMetadata (index_storage i') (index_name i) = Inr m" by simp
  with assms(3,4) ids' i' Delete DeleteDocument_name [of e i uri] show ?thesis by auto
next
  case Clear
  with assms(1) have i': "i' = snd (indexImpl_Clear e i)" and ids': "ids' = []"
    by (auto simp: apply_operation_def)
  from assms(2) obtain b where b: "buckets (index_storage i) (index_name i) = Some b"
    by (auto simp: Storage_GetIndexMetadata_def split: option.splits)
  let ?m1 = "\<lparr>NextHNSWId = 1, DocumentCount = 0, ChunkCount = 0, LastUpdated = Now e\<rparr>"
  have "Storage_GetIndexMetadata (index_storage i') (index_name i) = Inr ?m1 \<and>
        ids' = map (\<lambda>j. 1 + of_nat j) [0..<0] \<and> NextHNSWId ?m1 = 1 + of_nat 0"
    using Clear_metadata [OF b, of e] i' ids' by simp
  then have "\<exists>m' k'. Storage_GetIndexMetadata (index_storage i') (index_name i) = Inr m' \<and>
                  ids' = map (\<lambda>j. 1 + of_nat j) [0..<k'] \<and> NextHNSWId m' = 1 + of_nat k'"
    by blast
  with Clear i' Clear_name [of e i] show ?thesis by simp
next
  case NextId
  from GetNextHNSWId_metadata [OF assms(2)]
  obtain s' where s': "Storage_GetNextHNSWId (index_storage i) (index_name i) = Inr (NextHNSWId m, s')"
    "Storage_GetIndexMetadata s' (index_name i) = Inr (m\<lparr>NextHNSWId := NextHNSWId m + 1\<rparr>)"
    by blast
  with assms(1) NextId have i': "i' = i\<lparr>index_storage := s'\<rparr>" and ids': "ids' = ids @ [NextHNSWId m]"
    by (auto simp: apply_operation_def)
  have a: "ids' = map (\<lambda>j. base + of_nat j) [0..<Suc k]"
    using ids' assms(3,4) by simp
  have b: "NextHNSWId (m\<lparr>NextHNSWId := NextHNSWId m + 1\<rparr>) = base + of_nat (Suc k)"
    using assms(4) by (simp add: ac_simps)
  have "Storage_GetIndexMetadata (index_storage i') (index_name i)
          = Inr (m\<lparr>NextHNSWId := NextHNSWId m + 1\<rparr>) \<and>
        ids' = map (\<lambda>j. base + of_nat j) [0..<Suc k] \<and>
        NextHNSWId (m\<lparr>NextHNSWId := NextHNSWId m + 1\<rparr>) = base + of_nat (Suc k)"
    using a b s'(2) i' by simp
  then have "\<exists>m' k'. Storage_GetIndexMetadata (index_storage i') (index_name i) = Inr m' \<and>
                  ids' = map (\<lambda>j. base + of_nat j) [0..<k'] \<and> NextHNSWId m' = base + of_nat k'"
    by blast
  with NextId i' show ?thesis by simp
qed

lemma run_operations_counter:
  assumes "run_operations e ops (i, ids) = Some (i', ids')"
    and "Storage_GetIndexMetadata (index_storage i) (index_name i) = Inr m"
    and "ids = map (\<lambda>j. base + of_nat j) [0..<k]"
    and "NextHNSWId m = base + of_nat k"
  shows "index_name i' = index_name i \<and>
         (\<exists>m' k'. Storage_GetIndexMetadata (index_storage i') (index_name i) = Inr m' \<and>
                  ids' = map (\<lambda>j. (if Clear \<in> set ops then 1 else base) + of_nat j) [0..<k'] \<and>
                  NextHNSWId m' = (if Clear \<in> set ops then 1 else base) + of_nat k')"
  using assms
proof (induction ops arbitrary: i ids m base k)
  case Nil
  then show ?case by auto
next
  case (Cons op ops)
  from Cons.prems(1) obtain i1 ids1 where st: "apply_operation e op (i, ids) = Some (i1, ids1)"
    and run: "run_operations e ops (i1, ids1) = Some (i', ids')"
    by (auto split: option.splits)
  let ?b1 = "if op = Clear then 1 else base"
  from apply_operation_counter [OF st Cons.prems(2,3,4)]
  obtain m1 k1 where n1: "index_name i1 = index_name i"
    and m1: "Storage_GetIndexMetadata (index_storage i1) (index_name i) = Inr m1"
      "ids1 = map (\<lambda>j. ?b1 + of_nat j) [0..<k1]" "NextHNSWId m1 = ?b1 + of_nat k1"
    by blast
  have m1': "Storage_GetIndexMetadata (index_storage i1) (index_name i1) = Inr m1"
    using m1(1) n1 by simp
  have base: "(if Clear \<in> set ops then 1 else ?b1) = (if Clear \<in> set (op # ops) then 1 else base)"
    by auto
  from Cons.IH [OF run m1' m1(2,3)] n1 show ?case
    unfolding base by simp
qed

text \<open>
  C3, as the code has it.  An index is created with the counter at 1.  Take a
  coordinator whose index has a metadata record and any sequence of batch ingests,
  document deletions, clears and direct allocations that returns.  The identifiers issued since the start of the sequence or, if the
  sequence clears the index, since its last \<open>Clear\<close>, are consecutive: they start at
  the counter the sequence found, or at 1 after a \<open>Clear\<close>, and the counter stored at the
  end is the first value after them.  So, as long as the 64-bit counter has not
  wrapped, the stored counter is strictly greater than every identifier issued since
  the index was created or last cleared; an ingest that fails half way, a deletion and
  the metadata update at the end of a batch do not move it back.  \<open>Clear\<close> does: it
  writes the counter 1, and the allocations that follow return \<open>1, 2, \<dots>\<close> again,
  whatever was issued before.
\<close>

theorem next_id_above_ids_since_reset:
  assumes "run_operations e ops (i, []) = Some (i', ids)"
    and "Storage_GetIndexMetadata (index_storage i) (index_name i) = Inr m"
  shows "index_name i' = index_name i \<and>
         (\<exists>m'. Storage_GetIndexMetadata (index_storage i') (index_name i) = Inr m' \<and>
               ids = map (\<lambda>j. (if Clear \<in> set ops then 1 else NextHNSWId m) + of_nat j) [0..<length ids] \<and>
               NextHNSWId m' = (if Clear \<in> set ops then 1 else NextHNSWId m) + of_nat (length ids) \<and>
               (unat (if Clear \<in> set ops then 1 else NextHNSWId m) + length ids < 2 ^ 64 \<longrightarrow>
                  (\<forall>v\<in>set ids. v < NextHNSWId m'))) \<and>
         (\<forall>s'. Storage_CreateIndex s n = Inr s' \<longrightarrow>
               Storage_GetIndexMetadata s' n
                 = Inr \<lparr>NextHNSWId = 1, DocumentCount = 0, ChunkCount = 0, LastUpdated = []\<rparr>)"
proof -
  let ?base = "if Clear \<in> set ops then 1 else NextHNSWId m"
  have e0: "[] = map (\<lambda>j. NextHNSWId m + of_nat j) [0..<0]" by simp
  have m0: "NextHNSWId m = NextHNSWId m + of_nat 0" by simp
  from run_operations_counter [OF assms(1,2) e0 m0]
  obtain m' k' where n: "index_name i' = index_name i"
    and m': "Storage_GetIndexMetadata (index_storage i') (index_name i) = Inr m'"
      "ids = map (\<lambda>j. ?base + of_nat j) [0..<k']" "NextHNSWId m' = ?base + of_nat k'"
    by blast
  from m'(2) have len: "length ids = k'" by (metis diff_zero length_map length_upt)
  have less: "unat ?base + length ids < 2 ^ 64 \<longrightarrow> (\<forall>v\<in>set ids. v < NextHNSWId m')"
  proof
    assume bound: "unat ?base + length ids < 2 ^ 64"
    show "\<forall>v\<in>set ids. v < NextHNSWId m'"
    proof
      fix v assume "v \<in> set ids"
      with m'(2) obtain j where j: "j < k'" "v = ?base + of_nat j" by auto
      from word64_step_less [of ?base k' j] bound len j(1)
      have "?base + of_nat j < ?base + of_nat k'" by simp
      with j(2) m'(3) show "v < NextHNSWId m'" by simp
    qed
  qed
  have created: "\<forall>s'. Storage_CreateIndex s n = Inr s' \<longrightarrow>
               Storage_GetIndexMetadata s' n
                 = Inr \<lparr>NextHNSWId = 1, DocumentCount = 0, ChunkCount = 0, LastUpdated = []\<rparr>"
    by (auto simp: Storage_CreateIndex_def Storage_GetIndexMetadata_def bucket_Put_def put_buckets_def
          bucket_Get_insert Let_def split: if_splits option.splits sum.splits)
  from n m' len less have "index_name i' = index_name i \<and>
         (\<exists>m'. Storage_GetIndexMetadata (index_storage i') (index_name i) = Inr m' \<and>
               ids = map (\<lambda>j. ?base + of_nat j) [0..<length ids] \<and>
               NextHNSWId m' = ?base + of_nat (length ids) \<and>
               (unat ?base + length ids < 2 ^ 64 \<longrightarrow> (\<forall>v\<in>set ids. v < NextHNSWId m')))"
    by auto
  with created show ?thesis by blast
qed


theorem next_id_above_ids_since_reset_witness:
  "Storage_CreateIndex NewStorage ''docs'' = Inr (index_storage example_index) \<and>
   Storage_GetIndexMetadata (index_storage example_index) ''docs''
     = Inr \<lparr>NextHNSWId = 1, DocumentCount = 0, ChunkCount = 0, LastUpdated = []\<rparr> \<and>
   snd (the (run_operations example_env [Ingest [example_doc], Delete ''d'', NextId] (example_index, [])))
     = [1, 2] \<and>
   Storage_GetIndexMetadata
     (index_storage (fst (the (run_operations example_env [Ingest [example_doc], Delete ''d'', NextId]
        (example_index, []))))) ''docs''
     = Inr \<lparr>NextHNSWId = 3, DocumentCount = 1, ChunkCount = 1, LastUpdated = Now example_env\<rparr> \<and>
   (\<exists>m'. Storage_GetIndexMetadata
             (index_storage (fst (the (run_operations example_env
                [Ingest [example_doc], Delete ''d'', NextId] (example_index, [])))))
             (index_name example_index) = Inr m' \<and>
         (\<forall>v\<in>set (snd (the (run_operations example_env
                [Ingest [example_doc], Delete ''d'', NextId] (example_index, [])))).
            v < NextHNSWId m')) \<and>
   snd (the (run_operations example_env [Ingest [example_doc], Clear, NextId] (example_index, [])))
     = [1] \<and>
   Storage_GetIndexMetadata
     (index_storage (fst (the (run_operations example_env [Ingest [example_doc], Clear, NextId]
        (example_index, []))))) ''docs''
     = Inr \<lparr>NextHNSWId = 2, DocumentCount = 0, ChunkCount = 0, LastUpdated = Now example_env\<rparr> \<and>
   (\<exists>m'. Storage_GetIndexMetadata
             (index_storage (fst (the (run_operations example_env
                [Ingest [example_doc], Clear, NextId] (example_index, [])))))
             (index_name example_index) = Inr m' \<and>
         (\<forall>v\<in>set (snd (the (run_operations example_env
                [Ingest [example_doc], Clear, NextId] (example_index, [])))).
            v < NextHNSWId m'))"
proof -
  let ?o1 = "the (run_operations example_env [Ingest [example_doc], Delete ''d'', NextId] (example_index, []))"
  let ?o2 = "the (run_operations example_env [Ingest [example_doc], Clear, NextId] (example_index, []))"
  have isd: "issued_by_batch example_env example_index [example_doc] = [1]"
    by (simp add: issued_by_batch_def issued_by_document_def run_defs example_defs)
  have st1: "apply_operation example_env (Ingest [example_doc]) (example_index, [])
               = Some (example_ingested, [1])"
    by (simp add: apply_operation_def example_ingest example_ingested_def isd)
  have run1: "run_operations example_env [Ingest [example_doc], Delete ''d'', NextId] (example_index, [])
                = Some (fst ?o1, snd ?o1)"
    by (simp add: st1) (simp add: apply_operation_def example_ingested_eq run_defs example_defs)
  have ids1: "snd ?o1 = [1, 2]"
    by (simp add: st1) (simp add: apply_operation_def example_ingested_eq run_defs example_defs)
  have md1: "Storage_GetIndexMetadata (index_storage (fst ?o1)) ''docs''
               = Inr \<lparr>NextHNSWId = 3, DocumentCount = 1, ChunkCount = 1, LastUpdated = Now example_env\<rparr>"
    by (simp add: st1) (simp add: apply_operation_def example_ingested_eq run_defs example_defs)
  have run2: "run_operations example_env [Ingest [example_doc], Clear, NextId] (example_index, [])
                = Some (fst ?o2, snd ?o2)"
    by (simp add: st1) (simp add: apply_operation_def example_ingested_eq run_defs example_defs)
  have ids2: "snd ?o2 = [1]"
    by (simp add: st1) (simp add: apply_operation_def example_ingested_eq run_defs example_defs)
  have md2: "Storage_GetIndexMetadata (index_storage (fst ?o2)) ''docs''
               = Inr \<lparr>NextHNSWId = 2, DocumentCount = 0, ChunkCount = 0, LastUpdated = Now example_env\<rparr>"
    by (simp add: st1) (simp add: apply_operation_def example_ingested_eq run_defs example_defs)
  have m: "Storage_GetIndexMetadata (index_storage example_index) (index_name example_index)
             = Inr \<lparr>NextHNSWId = 1, DocumentCount = 0, ChunkCount = 0, LastUpdated = []\<rparr>"
    by (simp add: run_defs example_defs)
  have fit1: "unat (if Clear \<in> set [Ingest [example_doc], Delete ''d'', NextId] then 1
                    else NextHNSWId \<lparr>NextHNSWId = 1, DocumentCount = 0, ChunkCount = 0, LastUpdated = []\<rparr>)
                + length (snd ?o1) < 2 ^ 64"
    unfolding ids1 by simp
  have fit2: "unat (if Clear \<in> set [Ingest [example_doc], Clear, NextId] then 1
                    else NextHNSWId \<lparr>NextHNSWId = 1, DocumentCount = 0, ChunkCount = 0, LastUpdated = []\<rparr>)
                + length (snd ?o2) < 2 ^ 64"
    unfolding ids2 by simp
  have cr: "Storage_CreateIndex NewStorage ''docs'' = Inr (index_storage example_index)"
    by (simp add: run_defs example_defs)
  from next_id_above_ids_since_reset [OF run1 m, of NewStorage "''docs''"] cr
  have m1: "Storage_GetIndexMetadata (index_storage example_index) ''docs''
              = Inr \<lparr>NextHNSWId = 1, DocumentCount = 0, ChunkCount = 0, LastUpdated = []\<rparr>"
    by blast
  from next_id_above_ids_since_reset [OF run1 m] fit1
  have above1: "\<exists>m'. Storage_GetIndexMetadata (index_storage (fst ?o1)) (index_name example_index) = Inr m' \<and>
                     (\<forall>v\<in>set (snd ?o1). v < NextHNSWId m')"
    by blast
  from next_id_above_ids_since_reset [OF run2 m] fit2
  have above2: "\<exists>m'. Storage_GetIndexMetadata (index_storage (fst ?o2)) (index_name example_index) = Inr m' \<and>
                     (\<forall>v\<in>set (snd ?o2). v < NextHNSWId m')"
    by blast
  show ?thesis
    by (intro conjI cr m1 ids1 md1 above1 ids2 md2 above2)
qed

text \<open>
  The claim as stated fails: the example ingest issued the vector identifier 1 (it is in
  the stored chunk and in the ANN index); after \<open>Clear\<close> the stored counter is 1, which
  is not above 1, and the next allocation returns 1 again.
\<close>

theorem clear_resets_next_id_counterexample:
  "map (schunk_HNSWId \<circ> snd) (chunks_bucket (the (buckets (index_storage example_ingested) ''docs''))) = [1] \<and>
   map fst (graph (hnswIndex example_ingested)) = [1] \<and>
   fst (indexImpl_Clear example_env example_ingested) = None \<and>
   NextHNSWId (projr (Storage_GetIndexMetadata
      (index_storage (snd (indexImpl_Clear example_env example_ingested))) ''docs'')) = 1 \<and>
   \<not> (1 :: 64 word) < NextHNSWId (projr (Storage_GetIndexMetadata
      (index_storage (snd (indexImpl_Clear example_env example_ingested))) ''docs'')) \<and>
   fst (projr (Storage_GetNextHNSWId
      (index_storage (snd (indexImpl_Clear example_env example_ingested))) ''docs'')) = 1"
  by (simp add: example_ingested_eq run_defs example_defs)

section \<open>Ingesting the same batch again\<close>

lemma analyze_all_current:
  "\<forall>d\<in>set docs. hash_current e i d \<Longrightarrow>
   analyze e i docs r tp
     = Some (r\<lparr>UnchangedDocuments := UnchangedDocuments r + int (length docs)\<rparr>, tp)"
proof (induction docs arbitrary: r)
  case Nil
  then show ?case by simp
next
  case (Cons doc docs)
  from Cons.prems have cur: "Storage_GetDocumentHash (index_storage i) (index_name i) (doc_URI doc)
                               = Inr (computeDocumentHash e doc)"
    and rest: "\<forall>d\<in>set docs. hash_current e i d"
    by (simp_all add: hash_current_def)
  from Cons.IH [OF rest, of "r\<lparr>UnchangedDocuments := UnchangedDocuments r + 1\<rparr>"] cur
  show ?case by (simp add: Let_def ac_simps)
qed

lemma analyze_leftover:
  "analyze e i docs r tp = Some (r', tp') \<Longrightarrow>
   (\<forall>d\<in>set docs. d \<in> set tp' \<or> hash_current e i d) \<and> set tp \<subseteq> set tp' \<and>
   set tp' \<subseteq> set tp \<union> set docs"
proof (induction docs arbitrary: r tp)
  case Nil
  then show ?case by simp
next
  case (Cons doc docs)
  show ?case
  proof (cases "Storage_GetDocumentHash (index_storage i) (index_name i) (doc_URI doc)")
    case (Inl err)
    with Cons.prems
    have "analyze e i docs (r\<lparr>NewDocuments := NewDocuments r + 1\<rparr>) (tp @ [doc]) = Some (r', tp')"
      by (simp add: Let_def)
    from Cons.IH [OF this] show ?thesis by auto
  next
    case (Inr h)
    show ?thesis
    proof (cases "h = computeDocumentHash e doc")
      case True
      with Cons.prems Inr
      have "analyze e i docs (r\<lparr>UnchangedDocuments := UnchangedDocuments r + 1\<rparr>) tp = Some (r', tp')"
        by (simp add: Let_def)
      from Cons.IH [OF this] True Inr show ?thesis by (auto simp: hash_current_def)
    next
      case False
      with Cons.prems Inr
      have "analyze e i docs (r\<lparr>UpdatedDocuments := UpdatedDocuments r + 1\<rparr>) (tp @ [doc]) = Some (r', tp')"
        by (simp add: Let_def split: if_splits)
      from Cons.IH [OF this] show ?thesis by auto
    qed
  qed
qed

lemma processDocument_success_buckets:
  "processDocument e i doc = Some (None, i') \<Longrightarrow> \<exists>b. buckets (index_storage i) (index_name i) = Some b"
  by (auto simp: processDocument_def Let_def Storage_StoreDocument_def split: option.splits sum.splits)

lemma processDocument_success_hash:
  assumes "processDocument e i doc = Some (None, i')"
  shows "index_name i' = index_name i \<and>
         (\<forall>u. Storage_GetDocumentHash (index_storage i') (index_name i) u
               = (if u = doc_URI doc then Inr (computeDocumentHash e doc)
                  else Storage_GetDocumentHash (index_storage i) (index_name i) u))"
proof -
  from processDocument_success_buckets [OF assms]
  obtain b where b: "buckets (index_storage i) (index_name i) = Some b" by blast
  from processDocument_step [OF assms b] b show ?thesis
    by (auto simp: Storage_GetDocumentHash_def bucket_Get_insert split: if_splits)
qed

lemma process_documents_failed_mono:
  "process_documents e docs r i = Some (r', i') \<Longrightarrow> FailedURIs r \<noteq> [] \<Longrightarrow> FailedURIs r' \<noteq> []"
proof (induction docs arbitrary: r i)
  case Nil
  then show ?case by simp
next
  case (Cons doc docs)
  from Cons.prems(1) obtain res i1 where pd: "processDocument e i doc = Some (res, i1)"
    by (auto split: option.splits)
  show ?case
  proof (cases res)
    case None
    with Cons.prems pd Cons.IH [of _ i1] show ?thesis by auto
  next
    case (Some err)
    with Cons.prems pd
      Cons.IH [of "r\<lparr>FailedURIs := bucket_insert (doc_URI doc) err (FailedURIs r)\<rparr>" i1]
    show ?thesis by (auto simp: bucket_insert_nonempty)
  qed
qed

lemma process_documents_hashes:
  assumes "process_documents e docs r i = Some (r', i')"
    and "FailedURIs r' = []"
    and "\<forall>d\<in>D. \<forall>d'\<in>set docs. doc_URI d = doc_URI d' \<longrightarrow> computeDocumentHash e d = computeDocumentHash e d'"
    and "\<forall>d\<in>D. d \<in> set docs \<or> hash_current e i d"
  shows "index_name i' = index_name i \<and> (\<forall>d\<in>D. hash_current e i' d)"
  using assms
proof (induction docs arbitrary: r i)
  case Nil
  then show ?case by simp
next
  case (Cons doc docs)
  from Cons.prems(1) obtain res i1 where pd: "processDocument e i doc = Some (res, i1)"
    by (auto split: option.splits)
  have res: "res = None"
  proof (cases res)
    case None
    then show ?thesis .
  next
    case (Some err)
    with Cons.prems(1) pd
    have "process_documents e docs (r\<lparr>FailedURIs := bucket_insert (doc_URI doc) err (FailedURIs r)\<rparr>) i1
            = Some (r', i')" by simp
    from process_documents_failed_mono [OF this] Cons.prems(2) show ?thesis
      by (simp add: bucket_insert_nonempty)
  qed
  let ?r = "r\<lparr>ProcessedChunks := ProcessedChunks r +
              int (length (Storage_GetChunksByDocument (index_storage i1) (index_name i1) (doc_URI doc)))\<rparr>"
  from Cons.prems(1) pd res have run: "process_documents e docs ?r i1 = Some (r', i')" by simp
  from processDocument_success_hash [OF pd [unfolded res]]
  have n: "index_name i1 = index_name i"
    and h: "\<And>u. Storage_GetDocumentHash (index_storage i1) (index_name i) u
               = (if u = doc_URI doc then Inr (computeDocumentHash e doc)
                  else Storage_GetDocumentHash (index_storage i) (index_name i) u)"
    by simp_all
  have compat: "\<forall>d\<in>D. \<forall>d'\<in>set docs. doc_URI d = doc_URI d' \<longrightarrow>
                  computeDocumentHash e d = computeDocumentHash e d'"
    using Cons.prems(3) by simp
  have inv: "\<forall>d\<in>D. d \<in> set docs \<or> hash_current e i1 d"
  proof
    fix d assume d: "d \<in> D"
    show "d \<in> set docs \<or> hash_current e i1 d"
    proof (cases "doc_URI d = doc_URI doc")
      case True
      with Cons.prems(3) d have "computeDocumentHash e d = computeDocumentHash e doc" by simp
      with True h [of "doc_URI d"] n show ?thesis by (simp add: hash_current_def)
    next
      case False
      with Cons.prems(4) d have "d \<in> set docs \<or> hash_current e i d" by auto
      with False h [of "doc_URI d"] n show ?thesis by (auto simp: hash_current_def)
    qed
  qed
  from Cons.IH [OF run Cons.prems(2) compat inv] n show ?case by simp
qed

lemma hash_current_storage:
  assumes "index_name i' = index_name i"
    and "\<forall>u. Storage_GetDocumentHash (index_storage i') (index_name i) u
             = Storage_GetDocumentHash (index_storage i) (index_name i) u"
  shows "hash_current e i' d = hash_current e i d"
  using assms by (simp add: hash_current_def)

lemma SetIndexMetadata_hashes:
  assumes "Storage_SetIndexMetadata s n m = Inr s'"
  shows "Storage_GetDocumentHash s' n u = Storage_GetDocumentHash s n u"
  using SetIndexMetadata_buckets [OF assms]
  by (auto simp: Storage_GetDocumentHash_def)

text \<open>
  C6, as the code has it.  Let a batch be ingested with no failed document, and let the
  documents of the batch that share a URI have the same hash (as they do when the URIs
  of the batch are pairwise distinct).  Then a second ingest of the same batch, with the
  same digest function, classifies every document unchanged, processes no chunk, fails
  nothing, returns no error and leaves the coordinator as it is.
\<close>

theorem reingest_is_unchanged:
  assumes "AddDocumentBatch e i docs = Some ((r1, err1), i1)"
    and "FailedURIs r1 = []"
    and "\<forall>d\<in>set docs. \<forall>d'\<in>set docs.
           doc_URI d = doc_URI d' \<longrightarrow> computeDocumentHash e d = computeDocumentHash e d'"
    and "sha256 e' = sha256 e"
  shows "AddDocumentBatch e' i1 docs =
           Some ((\<lparr>TotalDocuments = int (length docs), NewDocuments = 0, UpdatedDocuments = 0,
                   UnchangedDocuments = int (length docs), ProcessedChunks = 0, FailedURIs = []\<rparr>, None),
                 i1)"
proof -
  let ?r0 = "\<lparr>TotalDocuments = int (length docs), NewDocuments = 0, UpdatedDocuments = 0,
              UnchangedDocuments = 0, ProcessedChunks = 0, FailedURIs = []\<rparr>"
  have cur: "\<forall>d\<in>set docs. hash_current e i1 d"
    using AddDocumentBatch_cases [OF assms(1)]
  proof (elim disjE conjE exE)
    assume "analyze e i docs ?r0 [] = Some (r1, [])" "i1 = i"
    with analyze_leftover [of e i docs ?r0 "[]" r1 "[]"] show ?thesis by simp
  next
    fix r tp i2
    assume an: "analyze e i docs ?r0 [] = Some (r, tp)"
      and pd: "process_documents e tp r i = Some (r1, i2)"
      and n: "index_name i1 = index_name i2"
      and st: "index_storage i1 = index_storage i2"
    from analyze_leftover [OF an]
    have left: "\<forall>d\<in>set docs. d \<in> set tp \<or> hash_current e i d" and sub: "set tp \<subseteq> set docs"
      by auto
    from assms(3) sub
    have compat: "\<forall>d\<in>set docs. \<forall>d'\<in>set tp.
                    doc_URI d = doc_URI d' \<longrightarrow> computeDocumentHash e d = computeDocumentHash e d'"
      by blast
    from process_documents_hashes [OF pd assms(2) compat left] n st
    show ?thesis by (auto simp: hash_current_def)
  next
    fix r tp i2
    assume an: "analyze e i docs ?r0 [] = Some (r, tp)"
      and pd: "process_documents e tp r i = Some (r1, i2)"
      and n: "index_name i1 = index_name i2"
      and fin: "case Storage_GetIndexMetadata (index_storage i2) (index_name i2) of
                  Inl x \<Rightarrow> index_storage i1 = index_storage i2
                | Inr m \<Rightarrow> Storage_SetIndexMetadata (index_storage i2) (index_name i2) (count_metadata e r1 m)
                            = Inr (index_storage i1)"
    from analyze_leftover [OF an]
    have left: "\<forall>d\<in>set docs. d \<in> set tp \<or> hash_current e i d" and sub: "set tp \<subseteq> set docs"
      by auto
    from assms(3) sub
    have compat: "\<forall>d\<in>set docs. \<forall>d'\<in>set tp.
                    doc_URI d = doc_URI d' \<longrightarrow> computeDocumentHash e d = computeDocumentHash e d'"
      by blast
    from process_documents_hashes [OF pd assms(2) compat left]
    have i2: "\<forall>d\<in>set docs. hash_current e i2 d" by simp
    have "\<forall>u. Storage_GetDocumentHash (index_storage i1) (index_name i2) u
             = Storage_GetDocumentHash (index_storage i2) (index_name i2) u"
    proof (cases "Storage_GetIndexMetadata (index_storage i2) (index_name i2)")
      case (Inl x)
      with fin show ?thesis by simp
    next
      case (Inr m)
      with fin have "Storage_SetIndexMetadata (index_storage i2) (index_name i2) (count_metadata e r1 m)
                       = Inr (index_storage i1)" by simp
      from SetIndexMetadata_hashes [OF this] show ?thesis by simp
    qed
    from hash_current_storage [OF n this] i2 show ?thesis by simp
  qed
  have "computeDocumentHash e' = computeDocumentHash e"
    using assms(4) by (rule_tac ext) (simp add: computeDocumentHash_def)
  with cur have "\<forall>d\<in>set docs. hash_current e' i1 d"
    by (simp add: hash_current_def)
  from analyze_all_current [OF this, of ?r0 "[]"]
  show ?thesis
    by (simp add: AddDocumentBatch_def)
qed

theorem reingest_is_unchanged_witness:
  "AddDocumentBatch example_env example_index [example_doc] =
     Some ((\<lparr>TotalDocuments = 1, NewDocuments = 1, UpdatedDocuments = 0, UnchangedDocuments = 0,
             ProcessedChunks = 1, FailedURIs = []\<rparr>, None), example_ingested) \<and>
   AddDocumentBatch example_env example_ingested [example_doc] =
     Some ((\<lparr>TotalDocuments = 1, NewDocuments = 0, UpdatedDocuments = 0, UnchangedDocuments = 1,
             ProcessedChunks = 0, FailedURIs = []\<rparr>, None), example_ingested)"
proof -
  have a: "AddDocumentBatch example_env example_index [example_doc] =
     Some ((\<lparr>TotalDocuments = 1, NewDocuments = 1, UpdatedDocuments = 0, UnchangedDocuments = 0,
             ProcessedChunks = 1, FailedURIs = []\<rparr>, None), example_ingested)"
    by (simp add: example_ingested_def example_ingest)
  have f: "FailedURIs \<lparr>TotalDocuments = 1, NewDocuments = 1, UpdatedDocuments = 0, UnchangedDocuments = 0,
             ProcessedChunks = 1, FailedURIs = []\<rparr> = []"
    by simp
  have c: "\<forall>d\<in>set [example_doc]. \<forall>d'\<in>set [example_doc].
             doc_URI d = doc_URI d' \<longrightarrow>
             computeDocumentHash example_env d = computeDocumentHash example_env d'"
    by simp
  from reingest_is_unchanged [OF a f c refl] a show ?thesis by simp
qed

lemma example_hashes_differ:
  "computeDocumentHash example_env example_doc \<noteq> computeDocumentHash example_env example_doc_v2"
  by (simp add: computeDocumentHash_eq_iff example_env_sel example_doc_def example_doc_v2_def)

text \<open>
  The claim as stated fails for a batch with a repeated URI: the first ingest classifies
  both documents new and fails nothing; the hash left for the URI is the hash of the
  second document, so the second ingest of the same batch classifies the first document
  updated and processes a chunk.
\<close>

theorem reingest_same_uri_twice_counterexample:
  "AddDocumentBatch example_env example_index [example_doc, example_doc_v2] =
     Some ((\<lparr>TotalDocuments = 2, NewDocuments = 2, UpdatedDocuments = 0, UnchangedDocuments = 0,
             ProcessedChunks = 2, FailedURIs = []\<rparr>, None), example_ingested_twice) \<and>
   fst (the (AddDocumentBatch example_env example_ingested_twice [example_doc, example_doc_v2])) =
     (\<lparr>TotalDocuments = 2, NewDocuments = 0, UpdatedDocuments = 1, UnchangedDocuments = 1,
       ProcessedChunks = 1, FailedURIs = []\<rparr>, None)"
  using example_hashes_differ
  by (simp add: example_ingested_twice_def example_doc_v2_def run_defs example_defs)

section \<open>The chunker's windows\<close>

lemma chunk_loop_windows:
  assumes "0 < chunkSize c - overlapSize c" and "chunkSize c - overlapSize c \<le> chunkSize c"
    and "int j * (chunkSize c - overlapSize c) < int (length T)"
    and "j \<le> k"
    and "int (length T) \<le> int k * (chunkSize c - overlapSize c) + chunkSize c"
    and "\<forall>m. j \<le> m \<and> m < k \<longrightarrow> int m * (chunkSize c - overlapSize c) + chunkSize c < int (length T)"
  shows "chunk_loop e (chunkSize c) (chunkSize c - overlapSize c) T
           (int j * (chunkSize c - overlapSize c)) (int j) acc
         = Some (acc @ map (spec_window e c T) [j..<Suc k])"
  using assms(3,4,6)
proof (induction "k - j" arbitrary: j acc)
  case 0
  then have jk: "j = k" by simp
  let ?st = "chunkSize c - overlapSize c"
  let ?i = "int j * ?st"
  have i0: "0 \<le> ?i" using assms(1) by simp
  have ni: "\<not> ?i < 0" using assms(1) by (simp add: not_less)
  have reach: "int (length T) \<le> ?i + chunkSize c" using assms(5) jk by simp
  have nati: "nat ?i = j * nat ?st" using assms(1) by (simp add: nat_mult_distrib)
  have len: "length (drop (nat ?i) T) \<le> nat (chunkSize c)"
    using reach i0 by simp
  have tk: "take (nat (int (length T) - ?i)) (drop (nat ?i) T) = take (nat (chunkSize c)) (drop (nat ?i) T)"
    using len i0 by simp
  show ?case
    apply (subst chunk_loop.simps)
    using "0.prems"(1) ni reach tk nati jk
    by (simp add: Let_def spec_window_def)
next
  case (Suc d)
  let ?st = "chunkSize c - overlapSize c"
  let ?i = "int j * ?st"
  from Suc.hyps(2) have jk: "j < k" by simp
  have ni: "\<not> ?i < 0" using assms(1) by (simp add: not_less)
  have short: "?i + chunkSize c < int (length T)" using Suc.prems(3) jk by simp
  have nati: "nat ?i = j * nat ?st" using assms(1) by (simp add: nat_mult_distrib)
  have next_i: "?i + ?st = int (Suc j) * ?st" by (simp add: algebra_simps)
  have next_lt: "int (Suc j) * ?st < int (length T)"
    using short assms(2) next_i by linarith
  have d: "d = k - Suc j" using Suc.hyps(2) by simp
  have rest: "\<forall>m. Suc j \<le> m \<and> m < k \<longrightarrow> int m * ?st + chunkSize c < int (length T)"
    using Suc.prems(3) by simp
  have sj: "Suc j \<le> k" using jk by simp
  note IH = Suc.hyps(1) [OF d next_lt sj rest]
  have step: "chunk_loop e (chunkSize c) ?st T ?i (int j) acc
                = chunk_loop e (chunkSize c) ?st T (?i + ?st) (int j + 1) (acc @ [spec_window e c T j])"
    apply (subst chunk_loop.simps)
    using Suc.prems(1) ni short nati assms(1,2)
    by (simp add: Let_def spec_window_def)
  have "chunk_loop e (chunkSize c) ?st T (?i + ?st) (int j + 1) (acc @ [spec_window e c T j])
          = Some ((acc @ [spec_window e c T j]) @ map (spec_window e c T) [Suc j..<Suc k])"
    using IH [of "acc @ [spec_window e c T j]"] next_i by (simp add: ac_simps)
  with step show ?case
    using jk by (simp add: upt_conv_Cons del: upt_Suc)
qed

lemma last_window_reaches:
  assumes "0 < chunkSize c - overlapSize c" and "chunkSize c < int (length T)"
  shows "int (length T) \<le> int (last_window c T) * (chunkSize c - overlapSize c) + chunkSize c \<and>
         (\<forall>m<last_window c T. int m * (chunkSize c - overlapSize c) + chunkSize c < int (length T))"
proof -
  define s where "s = nat (chunkSize c - overlapSize c)"
  define d where "d = nat (int (length T) - chunkSize c)"
  define k where "k = (d + s - 1) div s"
  have s: "0 < s" and d: "0 < d" using assms by (simp_all add: s_def d_def)
  have k: "last_window c T = k" by (simp add: last_window_def k_def d_def s_def)
  have st: "chunkSize c - overlapSize c = int s" using assms(1) by (simp add: s_def)
  have n: "int (length T) = int d + chunkSize c" using assms(2) by (simp add: d_def)
  have le: "k * s \<le> d + s - 1" by (simp add: k_def)
  have "d + s - 1 < s + k * s"
    unfolding k_def using s by (rule dividend_less_div_times)
  with d have reach: "d \<le> k * s" by simp
  have before: "m * s < d" if "m < k" for m
  proof -
    from that have "Suc m \<le> k" by simp
    then have "Suc m * s \<le> k * s" by (rule mult_le_mono1)
    with le have "m * s + s \<le> d + s - 1" by simp
    with d show ?thesis by simp
  qed
  have "int d \<le> int k * int s"
    using reach by (metis of_nat_le_iff of_nat_mult)
  moreover have "int m * int s < int d" if "m < k" for m
    using before [OF that] by (metis of_nat_less_iff of_nat_mult)
  ultimately show ?thesis
    by (simp add: k st n)
qed

lemma NewChunker_valid:
  assumes "NewChunker e size' overlap = Inr c"
  shows "chunkSize c = size' \<and> 50 \<le> chunkSize c \<and> overlapSize c = (if overlap < 0 then 0 else overlap) \<and>
         0 \<le> overlapSize c \<and> overlapSize c < chunkSize c"
  using assms by (auto simp: NewChunker_def split: if_splits)

text \<open>
  C7.  For a chunker that \<open>NewChunker\<close> has returned, \<open>Chunk\<close> returns, and returns
  \<open>spec_Chunk\<close>: the empty sequence for the empty text; the input itself, at position
  0, when it has at most \<open>chunkSize\<close> tokens; otherwise the windows at the offsets
  \<open>0, stride, 2 * stride, \<dots>\<close> with \<open>stride = chunkSize - overlapSize\<close>, each of at most
  \<open>chunkSize\<close> tokens and decoded, at the positions \<open>0, 1, 2, \<dots>\<close>.  The last of these
  windows reaches the end of the token sequence and no earlier one does.  A text of 51
  tokens, with chunks of 50 tokens and no overlap, gives two chunks.
\<close>

theorem Chunk_windows:
  assumes "NewChunker e size' overlap = Inr c"
  shows "Chunker_Chunk e c text = Some (spec_Chunk e c text) \<and>
         (chunkSize c < int (length (Encode e text)) \<longrightarrow>
            int (length (Encode e text))
              \<le> int (last_window c (Encode e text)) * (chunkSize c - overlapSize c) + chunkSize c \<and>
            (\<forall>m<last_window c (Encode e text).
               int m * (chunkSize c - overlapSize c) + chunkSize c < int (length (Encode e text)))) \<and>
         (text \<noteq> [] \<and> length (Encode e text) = 51 \<and> chunkSize c = 50 \<and> overlapSize c = 0 \<longrightarrow>
            length (spec_Chunk e c text) = 2)"
proof -
  from NewChunker_valid [OF assms]
  have pos: "0 < chunkSize c - overlapSize c" and le: "chunkSize c - overlapSize c \<le> chunkSize c"
    by simp_all
  let ?T = "Encode e text"
  have run: "Chunker_Chunk e c text = Some (spec_Chunk e c text)"
  proof (cases "text = [] \<or> int (length ?T) \<le> chunkSize c")
    case True
    then show ?thesis by (auto simp: Chunker_Chunk_def spec_Chunk_def Let_def)
  next
    case False
    then have long: "chunkSize c < int (length ?T)" and ne: "text \<noteq> []" by simp_all
    from last_window_reaches [OF pos long]
    have reach: "int (length ?T) \<le> int (last_window c ?T) * (chunkSize c - overlapSize c) + chunkSize c"
      and before: "\<forall>m. 0 \<le> m \<and> m < last_window c ?T \<longrightarrow>
                     int m * (chunkSize c - overlapSize c) + chunkSize c < int (length ?T)"
      by simp_all
    have "0 < int (length ?T)"
      using long NewChunker_valid [OF assms] by linarith
    then have start: "int 0 * (chunkSize c - overlapSize c) < int (length ?T)"
      by simp
    from chunk_loop_windows [OF pos le start _ reach before, of e "[]"]
    have "chunk_loop e (chunkSize c) (chunkSize c - overlapSize c) ?T 0 0 []
            = Some (map (spec_window e c ?T) [0..<Suc (last_window c ?T)])"
      by simp
    with long ne pos show ?thesis
      by (simp add: Chunker_Chunk_def spec_Chunk_def Let_def del: upt_Suc)
  qed
  have two: "length (spec_Chunk e c text) = 2"
    if "text \<noteq> []" "length ?T = 51" "chunkSize c = 50" "overlapSize c = 0"
    using that by (simp add: spec_Chunk_def last_window_def)
  from run two last_window_reaches [OF pos] show ?thesis by blast
qed

theorem Chunk_windows_witness:
  "NewChunker example_env 50 0 = Inr example_chunker \<and>
   map chunk_Text (the (Chunker_Chunk example_env example_chunker (replicate 51 CHR ''a'')))
     = [replicate 50 CHR ''a'', ''a''] \<and>
   map chunk_Position (the (Chunker_Chunk example_env example_chunker (replicate 51 CHR ''a''))) = [0, 1] \<and>
   Chunker_Chunk example_env example_chunker [] = Some [] \<and>
   map chunk_Text (the (Chunker_Chunk example_env example_chunker ''short text'')) = [''short text'']"
proof -
  have a: "NewChunker example_env 50 0 = Inr example_chunker"
    by (simp add: NewChunker_def example_env_sel example_chunker_def)
  have c97: "char_of (97 :: nat) = CHR ''a''" by code_simp
  have long: "spec_Chunk example_env example_chunker (replicate 51 CHR ''a'')
                = map (spec_window example_env example_chunker
                        (Encode example_env (replicate 51 CHR ''a''))) [0, 1]"
    by (simp add: spec_Chunk_def last_window_def example_env_sel example_chunker_def)
  have texts: "map chunk_Text (spec_Chunk example_env example_chunker (replicate 51 CHR ''a''))
                 = [replicate 50 CHR ''a'', ''a'']"
    unfolding long by (simp add: spec_window_def example_env_sel example_chunker_def Let_def c97)
  have positions: "map chunk_Position (spec_Chunk example_env example_chunker (replicate 51 CHR ''a'')) = [0, 1]"
    unfolding long by (simp add: spec_window_def Let_def)
  have empty: "spec_Chunk example_env example_chunker [] = []"
    by (simp add: spec_Chunk_def)
  have short: "map chunk_Text (spec_Chunk example_env example_chunker ''short text'') = [''short text'']"
    by (simp add: spec_Chunk_def example_env_sel example_chunker_def)
  from Chunk_windows [OF a, of "replicate 51 CHR ''a''"] Chunk_windows [OF a, of "[]"]
    Chunk_windows [OF a, of "''short text''"] a texts positions empty short
  show ?thesis by simp
qed

end
